(* ===== verification/Json.thy ===== *)
theory Json
  imports Prelude "HOL-Library.List_Lexorder" "HOL-Library.Char_ord"
begin

text \<open>
  The JSON values the program stores and hashes, and the text \<open>json.dumps\<close> gives them with
  \<open>separators=(",", ":")\<close>, \<open>ensure_ascii=True\<close> and \<open>sort_keys=True\<close>. A string is a list of code
  points below 256, a dictionary an insertion-ordered association list, and a float its
  \<open>repr\<close> text (\<open>repr\<close> is injective on finite floats). The main result is that the encoding is
  injective: two values with the same canonical text are equal up to the order of the keys.
\<close>

datatype json =
    JNull
  | JBool bool
  | JInt int
  | JFloat string
  | JStr string
  | JArr "json list"
  | JObj "(string \<times> json) list"

type_synonym jdict = "(string, json) dict"

text \<open>\<open>d.get(k)\<close>: the value or \<open>None\<close>.\<close>

definition jget :: "jdict \<Rightarrow> string \<Rightarrow> json" where
  "jget d k = (case dget d k of None \<Rightarrow> JNull | Some v \<Rightarrow> v)"

lemma jget_Cons [simp]: "jget ((k, v) # d) k' = (if k' = k then v else jget d k')"
  by (simp add: jget_def)

lemma jget_Nil [simp]: "jget [] k = JNull"
  by (simp add: jget_def)

definition jopt :: "string option \<Rightarrow> json" where
  "jopt s = (case s of None \<Rightarrow> JNull | Some t \<Rightarrow> JStr t)"

lemma jopt_simps [simp]: "jopt None = JNull" "jopt (Some t) = JStr t"
  by (simp_all add: jopt_def)

lemma jopt_inject [simp]: "jopt a = jopt b \<longleftrightarrow> a = b"
  by (cases a; cases b) auto

subsection \<open>Decimal and hexadecimal digits\<close>

definition digit :: "int \<Rightarrow> char" where
  "digit d = (char_of (48 + d))"

function dec_pos :: "int \<Rightarrow> string" where
  "dec_pos n = (if n < 10 then [digit n] else dec_pos (n div 10) @ [digit (n mod 10)])"
  by auto
termination by (relation "measure nat") auto

declare dec_pos.simps [simp del]

definition dec :: "int \<Rightarrow> string" where
  "dec n = (if n < 0 then CHR ''-'' # dec_pos (- n) else dec_pos n)"

definition hex_digit :: "int \<Rightarrow> char" where
  "hex_digit d = (if d < 10 then char_of (48 + d) else char_of (87 + d))"

subsection \<open>Encoding\<close>

text \<open>The escapes of \<open>py_encode_basestring_ascii\<close>: every character outside \<open>' ' .. '~'\<close>.\<close>

definition esc_char :: "char \<Rightarrow> string" where
  "esc_char c =
     (let n = of_char c :: int in
      if n = 34 then [CHR 0x5C, CHR 0x22]
      else if n = 92 then [CHR 0x5C, CHR 0x5C]
      else if n = 10 then [CHR 0x5C, CHR ''n'']
      else if n = 13 then [CHR 0x5C, CHR ''r'']
      else if n = 9 then [CHR 0x5C, CHR ''t'']
      else if n = 12 then [CHR 0x5C, CHR ''f'']
      else if n = 8 then [CHR 0x5C, CHR ''b'']
      else if 32 \<le> n \<and> n \<le> 126 then [c]
      else [CHR 0x5C, CHR ''u'', CHR ''0'', CHR ''0'', hex_digit (n div 16), hex_digit (n mod 16)])"

definition json_str :: "string \<Rightarrow> string" where
  "json_str s = CHR 0x22 # concat (map esc_char s) @ [CHR 0x22]"

fun join :: "string \<Rightarrow> string list \<Rightarrow> string" where
  "join sep [] = []"
| "join sep [x] = x"
| "join sep (x # y # ys) = x @ sep @ join sep (y # ys)"

fun enc :: "json \<Rightarrow> string" where
  "enc JNull = ''null''"
| "enc (JBool b) = (if b then ''true'' else ''false'')"
| "enc (JInt n) = dec n"
| "enc (JFloat t) = t"
| "enc (JStr s) = json_str s"
| "enc (JArr xs) = ''['' @ join '','' (map enc xs) @ '']''"
| "enc (JObj kvs) = ''{'' @ join '','' (map (\<lambda>(k, v). json_str k @ '':'' @ enc v) kvs) @ ''}''"

text \<open>\<open>sort_keys=True\<close>: the items of every dictionary ordered by key.\<close>

fun canon :: "json \<Rightarrow> json" where
  "canon (JArr xs) = JArr (map canon xs)"
| "canon (JObj kvs) = JObj (sort_key fst (map (\<lambda>(k, v). (k, canon v)) kvs))"
| "canon v = v"

definition json_dumps_sorted :: "json \<Rightarrow> string" where
  "json_dumps_sorted v = enc (canon v)"

text \<open>\<open>str\<close> of a scalar; the text of a container is not used.\<close>

definition py_str :: "json \<Rightarrow> string" where
  "py_str v = (case v of JStr s \<Rightarrow> s | JNull \<Rightarrow> ''None'' | JBool b \<Rightarrow> (if b then ''True'' else ''False'') | _ \<Rightarrow> enc v)"

subsection \<open>The encoding is injective\<close>

lemma digit_inject: "0 \<le> d \<Longrightarrow> d < 10 \<Longrightarrow> 0 \<le> e \<Longrightarrow> e < 10 \<Longrightarrow> digit d = digit e \<longleftrightarrow> d = e"
proof -
  assume a: "0 \<le> d" "d < 10" "0 \<le> e" "e < 10"
  have "of_char (digit d) = 48 + d" "of_char (digit e) = 48 + e"
    using a by (simp_all add: digit_def)
  then show ?thesis by (metis add_left_cancel)
qed

lemma of_char_digit: "0 \<le> d \<Longrightarrow> d < 10 \<Longrightarrow> (of_char (digit d) :: int) = 48 + d"
  by (simp add: digit_def)

lemma dec_pos_chars: "0 \<le> n \<Longrightarrow> c \<in> set (dec_pos n) \<Longrightarrow> 48 \<le> (of_char c :: int) \<and> (of_char c :: int) \<le> 57"
proof (induction n rule: dec_pos.induct)
  case (1 n)
  show ?case
  proof (cases "n < 10")
    case True
    with 1 show ?thesis by (simp add: dec_pos.simps [of n] of_char_digit)
  next
    case False
    then have "c \<in> set (dec_pos (n div 10)) \<or> c = digit (n mod 10)"
      using 1(3) by (subst (asm) dec_pos.simps) auto
    with 1(1) [OF False] False show ?thesis by (auto simp: of_char_digit)
  qed
qed

lemma dec_pos_not_Nil [simp]: "dec_pos n \<noteq> []"
  by (simp add: dec_pos.simps [of n])

lemma dec_pos_inject: "0 \<le> n \<Longrightarrow> 0 \<le> m \<Longrightarrow> dec_pos n = dec_pos m \<Longrightarrow> n = m"
proof (induction n arbitrary: m rule: dec_pos.induct)
  case (1 n)
  show ?case
  proof (cases "n < 10")
    case True
    show ?thesis
    proof (cases "m < 10")
      case True
      then show ?thesis using 1 \<open>n < 10\<close> by (simp add: dec_pos.simps [of n] dec_pos.simps [of m] digit_inject)
    next
      case False
      then have "dec_pos (m div 10) = []"
        using 1 \<open>n < 10\<close> by (simp add: dec_pos.simps [of n] dec_pos.simps [of m])
      then show ?thesis by simp
    qed
  next
    case False
    show ?thesis
    proof (cases "m < 10")
      case True
      then have "dec_pos (n div 10) = []"
        using 1 False by (simp add: dec_pos.simps [of n] dec_pos.simps [of m])
      then show ?thesis by simp
    next
      case mF: False
      then have "dec_pos (n div 10) = dec_pos (m div 10)" "digit (n mod 10) = digit (m mod 10)"
        using 1 False by (simp_all add: dec_pos.simps [of n] dec_pos.simps [of m])
      then have "n div 10 = m div 10" "n mod 10 = m mod 10"
        using 1(1) [OF False] False mF by (simp_all add: digit_inject)
      then show ?thesis by (metis div_mult_mod_eq)
    qed
  qed
qed

lemma dec_inject: "dec n = dec m \<Longrightarrow> n = m"
proof -
  have neg: False if "CHR ''-'' # xs = dec_pos k" "0 \<le> k" for xs k
    using dec_pos_chars [OF that(2), of "CHR ''-''"] that(1) [symmetric] by auto
  assume "dec n = dec m"
  then show ?thesis
    using dec_pos_inject [of n m] dec_pos_inject [of "- n" "- m"] neg [of "dec_pos (- n)" m] neg [of "dec_pos (- m)" n]
    by (auto simp: dec_def split: if_splits)
qed

definition num_char :: "char \<Rightarrow> bool" where
  "num_char c = (let n = of_char c :: int in n = 45 \<or> (48 \<le> n \<and> n \<le> 57))"

lemma dec_chars: "c \<in> set (dec n) \<Longrightarrow> num_char c"
  using dec_pos_chars [of n c] dec_pos_chars [of "- n" c]
  by (auto simp: dec_def num_char_def split: if_splits)

lemma dec_not_Nil [simp]: "dec n \<noteq> []"
  by (simp add: dec_def)

text \<open>Strings: one escaped character can be read back from the front.\<close>

definition hexval :: "char \<Rightarrow> int" where
  "hexval c = (let n = of_char c in if n < 58 then n - 48 else n - 87)"

lemma hexval_hex_digit: "0 \<le> d \<Longrightarrow> d < 16 \<Longrightarrow> hexval (hex_digit d) = d"
  by (auto simp: hexval_def hex_digit_def)

fun unesc :: "string \<Rightarrow> char \<times> string" where
  "unesc (a # b # r) =
     (if a \<noteq> CHR 0x5C then (a, b # r)
      else if b = CHR ''n'' then (CHR 0x0A, r)
      else if b = CHR ''r'' then (CHR 0x0D, r)
      else if b = CHR ''t'' then (CHR 0x09, r)
      else if b = CHR ''f'' then (CHR 0x0C, r)
      else if b = CHR ''b'' then (CHR 0x08, r)
      else if b = CHR ''u'' then (char_of (16 * hexval (r ! 2) + hexval (r ! 3)), drop 4 r)
      else (b, r))"
| "unesc [a] = (a, [])"
| "unesc [] = (CHR 0x00, [])"

lemma of_char_int_bounds: "0 \<le> (of_char c :: int)" "(of_char c :: int) < 256"
  using pos_mod_bound [of 256 "of_char c :: int"] pos_mod_sign [of 256 "of_char c :: int"]
  by (simp_all only: of_char_mod_256)

lemma of_char_int_eqD: "(of_char c :: int) = of_char d \<Longrightarrow> c = d"
  by simp

lemma unesc_esc: "unesc (esc_char c @ r) = (c, r)"
proof -
  let ?n = "of_char c :: int"
  note n = of_char_int_bounds [of c]
  consider "c \<in> {CHR 0x22, CHR 0x5C, CHR 0x0A, CHR 0x0D, CHR 0x09, CHR 0x0C, CHR 0x08}"
    | "?n \<notin> {34, 92, 10, 13, 9, 12, 8}" "32 \<le> ?n \<and> ?n \<le> 126"
    | "?n \<notin> {34, 92, 10, 13, 9, 12, 8}" "\<not> (32 \<le> ?n \<and> ?n \<le> 126)"
    using of_char_int_eqD [of c "CHR 0x22"] of_char_int_eqD [of c "CHR 0x5C"]
      of_char_int_eqD [of c "CHR 0x0A"] of_char_int_eqD [of c "CHR 0x0D"]
      of_char_int_eqD [of c "CHR 0x09"] of_char_int_eqD [of c "CHR 0x0C"]
      of_char_int_eqD [of c "CHR 0x08"] by fastforce
  then show ?thesis
  proof cases
    case 1 then show ?thesis by (elim insertE) (simp_all add: esc_char_def)
  next
    case 2
    then have "c \<noteq> CHR 0x5C" "esc_char c = [c]" by (auto simp: esc_char_def)
    then show ?thesis by (cases r) simp_all
  next
    case 3
    then have "esc_char c = [CHR 0x5C, CHR ''u'', CHR ''0'', CHR ''0'', hex_digit (?n div 16), hex_digit (?n mod 16)]"
      by (simp add: esc_char_def Let_def)
    moreover have "hexval (hex_digit (?n div 16)) = ?n div 16" "hexval (hex_digit (?n mod 16)) = ?n mod 16"
      using n by (intro hexval_hex_digit; simp)+
    moreover have "char_of (16 * (?n div 16) + ?n mod 16) = c"
      by (simp only: mult_div_mod_eq char_of_char)
    ultimately show ?thesis by simp
  qed
qed

lemma esc_char_quote: "esc_char c = x # xs \<Longrightarrow> x \<noteq> CHR 0x22"
proof -
  assume a: "esc_char c = x # xs"
  have "x = CHR 0x22 \<Longrightarrow> c = CHR 0x22"
    using a by (auto simp: esc_char_def Let_def split: if_splits)
  moreover have "hd (esc_char (CHR 0x22)) = CHR 0x5C" by (simp add: esc_char_def)
  ultimately show ?thesis using a by auto
qed

lemma esc_char_not_Nil [simp]: "esc_char c \<noteq> []"
  by (simp add: esc_char_def Let_def)

lemma esc_concat_inject:
  "concat (map esc_char s) @ CHR 0x22 # r = concat (map esc_char s') @ CHR 0x22 # r' \<Longrightarrow> s = s' \<and> r = r'"
proof (induction s arbitrary: s')
  case Nil
  then show ?case
  proof (cases s')
    case (Cons c cs)
    obtain x xs where "esc_char c = x # xs" by (meson esc_char_not_Nil list.exhaust)
    then show ?thesis using esc_char_quote [of c x xs] Nil Cons by auto
  qed simp
next
  case (Cons c cs)
  show ?case
  proof (cases s')
    case Nil
    obtain x xs where "esc_char c = x # xs" by (meson esc_char_not_Nil list.exhaust)
    then show ?thesis using esc_char_quote [of c x xs] Nil Cons by auto
  next
    case (Cons c' cs')
    let ?R = "concat (map esc_char cs) @ CHR 0x22 # r" and ?R' = "concat (map esc_char cs') @ CHR 0x22 # r'"
    have "esc_char c @ ?R = esc_char c' @ ?R'" using Cons Cons.prems by simp
    then have "unesc (esc_char c @ ?R) = unesc (esc_char c' @ ?R')" by (rule arg_cong)
    then have "(c, ?R) = (c', ?R')" by (simp only: unesc_esc)
    then show ?thesis using Cons Cons.IH [of cs'] by auto
  qed
qed

lemma json_str_inject: "json_str s @ r = json_str s' @ r' \<Longrightarrow> s = s' \<and> r = r'"
  using esc_concat_inject [of s r s' r'] by (simp add: json_str_def)

text \<open>A float's text is not the text of an integer and stays clear of the structural characters.\<close>

definition wf_float :: "string \<Rightarrow> bool" where
  "wf_float t \<longleftrightarrow> t \<noteq> [] \<and> (num_char (hd t) \<or> hd t = CHR ''N'' \<or> hd t = CHR ''I'')
     \<and> list_all (\<lambda>c. c \<notin> {CHR '','', CHR '']'', CHR ''}''}) t \<and> list_ex (\<lambda>c. \<not> num_char c) t"

fun wf_json :: "json \<Rightarrow> bool" where
  "wf_json (JFloat t) = wf_float t"
| "wf_json (JArr xs) = list_all wf_json xs"
| "wf_json (JObj kvs) = list_all (\<lambda>(k, v). wf_json v) kvs"
| "wf_json v = True"

definition stop :: "string \<Rightarrow> bool" where
  "stop r \<longleftrightarrow> (case r of [] \<Rightarrow> True | c # _ \<Rightarrow> c \<in> {CHR '','', CHR '']'', CHR ''}''})"

lemma stop_simps [simp]: "stop []" "stop (CHR '','' # r)" "stop (CHR '']'' # r)" "stop (CHR ''}'' # r)"
  by (simp_all add: stop_def)

lemma stop_append:
  assumes "\<forall>c\<in>set a. c \<notin> {CHR '','', CHR '']'', CHR ''}''}" "\<forall>c\<in>set b. c \<notin> {CHR '','', CHR '']'', CHR ''}''}"
    and "stop r" "stop r'" "a @ r = b @ r'"
  shows "a = b \<and> r = r'"
proof -
  let ?P = "\<lambda>c. c \<notin> {CHR '','', CHR '']'', CHR ''}''}"
  have t: "takeWhile ?P (x @ y) = x" if "\<forall>c\<in>set x. ?P c" "stop y" for x y
    using that by (cases y) (auto simp: stop_def takeWhile_append takeWhile_eq_all_conv)
  have "takeWhile ?P (a @ r) = a" "takeWhile ?P (b @ r') = b"
    using assms by (intro t; blast)+
  then show ?thesis using assms(5) by (metis same_append_eq)
qed

fun is_num :: "json \<Rightarrow> bool" where
  "is_num (JInt _) = True" | "is_num (JFloat _) = True" | "is_num _ = False"

lemma num_enc_chars:
  assumes "is_num v" "wf_json v"
  shows "\<forall>c\<in>set (enc v). c \<notin> {CHR '','', CHR '']'', CHR ''}''}" "enc v \<noteq> []"
    and "num_char (hd (enc v)) \<or> hd (enc v) = CHR ''N'' \<or> hd (enc v) = CHR ''I''"
proof -
  have nc: "num_char c \<Longrightarrow> c \<notin> {CHR '','', CHR '']'', CHR ''}''}" for c
    by (auto simp: num_char_def)
  have h: "num_char (hd (dec n))" for n using dec_chars [of "hd (dec n)" n] by simp
  show "\<forall>c\<in>set (enc v). c \<notin> {CHR '','', CHR '']'', CHR ''}''}" "enc v \<noteq> []"
    and "num_char (hd (enc v)) \<or> hd (enc v) = CHR ''N'' \<or> hd (enc v) = CHR ''I''"
    using assms nc h dec_chars
    by (cases v; force simp: wf_float_def list_all_iff)+
qed

lemma num_enc_inject:
  assumes "is_num v" "is_num w" "wf_json v" "wf_json w" "enc v = enc w"
  shows "v = w"
proof -
  have "dec n \<noteq> t" if "wf_float t" for n t
    using that dec_chars [of _ n] by (auto simp: wf_float_def list_ex_iff)
  then show ?thesis using assms dec_inject by (cases v; cases w) force+
qed


lemma join_inject:
  assumes inj: "\<And>x y r r'. x \<in> set xs \<Longrightarrow> y \<in> set ys \<Longrightarrow> stop r \<Longrightarrow> stop r' \<Longrightarrow> f x @ r = f y @ r' \<Longrightarrow> x = y \<and> r = r'"
    and hd: "\<And>x. x \<in> set xs \<union> set ys \<Longrightarrow> f x \<noteq> [] \<and> hd (f x) \<noteq> cl"
    and cl: "cl = CHR '']'' \<or> cl = CHR ''}''"
    and eq: "join '','' (map f xs) @ cl # r = join '','' (map f ys) @ cl # r'"
  shows "xs = ys \<and> r = r'"
  using inj hd eq
proof (induction xs arbitrary: ys)
  case Nil
  show ?case
  proof (cases ys)
    case (Cons y ys')
    then have "f y \<noteq> []" "hd (f y) \<noteq> cl" using Nil(2) by auto
    then show ?thesis using Nil(3) Cons by (cases ys'; cases "f y") auto
  qed (use Nil in simp)
next
  case (Cons x xs)
  show ?case
  proof (cases ys)
    case Nil
    have "f x \<noteq> []" "hd (f x) \<noteq> cl" using Cons.prems(2) by auto
    then show ?thesis using Cons.prems(3) Nil by (cases xs; cases "f x") auto
  next
    case (Cons y ys')
    let ?rest = "\<lambda>zs r. if zs = [] then cl # r else CHR '','' # join '','' (map f zs) @ cl # r"
    have j: "join '','' (map f (z # zs)) @ cl # q = f z @ ?rest zs q" for z zs q
      by (cases zs) auto
    have "stop (?rest zs q)" for zs q using cl by (auto)
    moreover have "f x @ ?rest xs r = f y @ ?rest ys' r'"
      using Cons.prems(3) unfolding Cons j .
    ultimately have xy: "x = y" "?rest xs r = ?rest ys' r'"
      using Cons.prems(1) [of x y "?rest xs r" "?rest ys' r'"] Cons by auto
    show ?thesis
    proof (cases "xs = []")
      case True
      then show ?thesis using xy cl Cons by (auto split: if_splits)
    next
      case False
      then have "ys' \<noteq> []" "join '','' (map f xs) @ cl # r = join '','' (map f ys') @ cl # r'"
        using xy(2) cl by (auto split: if_splits)
      moreover have "xs = ys' \<and> r = r'"
        using Cons.IH [of ys'] Cons.prems(1,2) Cons calculation(2) by auto
      ultimately show ?thesis using xy Cons by simp
    qed
  qed
qed

lemma enc_not_Nil [simp]: "wf_json v \<Longrightarrow> enc v \<noteq> []"
  by (cases v) (auto simp: wf_float_def json_str_def)

definition head_kind :: "json \<Rightarrow> char \<Rightarrow> bool" where
  "head_kind v c = (case v of JNull \<Rightarrow> c = CHR ''n'' | JBool b \<Rightarrow> c = (if b then CHR ''t'' else CHR ''f'')
     | JInt _ \<Rightarrow> num_char c | JFloat _ \<Rightarrow> num_char c \<or> c = CHR ''N'' \<or> c = CHR ''I''
     | JStr _ \<Rightarrow> c = CHR 0x22 | JArr _ \<Rightarrow> c = CHR ''['' | JObj _ \<Rightarrow> c = CHR ''{'')"

lemma head_kind_hd: "wf_json v \<Longrightarrow> head_kind v (hd (enc v))"
proof (cases v)
  case (JInt n)
  then show ?thesis using dec_chars [of "hd (dec n)" n] by (simp add: head_kind_def)
next
  case (JFloat t)
  assume "wf_json v"
  then show ?thesis using JFloat by (simp add: head_kind_def wf_float_def)
qed (auto simp: head_kind_def json_str_def)

lemma head_kind_clash:
  assumes "wf_json v" "wf_json w" "enc v @ r = enc w @ r'"
  shows "is_num v \<and> is_num w \<or> (\<exists>b. v = JBool b \<and> w = JBool b) \<or> v = JNull \<and> w = JNull
    \<or> (\<exists>s t. v = JStr s \<and> w = JStr t) \<or> (\<exists>s t. v = JArr s \<and> w = JArr t)
    \<or> (\<exists>s t. v = JObj s \<and> w = JObj t)"
proof -
  have "hd (enc v) = hd (enc w)"
    using assms by (metis enc_not_Nil hd_append2)
  then have "head_kind v (hd (enc v))" "head_kind w (hd (enc v))"
    using head_kind_hd assms by metis+
  then show ?thesis
    by (cases v; cases w) (auto simp: head_kind_def num_char_def split: if_splits)
qed

lemma num_case:
  assumes "is_num v" "wf_json v" "wf_json w" "stop r" "stop r'" "enc v @ r = enc w @ r'"
  shows "v = w \<and> r = r'"
proof -
  have w: "is_num w" using head_kind_clash [OF assms(2,3,6)] assms(1) by auto
  have "enc v = enc w \<and> r = r'"
    using stop_append [OF num_enc_chars(1) [OF assms(1,2)] num_enc_chars(1) [OF w assms(3)] assms(4-6)] .
  then show ?thesis using num_enc_inject assms w by blast
qed

theorem enc_inject:
  "wf_json v \<Longrightarrow> wf_json w \<Longrightarrow> stop r \<Longrightarrow> stop r' \<Longrightarrow> enc v @ r = enc w @ r' \<Longrightarrow> v = w \<and> r = r'"
proof (induction v arbitrary: w r r' rule: enc.induct)
  case (6 xs)
  then obtain ys where w: "w = JArr ys" using head_kind_clash [OF 6(2,3,6)] by auto
  have "xs = ys \<and> r = r'"
  proof (rule join_inject)
    show "join '','' (map enc xs) @ CHR '']'' # r = join '','' (map enc ys) @ CHR '']'' # r'"
      using 6(6) w by simp
  next
    fix x assume "x \<in> set xs \<union> set ys"
    then have "wf_json x" using 6(2,3) w by (auto simp: list_all_iff)
    then show "enc x \<noteq> [] \<and> hd (enc x) \<noteq> CHR '']''"
      using head_kind_hd [of x] enc_not_Nil [of x]
      by (auto simp: head_kind_def num_char_def split: json.splits if_splits)
  next
    fix x y q q' assume "x \<in> set xs" "y \<in> set ys" "stop q" "stop q'" "enc x @ q = enc y @ q'"
    then show "x = y \<and> q = q'" using 6(1) [of x y q q'] 6(2,3) w by (auto simp: list_all_iff)
  qed simp
  then show ?case using w by simp
next
  case (7 kvs)
  then obtain lvs where w: "w = JObj lvs" using head_kind_clash [OF 7(2,3,6)] by auto
  have "kvs = lvs \<and> r = r'"
  proof (rule join_inject)
    show "join '','' (map (\<lambda>(k, v). json_str k @ '':'' @ enc v) kvs) @ CHR ''}'' # r =
          join '','' (map (\<lambda>(k, v). json_str k @ '':'' @ enc v) lvs) @ CHR ''}'' # r'"
      using 7(6) w by simp
  next
    fix x show "(case x of (k, v) \<Rightarrow> json_str k @ '':'' @ enc v) \<noteq> [] \<and>
        hd (case x of (k, v) \<Rightarrow> json_str k @ '':'' @ enc v) \<noteq> CHR ''}''"
      by (cases x) (simp add: json_str_def)
  next
    fix x y q q' assume xy: "x \<in> set kvs" "y \<in> set lvs" "stop q" "stop q'"
      and e: "(case x of (k, v) \<Rightarrow> json_str k @ '':'' @ enc v) @ q = (case y of (k, v) \<Rightarrow> json_str k @ '':'' @ enc v) @ q'"
    obtain k a l b where x: "x = (k, a)" "y = (l, b)" by (cases x; cases y) auto
    have "k = l" "enc a @ q = enc b @ q'"
      using json_str_inject [of k "'':'' @ enc a @ q" l "'':'' @ enc b @ q'"] e x by auto
    then show "x = y \<and> q = q'"
      using 7(1) [of x k a b q q'] 7(2,3) xy x w by (auto simp: list_all_iff)
  qed simp
  then show ?case using w by simp
next
  case (1 w)
  then show ?case using head_kind_clash [of JNull w r r'] by auto
next
  case (2 b w)
  then show ?case using head_kind_clash [of "JBool b" w r r'] by auto
next
  case (3 n w)
  then show ?case using num_case [of "JInt n" w r r'] by simp
next
  case (4 t w)
  then show ?case using num_case [of "JFloat t" w r r'] by simp
next
  case (5 s w)
  then show ?case using head_kind_clash [of "JStr s" w r r'] json_str_inject [of s r _ r'] by auto
qed


subsection \<open>Canonical form\<close>

lemma wf_canon [simp]: "wf_json (canon v) = wf_json v"
  by (induction v rule: canon.induct) (auto simp: list_all_iff)

theorem json_dumps_sorted_inject:
  assumes "wf_json v" "wf_json w" "json_dumps_sorted v = json_dumps_sorted w"
  shows "canon v = canon w"
  using enc_inject [of "canon v" "canon w" "[]" "[]"] assms by (simp add: json_dumps_sorted_def)

lemma map_of_sort_key: "distinct (map fst kvs) \<Longrightarrow> map_of (sort_key fst kvs) k = map_of kvs k"
proof -
  assume d: "distinct (map fst kvs)"
  then have "distinct (map fst (sort_key fst kvs))"
    by (simp add: distinct_map) 
  then show ?thesis using d by (intro map_of_eqI [THEN fun_cong]) (auto intro: map_of_is_SomeI)
qed

lemma canon_obj_get:
  assumes "canon (JObj a) = canon (JObj b)" "distinct (map fst a)" "distinct (map fst b)"
  shows "map_option canon (dget a k) = map_option canon (dget b k)"
proof -
  let ?g = "map (\<lambda>(k, v). (k, canon v))"
  have m: "map_of (?g c) k = map_option canon (map_of c k)" for c
    by (induction c) auto
  have d: "distinct (map fst (?g c)) = distinct (map fst c)" for c :: "(string \<times> json) list"
    by (simp add: comp_def case_prod_beta)
  have s: "map_of (sort_key fst (?g c)) k = map_option canon (dget c k)" if "distinct (map fst c)" for c
    using that by (subst map_of_sort_key) (simp_all only: d m)
  have "sort_key fst (?g a) = sort_key fst (?g b)" using assms(1) by simp
  then show ?thesis using s [OF assms(2)] s [OF assms(3)] by simp
qed

text \<open>No encoded value contains a line break: one record is one line of a JSONL file.\<close>

definition printable :: "char \<Rightarrow> bool" where
  "printable x = (let n = of_char x :: int in 32 \<le> n \<and> n \<le> 126)"

lemma hex_digit_printable: "0 \<le> d \<Longrightarrow> d < 16 \<Longrightarrow> printable (hex_digit d)"
  by (auto simp: hex_digit_def printable_def Let_def)

lemma esc_char_printable: "list_all printable (esc_char c)"
proof -
  let ?n = "of_char c :: int"
  have "printable (hex_digit (?n div 16))" "printable (hex_digit (?n mod 16))"
    using of_char_int_bounds [of c] by (intro hex_digit_printable; simp)+
  moreover have "printable (CHR 0x5C)" "printable (CHR 0x22)" "printable (CHR ''n'')" "printable (CHR ''r'')"
    "printable (CHR ''t'')" "printable (CHR ''f'')" "printable (CHR ''b'')" "printable (CHR ''u'')" "printable (CHR ''0'')"
    by (simp_all add: printable_def)
  moreover have "32 \<le> ?n \<and> ?n \<le> 126 \<Longrightarrow> printable c" by (simp add: printable_def)
  ultimately show ?thesis unfolding esc_char_def Let_def by simp
qed

fun line_floats :: "json \<Rightarrow> bool" where
  "line_floats (JFloat t) = list_all printable t"
| "line_floats (JArr xs) = list_all line_floats xs"
| "line_floats (JObj kvs) = list_all (\<lambda>(k, v). line_floats v) kvs"
| "line_floats v = True"

lemma set_join: "set (join sep xs) \<subseteq> set sep \<union> (\<Union>x\<in>set xs. set x)"
  by (induction sep xs rule: join.induct) auto

lemma json_str_printable: "x \<in> set (json_str s) \<Longrightarrow> printable x"
  using esc_char_printable by (auto simp: json_str_def list_all_iff printable_def)

lemma enc_printable:
  "line_floats v \<Longrightarrow> x \<in> set (enc v) \<Longrightarrow> printable x"
proof (induction v arbitrary: x rule: enc.induct)
  case (3 n)
  then show ?case using dec_chars [of x n] by (auto simp: num_char_def printable_def Let_def)
next
  case (6 xs)
  then show ?case using set_join [of "'','' " "map enc xs"] set_join [of "'',''" "map enc xs"]
    by (fastforce simp: list_all_iff printable_def)
next
  case (7 kvs)
  let ?f = "\<lambda>(k, v). json_str k @ '':'' @ enc v"
  have "x \<in> {CHR ''{'', CHR ''}'', CHR '',''} \<or> (\<exists>p\<in>set kvs. x \<in> set (?f p))"
    using 7(3) set_join [of "'',''" "map ?f kvs"] by auto
  then show ?case using 7(1,2) json_str_printable by (fastforce simp: list_all_iff printable_def)
qed (auto simp: list_all_iff printable_def dest: json_str_printable split: if_splits)

end
