(* ===== verification/Redact.thy ===== *)
theory Redact
  imports Json
begin

text \<open>
  \<open>redsim/audit/redact.py\<close>: the redaction every audit writer applies to an event's detail.
  The thirteen token signatures are compiled to a small language of greedy bounded
  repetitions and look-around assertions, matched with backtracking from left to right as
  \<open>re.sub\<close> does; sensitive keys and header names are the source's lists.
\<close>

subsection \<open>The patterns\<close>

datatype rtok =
    Rep "char \<Rightarrow> bool" nat "nat option"   \<comment> \<open>\<open>[class]{min,max}\<close>, greedy\<close>
  | WordB                                          \<comment> \<open>\<open>\b\<close>\<close>
  | NotBehind "char \<Rightarrow> bool"               \<comment> \<open>\<open>(?<![class])\<close>\<close>
  | NotAhead "char \<Rightarrow> bool"                \<comment> \<open>\<open>(?![class])\<close>\<close>

definition char_in :: "char \<Rightarrow> char \<Rightarrow> char \<Rightarrow> bool" where
  "char_in lo hi c \<longleftrightarrow> (of_char lo :: int) \<le> of_char c \<and> (of_char c :: int) \<le> of_char hi"

definition c_upper :: "char \<Rightarrow> bool" where "c_upper = char_in CHR ''A'' CHR ''Z''"
definition c_lower :: "char \<Rightarrow> bool" where "c_lower = char_in CHR ''a'' CHR ''z''"
definition c_digit :: "char \<Rightarrow> bool" where "c_digit = char_in CHR ''0'' CHR ''9''"
definition c_alnum :: "char \<Rightarrow> bool" where "c_alnum c \<longleftrightarrow> c_upper c \<or> c_lower c \<or> c_digit c"

text \<open>\<open>\w\<close> of a \<open>str\<close> pattern, on code points below 256: the Latin-1 letters and digits too.\<close>

definition c_word :: "char \<Rightarrow> bool" where
  "c_word c \<longleftrightarrow> c_alnum c \<or> c = CHR ''_'' \<or>
     (let n = of_char c :: int in n \<in> {170, 178, 179, 181, 185, 186, 188, 189, 190}
        \<or> (192 \<le> n \<and> n \<noteq> 215 \<and> n \<noteq> 247))"

definition c_b64 :: "char \<Rightarrow> bool" where
  "c_b64 c \<longleftrightarrow> c_alnum c \<or> c = CHR ''_'' \<or> c = CHR ''-''"

text \<open>\<open>\s\<close> of a \<open>str\<close> pattern is \<open>str.isspace\<close>.\<close>

definition c_space :: "char \<Rightarrow> bool" where
  "c_space c \<longleftrightarrow> is_space c \<or> (of_char c :: int) = 133 \<or> (of_char c :: int) = 160"

definition lit :: "string \<Rightarrow> rtok list" where
  "lit s = map (\<lambda>a. Rep (\<lambda>c. c = a) 1 (Some 1)) s"

text \<open>A literal under \<open>(?i)\<close>: either case (the long s and the Kelvin sign are above 255).\<close>

definition lit_ci :: "string \<Rightarrow> rtok list" where
  "lit_ci s = map (\<lambda>a. Rep (\<lambda>c. lower_char c = lower_char a) 1 (Some 1)) s"

definition up_num :: "char \<Rightarrow> bool" where "up_num c \<longleftrightarrow> c_upper c \<or> c_digit c"
definition alnum_dash :: "char \<Rightarrow> bool" where "alnum_dash c \<longleftrightarrow> c_alnum c \<or> c = CHR ''-''"
definition is_quote :: "char \<Rightarrow> bool" where "is_quote c \<longleftrightarrow> c = CHR 0x22 \<or> c = CHR 0x27"

definition bounded :: "rtok list \<Rightarrow> rtok list" where
  "bounded p = WordB # p @ [WordB]"

definition token_patterns :: "rtok list list" where
  "token_patterns = [
     bounded (lit ''AKIA'' @ [Rep up_num 16 (Some 16)]),
     bounded (lit ''ASIA'' @ [Rep up_num 16 (Some 16)]),
     bounded (lit ''ghp_'' @ [Rep c_alnum 36 (Some 36)]),
     bounded (lit ''gho_'' @ [Rep c_alnum 36 (Some 36)]),
     bounded (lit ''ghu_'' @ [Rep c_alnum 36 (Some 36)]),
     bounded (lit ''ghs_'' @ [Rep c_alnum 36 (Some 36)]),
     bounded (lit ''ghr_'' @ [Rep c_alnum 76 (Some 76)]),
     bounded (lit ''xox'' @ [Rep (\<lambda>c. c \<in> set ''abprs'') 1 (Some 1)] @ lit ''-'' @ [Rep alnum_dash 10 None]),
     bounded (lit ''sk-'' @ [Rep c_alnum 32 None]),
     bounded (lit ''pk_'' @ [Rep c_b64 8 None]),
     bounded (lit ''KGAT_'' @ [Rep c_b64 8 None]),
     [WordB] @ lit_ci ''kaggle_key'' @ [WordB, Rep is_quote 0 (Some 1), Rep c_space 0 None,
        Rep (\<lambda>c. c = CHR ''='' \<or> c = CHR '':'') 1 (Some 1), Rep c_space 0 None,
        Rep is_quote 0 (Some 1), Rep c_alnum 16 None, Rep is_quote 0 (Some 1)],
     [NotBehind c_b64] @ lit ''eyJ'' @ [Rep c_b64 10 None] @ lit ''.'' @ [Rep c_b64 10 None]
       @ lit ''.'' @ [Rep c_b64 10 None, NotAhead c_b64]]"

subsection \<open>Matching\<close>

definition at_word :: "char option \<Rightarrow> bool" where
  "at_word c = (case c of None \<Rightarrow> False | Some x \<Rightarrow> c_word x)"

definition first :: "string \<Rightarrow> char option" where
  "first s = (case s of [] \<Rightarrow> None | c # _ \<Rightarrow> Some c)"

text \<open>The longest run of the class, capped by the maximum.\<close>

definition run_length :: "(char \<Rightarrow> bool) \<Rightarrow> nat option \<Rightarrow> string \<Rightarrow> nat" where
  "run_length C mx s = (let n = length (takeWhile C s) in case mx of None \<Rightarrow> n | Some m \<Rightarrow> min m n)"

text \<open>Backtracking: the repetition counts \<open>k, k - 1, ..., mn\<close> in turn.\<close>

fun try_down :: "(nat \<Rightarrow> nat option) \<Rightarrow> nat \<Rightarrow> nat \<Rightarrow> nat option" where
  "try_down f mn 0 = (if mn = 0 then f 0 else None)"
| "try_down f mn (Suc k) =
     (if Suc k < mn then None else case f (Suc k) of Some n \<Rightarrow> Some n | None \<Rightarrow> try_down f mn k)"

definition last_of :: "char option \<Rightarrow> string \<Rightarrow> char option" where
  "last_of p s = (if s = [] then p else Some (last s))"

text \<open>\<open>rmatch p prev s\<close>: the length of the match of \<open>p\<close> at the front of \<open>s\<close>, \<open>prev\<close> the
  character before it.\<close>

primrec rmatch :: "rtok list \<Rightarrow> char option \<Rightarrow> string \<Rightarrow> nat option" where
  "rmatch [] prev s = Some 0"
| "rmatch (t # ts) prev s = (case t of
      Rep C mn mx \<Rightarrow>
        try_down (\<lambda>k. map_option ((+) k) (rmatch ts (last_of prev (take k s)) (drop k s)))
          mn (run_length C mx s)
    | WordB \<Rightarrow> if at_word prev \<noteq> at_word (first s) then rmatch ts prev s else None
    | NotBehind C \<Rightarrow> (case prev of Some c \<Rightarrow> if C c then None else rmatch ts prev s | None \<Rightarrow> rmatch ts prev s)
    | NotAhead C \<Rightarrow> (case s of c # _ \<Rightarrow> if C c then None else rmatch ts prev s | [] \<Rightarrow> rmatch ts prev s))"

definition redacted :: string where "redacted = ''<REDACTED>''"

text \<open>\<open>pat.sub("<REDACTED>", s)\<close>: no pattern matches the empty string.\<close>

function rsub :: "rtok list \<Rightarrow> char option \<Rightarrow> string \<Rightarrow> string" where
  "rsub p prev [] = []"
| "rsub p prev (c # s) = (case rmatch p prev (c # s) of
      Some (Suc n) \<Rightarrow> redacted @ rsub p (Some (last (take (Suc n) (c # s)))) (drop n s)
    | _ \<Rightarrow> c # rsub p (Some c) s)"
  by pat_completeness auto
termination by (relation "measure (\<lambda>(p, prev, s). length s)") auto

definition redact_str :: "string \<Rightarrow> string" where
  "redact_str s = fold (\<lambda>p out. rsub p None out) token_patterns s"

subsection \<open>Keys and headers\<close>

definition sensitive_keys :: "string list" where
  "sensitive_keys = [''password'', ''passwd'', ''secret'', ''token'', ''api_key'', ''apikey'',
     ''private_key'', ''session'', ''session_token'', ''authorization'', ''auth'', ''cookie'',
     ''set-cookie'', ''proxy-authorization'', ''kaggle_key'', ''foundry_token'', ''x_foundry_token'']"

definition sensitive_headers :: "string list" where
  "sensitive_headers = [''authorization'', ''cookie'', ''set-cookie'', ''proxy-authorization'',
     ''x-api-key'', ''x-foundry-token'']"

text \<open>\<open>str.lower\<close> on code points below 256.\<close>

definition lower1_char :: "char \<Rightarrow> char" where
  "lower1_char c = (let n = of_char c :: int in
     if (65 \<le> n \<and> n \<le> 90) \<or> (192 \<le> n \<and> n \<le> 222 \<and> n \<noteq> 215) then char_of (n + 32) else c)"

definition is_sensitive_key :: "string \<Rightarrow> bool" where
  "is_sensitive_key key =
     (let k = map (\<lambda>c. if c = CHR ''-'' then CHR ''_'' else c) (map lower1_char key) in
      k \<in> set sensitive_keys \<or>
      list_ex (\<lambda>s. contains_sub s k) [''token'', ''secret'', ''password'', ''api_key'', ''apikey''])"

definition redact_headers :: "jdict \<Rightarrow> jdict" where
  "redact_headers hs = map (\<lambda>(k, v).
     (k, if map lower1_char k \<in> set sensitive_headers then JStr redacted else v)) hs"

definition is_headers_key :: "string \<Rightarrow> bool" where
  "is_headers_key k = (map lower1_char k = ''headers'')"

fun redact_audit_detail :: "json \<Rightarrow> json" where
  "redact_audit_detail (JObj kvs) = JObj (map (\<lambda>(k, v).
     (k, if is_sensitive_key k then JStr redacted
         else (case v of
             JObj hs \<Rightarrow> if is_headers_key k then JObj (redact_headers hs)
                        else redact_audit_detail v
           | _ \<Rightarrow> redact_audit_detail v))) kvs)"
| "redact_audit_detail (JArr xs) = JArr (map redact_audit_detail xs)"
| "redact_audit_detail (JStr s) = JStr (redact_str s)"
| "redact_audit_detail v = v"


subsection \<open>What the redaction guarantees\<close>

text \<open>The specification: no sensitive key carries anything but the marker, at any depth; inside
  a \<open>headers\<close> dictionary the listed header names do not.\<close>

definition headers_ok :: "jdict \<Rightarrow> bool" where
  "headers_ok hs = list_all (\<lambda>(h, w). map lower1_char h \<in> set sensitive_headers \<longrightarrow> w = JStr redacted) hs"

fun no_secret :: "json \<Rightarrow> bool" where
  "no_secret (JObj kvs) = list_all (\<lambda>(k, v).
     if is_sensitive_key k then v = JStr redacted
     else (case v of
         JObj hs \<Rightarrow> if is_headers_key k then headers_ok hs else no_secret v
       | _ \<Rightarrow> no_secret v)) kvs"
| "no_secret (JArr xs) = list_all no_secret xs"
| "no_secret v = True"

lemma redact_headers_ok [simp]: "headers_ok (redact_headers hs)"
  by (auto simp: redact_headers_def headers_ok_def list_all_iff)

text \<open>One item of a dictionary, as the loop body treats it.\<close>

definition redact_item :: "string \<times> json \<Rightarrow> string \<times> json" where
  "redact_item kv = (case kv of (k, v) \<Rightarrow>
     (k, if is_sensitive_key k then JStr redacted
         else (case v of
             JObj hs \<Rightarrow> if is_headers_key k then JObj (redact_headers hs) else redact_audit_detail v
           | _ \<Rightarrow> redact_audit_detail v)))"

lemma redact_obj: "redact_audit_detail (JObj kvs) = JObj (map redact_item kvs)"
  unfolding redact_audit_detail.simps redact_item_def by (rule arg_cong [where f = JObj]) (rule refl)

lemma redact_obj_keys: "map fst (map redact_item kvs) = map fst kvs"
  by (auto simp: redact_item_def)

lemma redact_obj_JObj: "redact_audit_detail v = JObj l \<Longrightarrow> \<exists>l'. v = JObj l'"
  by (cases v) (simp_all del: redact_audit_detail.simps(1))

definition item_ok :: "string \<times> json \<Rightarrow> bool" where
  "item_ok kv = (case kv of (k, v) \<Rightarrow>
     if is_sensitive_key k then v = JStr redacted
     else (case v of
         JObj hs \<Rightarrow> if is_headers_key k then headers_ok hs else no_secret v
       | _ \<Rightarrow> no_secret v))"

lemma no_secret_obj: "no_secret (JObj kvs) = list_all item_ok kvs"
  unfolding no_secret.simps item_ok_def ..

lemma redact_item_ok:
  assumes "no_secret (redact_audit_detail v)"
  shows "item_ok (redact_item (k, v))"
proof (cases v)
  case (JObj hs)
  obtain l where l: "redact_audit_detail (JObj hs) = JObj l" using redact_obj by blast
  have "headers_ok l" if "is_headers_key k" "\<not> is_headers_key k" using that by simp
  then show ?thesis
    using assms l unfolding JObj redact_item_def item_ok_def
    by (simp del: redact_audit_detail.simps no_secret.simps split: if_split)
qed (use assms in \<open>simp_all add: redact_item_def item_ok_def\<close>)

lemma no_secret_redact: "no_secret (redact_audit_detail v)"
proof (induction v rule: measure_induct_rule [of size])
  case (less v)
  show ?case
  proof (cases v)
    case (JObj kvs)
    have "no_secret (redact_audit_detail w)" if "(k, w) \<in> set kvs" for k w
    proof (rule less)
      have "size_prod (\<lambda>_. 0) size (k, w) \<le> size_list (size_prod (\<lambda>_. 0) size) kvs"
        using that by (rule size_list_estimation') simp
      then show "size w < size v" using JObj by simp
    qed
    then show ?thesis
      unfolding JObj redact_obj no_secret_obj by (auto simp: list_all_iff intro: redact_item_ok)
  next
    case (JArr xs)
    have "no_secret (redact_audit_detail w)" if "w \<in> set xs" for w
      using less [of w] that JArr by (simp add: size_list_estimation' less_Suc_eq_le)
    then show ?thesis using JArr by (auto simp: list_all_iff)
  qed simp_all
qed

end
