(* ===== verification/Sha256.thy ===== *)
theory Sha256
  imports Json "HOL-Library.Word"
begin

text \<open>
  \<open>hashlib.sha256(data).hexdigest()\<close> (FIPS 180-4) on byte strings, a byte being a character,
  and \<open>bytes.fromhex\<close>. All word arithmetic is on 32 bits with wrap-around. The lemmas give
  what the clients use: a digest is 64 lower-case hexadecimal digits, it reads back as 32 bytes.
\<close>

unbundle bit_operations_syntax

type_synonym w32 = "32 word"

text \<open>The round constants are the first 32 fractional bits of the cube roots of the first 64
  primes, the initial state those of the square roots of the first 8.\<close>

definition small_prime :: "int \<Rightarrow> bool" where
  "small_prime p \<longleftrightarrow> 1 < p \<and> list_all (\<lambda>d. p mod d \<noteq> 0) [2..min (p - 1) 17]"

definition primes64 :: "int list" where
  "primes64 = filter small_prime [2..311]"

text \<open>The integer \<open>k\<close>-th root below \<open>2 ^ b\<close>, bit by bit.\<close>

fun iroot :: "nat \<Rightarrow> nat \<Rightarrow> int \<Rightarrow> int \<Rightarrow> int" where
  "iroot k 0 acc n = acc"
| "iroot k (Suc b) acc n = iroot k b (if (acc + 2 ^ b) ^ k \<le> n then acc + 2 ^ b else acc) n"

definition k256 :: "w32 list" where
  "k256 = map (\<lambda>p. word_of_int (iroot 3 36 0 (p * 2 ^ 96))) primes64"

definition h256 :: "w32 list" where
  "h256 = map (\<lambda>p. word_of_int (iroot 2 37 0 (p * 2 ^ 64))) (take 8 primes64)"

definition rotr :: "nat \<Rightarrow> w32 \<Rightarrow> w32" where
  "rotr n x = (drop_bit n x) OR (push_bit (32 - n) x)"

definition ch32 :: "w32 \<Rightarrow> w32 \<Rightarrow> w32 \<Rightarrow> w32" where
  "ch32 x y z = (x AND y) XOR (NOT x AND z)"

definition maj32 :: "w32 \<Rightarrow> w32 \<Rightarrow> w32 \<Rightarrow> w32" where
  "maj32 x y z = (x AND y) XOR (x AND z) XOR (y AND z)"

definition bsig0 :: "w32 \<Rightarrow> w32" where "bsig0 x = rotr 2 x XOR rotr 13 x XOR rotr 22 x"
definition bsig1 :: "w32 \<Rightarrow> w32" where "bsig1 x = rotr 6 x XOR rotr 11 x XOR rotr 25 x"
definition ssig0 :: "w32 \<Rightarrow> w32" where "ssig0 x = rotr 7 x XOR rotr 18 x XOR drop_bit 3 x"
definition ssig1 :: "w32 \<Rightarrow> w32" where "ssig1 x = rotr 17 x XOR rotr 19 x XOR drop_bit 10 x"

text \<open>Padding: the bit 1, zeros, the length in bits on 64 bits.\<close>

definition byte :: "int \<Rightarrow> char" where
  "byte n = char_of n"

definition pad_zeros :: "nat \<Rightarrow> nat" where
  "pad_zeros l = (119 - l mod 64) mod 64"

definition be_bytes :: "nat \<Rightarrow> int \<Rightarrow> char list" where
  "be_bytes k n = map (\<lambda>i. byte (n div 256 ^ i mod 256)) (rev [0..<k])"

definition pad256 :: "char list \<Rightarrow> char list" where
  "pad256 m = m @ [CHR 0x80] @ replicate (pad_zeros (length m)) (CHR 0x00) @ be_bytes 8 (8 * int (length m))"

fun words_of :: "char list \<Rightarrow> w32 list" where
  "words_of (a # b # c # d # r) =
     word_of_int (((of_char a * 256 + of_char b) * 256 + of_char c) * 256 + of_char d) # words_of r"
| "words_of _ = []"

text \<open>The message schedule, newest word first.\<close>

fun schedule :: "nat \<Rightarrow> w32 list \<Rightarrow> w32 list" where
  "schedule 0 ws = rev ws"
| "schedule (Suc n) ws =
     schedule n ((ssig1 (ws ! 1) + ws ! 6 + ssig0 (ws ! 14) + ws ! 15) # ws)"

type_synonym regs = "w32 \<times> w32 \<times> w32 \<times> w32 \<times> w32 \<times> w32 \<times> w32 \<times> w32"

definition round256 :: "w32 \<times> w32 \<Rightarrow> regs \<Rightarrow> regs" where
  "round256 kw r = (case kw of (k, w) \<Rightarrow> case r of (a, b, c, d, e, f, g, h) \<Rightarrow>
     let t1 = h + bsig1 e + ch32 e f g + k + w;
         t2 = bsig0 a + maj32 a b c
     in (t1 + t2, a, b, c, d + t1, e, f, g))"

definition compress256 :: "regs \<Rightarrow> w32 list \<Rightarrow> regs" where
  "compress256 h ws = (case h of (a, b, c, d, e, f, g, i) \<Rightarrow>
     case fold round256 (zip k256 (schedule 48 (rev ws))) h of (a', b', c', d', e', f', g', i') \<Rightarrow>
       (a + a', b + b', c + c', d + d', e + e', f + f', g + g', i + i'))"

function blocks256 :: "regs \<Rightarrow> w32 list \<Rightarrow> regs" where
  "blocks256 h ws = (if length ws < 16 then h else blocks256 (compress256 h (take 16 ws)) (drop 16 ws))"
  by auto
termination by (relation "measure (\<lambda>(h, ws). length ws)") auto

declare blocks256.simps [simp del]

definition init256 :: regs where
  "init256 = (h256 ! 0, h256 ! 1, h256 ! 2, h256 ! 3, h256 ! 4, h256 ! 5, h256 ! 6, h256 ! 7)"

definition hex_word :: "w32 \<Rightarrow> string" where
  "hex_word w = map (\<lambda>i. hex_digit (uint w div 16 ^ i mod 16)) (rev [0..<8])"

definition sha256 :: "char list \<Rightarrow> string" where
  "sha256 m = (case blocks256 init256 (words_of (pad256 m)) of (a, b, c, d, e, f, g, h) \<Rightarrow>
     hex_word a @ hex_word b @ hex_word c @ hex_word d @ hex_word e @ hex_word f @ hex_word g @ hex_word h)"

subsection \<open>\<open>bytes.fromhex\<close>\<close>

definition hex_val :: "char \<Rightarrow> int option" where
  "hex_val c = (let n = of_char c :: int in
     if 48 \<le> n \<and> n \<le> 57 then Some (n - 48)
     else if 97 \<le> n \<and> n \<le> 102 then Some (n - 87)
     else if 65 \<le> n \<and> n \<le> 70 then Some (n - 55) else None)"

text \<open>White space is allowed between bytes; \<open>None\<close> is the \<open>ValueError\<close>.\<close>

fun from_hex :: "string \<Rightarrow> char list option" where
  "from_hex [] = Some []"
| "from_hex (a # r) =
     (if a \<in> {CHR '' '', CHR 0x09, CHR 0x0A, CHR 0x0B, CHR 0x0C, CHR 0x0D} then from_hex r
      else case r of [] \<Rightarrow> None | b # r' \<Rightarrow>
        (case (hex_val a, hex_val b) of
           (Some x, Some y) \<Rightarrow> map_option ((#) (byte (16 * x + y))) (from_hex r')
         | _ \<Rightarrow> None))"

definition to_hex :: "char list \<Rightarrow> string" where
  "to_hex bs = concat (map (\<lambda>b. [hex_digit (of_char b div 16), hex_digit (of_char b mod 16)]) bs)"

definition hex_chars :: "string \<Rightarrow> bool" where
  "hex_chars s = list_all (\<lambda>c. \<exists>d\<in>{0..15}. c = hex_digit d) s"

lemma length_sha256 [simp]: "length (sha256 m) = 64"
  by (simp add: sha256_def hex_word_def split: prod.split)

lemma hex_word_chars: "hex_chars (hex_word w)"
  by (auto simp: hex_word_def hex_chars_def list_all_iff)

lemma sha256_chars [simp]: "hex_chars (sha256 m)"
  using hex_word_chars by (simp add: sha256_def hex_chars_def split: prod.split)

lemma sha256_not_Nil [simp]: "sha256 m \<noteq> []"
  using length_sha256 [of m] by (metis list.size(3) zero_neq_numeral)

lemma hex_val_hex_digit [simp]: "0 \<le> d \<Longrightarrow> d \<le> 15 \<Longrightarrow> hex_val (hex_digit d) = Some d"
  by (auto simp: hex_val_def hex_digit_def)

lemma hex_digit_not_space:
  "0 \<le> d \<Longrightarrow> d \<le> 15 \<Longrightarrow> hex_digit d \<notin> {CHR '' '', CHR 0x09, CHR 0x0A, CHR 0x0B, CHR 0x0C, CHR 0x0D}"
  using hex_digit_printable [of d] hex_val_hex_digit [of d] by (auto simp: printable_def hex_val_def)

lemma hex_split: "0 \<le> d \<Longrightarrow> d \<le> 15 \<Longrightarrow> 0 \<le> e \<Longrightarrow> e \<le> (15::int) \<Longrightarrow>
    (16 * d + e) div 16 = d \<and> (16 * d + e) mod 16 = e"
  by presburger

lemma nibble_bounds: "0 \<le> n \<Longrightarrow> n < (256::int) \<Longrightarrow> 0 \<le> n div 16 \<and> n div 16 \<le> 15 \<and> 0 \<le> n mod 16 \<and> n mod 16 \<le> 15"
  by presburger

lemma from_hex_digits:
  "even (length s) \<Longrightarrow> hex_chars s \<Longrightarrow> \<exists>b. from_hex s = Some b \<and> length b = length s div 2 \<and> to_hex b = s"
proof (induction s rule: induct_list012)
  case (3 x y zs)
  then obtain b where b: "from_hex zs = Some b" "length b = length zs div 2" "to_hex b = zs"
    by (auto simp: hex_chars_def)
  obtain d e where d: "x = hex_digit d" "0 \<le> d" "d \<le> 15" and e: "y = hex_digit e" "0 \<le> e" "e \<le> 15"
    using 3(4) by (auto simp: hex_chars_def)
  have n: "(of_char (byte (16 * d + e)) :: int) = 16 * d + e"
    using d e by (simp add: byte_def)
  have q: "(16 * d + e) div 16 = d" "(16 * d + e) mod 16 = e"
    using hex_split [OF d(2,3) e(2,3)] by auto
  show ?case using b d e hex_digit_not_space [of d] n q
    by (simp add: to_hex_def)
qed (simp_all add: to_hex_def)

lemma from_hex_sha256:
  "\<exists>b. from_hex (sha256 m) = Some b \<and> length b = 32 \<and> to_hex b = sha256 m"
  using from_hex_digits [of "sha256 m"] by simp

lemma to_hex_inject: "to_hex a = to_hex b \<Longrightarrow> a = b"
proof (induction a arbitrary: b)
  case Nil
  then show ?case by (cases b) (auto simp: to_hex_def)
next
  case (Cons x xs)
  then obtain y ys where b: "b = y # ys" by (cases b) (auto simp: to_hex_def)
  let ?v = "\<lambda>c. (of_char c :: int)"
  have bd: "0 \<le> ?v c div 16" "?v c div 16 \<le> 15" "0 \<le> ?v c mod 16" "?v c mod 16 \<le> 15" for c
    using nibble_bounds [OF of_char_int_bounds [of c]] by auto
  have "hex_digit (?v x div 16) = hex_digit (?v y div 16)" "hex_digit (?v x mod 16) = hex_digit (?v y mod 16)"
    using Cons.prems b by (simp_all add: to_hex_def)
  then have "?v x div 16 = ?v y div 16" "?v x mod 16 = ?v y mod 16"
    using bd by (metis hex_val_hex_digit option.inject)+
  then have "?v x = ?v y" by (metis mult_div_mod_eq)
  then have "x = y" by simp
  then show ?case using Cons b by (auto simp: to_hex_def)
qed

lemma from_hex_to_hex: "from_hex s = Some b \<Longrightarrow> from_hex t = Some b \<Longrightarrow> hex_chars s \<Longrightarrow> hex_chars t
    \<Longrightarrow> even (length s) \<Longrightarrow> even (length t) \<Longrightarrow> s = t"
  using from_hex_digits [of s] from_hex_digits [of t] by auto

end
