(* ===== verification/AuditChain.thy ===== *)
theory AuditChain
  imports Redact Sha256 "HOL-Library.Multiset"
begin

text \<open>
  \<open>redsim/audit/chain.py\<close>: the hash-chained audit log. The event record, its canonical bytes and
  hash, the three writers (JSONL files in both layouts, Postgres, in memory) with their state
  passed explicitly, the verifier, and the selection of a writer. The contract of the
  \<open>AuditWriter\<close> protocol is a locale, extended for the writers that hash their events; it is
  interpreted on all three writers. A chain is a list of records, a record the dictionary
  that was parsed from the line or built from the row.
\<close>

subsection \<open>Time stamps\<close>

text \<open>A \<open>datetime\<close>: the wall clock in microseconds from 1970-01-01T00:00:00 and the offset of
  its zone from UTC in microseconds, \<open>None\<close> for a naive one.\<close>

datatype datetime = DT (wall: int) (utc_offset: "int option")

definition civil_from_days :: "int \<Rightarrow> int \<times> int \<times> int" where
  "civil_from_days days =
     (let z = days + 719468;
          era = z div 146097;
          doe = z mod 146097;
          yoe = (doe - doe div 1460 + doe div 36524 - doe div 146096) div 365;
          doy = doe - (365 * yoe + yoe div 4 - yoe div 100);
          mp = (5 * doy + 2) div 153;
          d = doy - (153 * mp + 2) div 5 + 1;
          m = (if mp < 10 then mp + 3 else mp - 9)
      in (yoe + era * 400 + (if m \<le> 2 then 1 else 0), m, d))"

definition zpad :: "nat \<Rightarrow> int \<Rightarrow> string" where
  "zpad k n = (let s = dec n in replicate (k - length s) CHR ''0'' @ s)"

definition iso_utc :: "int \<Rightarrow> string" where
  "iso_utc us =
     (let day = us div 86400000000; t = us mod 86400000000;
          s = t div 1000000; f = t mod 1000000
      in case civil_from_days day of (y, m, d) \<Rightarrow>
        zpad 4 y @ ''-'' @ zpad 2 m @ ''-'' @ zpad 2 d @ ''T'' @
        zpad 2 (s div 3600) @ '':'' @ zpad 2 (s div 60 mod 60) @ '':'' @ zpad 2 (s mod 60) @
        (if f = 0 then [] else ''.'' @ zpad 6 f) @ ''+00:00'')"

definition canonical_ts :: "datetime \<Rightarrow> string" where
  "canonical_ts v = (case utc_offset v of
      None \<Rightarrow> iso_utc (wall v)
    | Some off \<Rightarrow> iso_utc (wall v - off))"

subsection \<open>Events and their hash\<close>

definition schema_version :: int where "schema_version = 1"

text \<open>The keyword arguments of \<open>append\<close>.\<close>

record audit_call =
  ac_action :: string
  ac_actor :: string
  ac_target :: "string option"
  ac_check :: string
  ac_override :: bool
  ac_success :: bool
  ac_detail :: jdict
  ac_run :: "string option"
  ac_project :: "string option"

definition chain_id_of :: "string option \<Rightarrow> string option \<Rightarrow> string" where
  "chain_id_of project_id run_id =
     (if truthy run_id then ''run:'' @ the run_id
      else if truthy project_id then ''project:'' @ the project_id
      else ''system'')"

abbreviation call_chain :: "audit_call \<Rightarrow> string" where
  "call_chain c \<equiv> chain_id_of (ac_project c) (ac_run c)"

text \<open>The dictionary \<open>record\<close> of the writers, before \<open>this_hash\<close> is added.\<close>

definition base_record :: "string \<Rightarrow> json \<Rightarrow> string \<Rightarrow> audit_call \<Rightarrow> jdict \<Rightarrow> json \<Rightarrow> jdict" where
  "base_record cid seq ts c detail prev =
     [(''chain_id'', JStr cid), (''seq'', seq), (''ts'', JStr ts),
      (''actor'', JStr (ac_actor c)), (''action'', JStr (ac_action c)),
      (''target'', jopt (ac_target c)), (''allowlist_check'', JStr (ac_check c)),
      (''override'', JBool (ac_override c)), (''success'', JBool (ac_success c)),
      (''detail'', JObj detail), (''schema_version'', JInt schema_version),
      (''prev_hash'', prev), (''run_id'', jopt (ac_run c)), (''project_id'', jopt (ac_project c))]"

definition canonical_json :: "jdict \<Rightarrow> char list" where
  "canonical_json rec = json_dumps_sorted (JObj (filter (\<lambda>(k, v). k \<noteq> ''this_hash'') rec))"

text \<open>\<open>None\<close> is the \<open>ValueError\<close> of \<open>bytes.fromhex\<close>.\<close>

definition compute_hash :: "string option \<Rightarrow> jdict \<Rightarrow> string option" where
  "compute_hash prev rec =
     (if truthy prev then map_option (\<lambda>b. sha256 (b @ canonical_json rec)) (from_hex (the prev))
      else Some (sha256 (canonical_json rec)))"

definition with_hash :: "jdict \<Rightarrow> string \<Rightarrow> jdict" where
  "with_hash rec h = dset ''this_hash'' (JStr h) rec"

text \<open>\<open>redact_audit_detail(detail or {})\<close> on a dictionary.\<close>

definition redact_detail :: "jdict \<Rightarrow> jdict" where
  "redact_detail d = (case redact_audit_detail (JObj d) of JObj d' \<Rightarrow> d' | _ \<Rightarrow> [])"

subsection \<open>Verification\<close>

datatype break_reason =
    SeqGap int json            \<comment> \<open>expected, got\<close>
  | PrevMismatch json "string option" json
  | UnknownSchema json json
  | HashMismatch json string json

record verification =
  vr_verified :: bool
  vr_count :: nat
  vr_broken_at :: json
  vr_reason :: "break_reason option"
  vr_chain :: json

text \<open>\<open>==\<close> of a parsed value with an integer; \<open>True\<close> equals 1.\<close>

definition eq_int :: "json \<Rightarrow> int \<Rightarrow> bool" where
  "eq_int j n = (case j of JInt m \<Rightarrow> m = n | JBool b \<Rightarrow> (if b then 1 else 0) = n | _ \<Rightarrow> False)"

datatype audit_error = AKeyError string | ATypeError | AValueError | AIntegrityError

fun verify_loop :: "string option \<Rightarrow> int \<Rightarrow> nat \<Rightarrow> json \<Rightarrow> jdict list \<Rightarrow> (audit_error, verification) result" where
  "verify_loop prev expected cnt cid [] =
     Inr \<lparr>vr_verified = True, vr_count = cnt, vr_broken_at = JNull, vr_reason = None, vr_chain = cid\<rparr>"
| "verify_loop prev expected cnt cid (rec # rest) =
     (let cnt = Suc cnt;
          cid = (if cid = JNull then jget rec ''chain_id'' else cid);
          seq = jget rec ''seq'';
          broken = (\<lambda>r. Inr \<lparr>vr_verified = False, vr_count = cnt, vr_broken_at = seq,
                             vr_reason = Some r, vr_chain = cid\<rparr>)
      in if \<not> eq_int seq expected then broken (SeqGap expected seq)
         else if jget rec ''prev_hash'' \<noteq> jopt prev
           then broken (PrevMismatch seq prev (jget rec ''prev_hash''))
         else if \<not> eq_int (jget rec ''schema_version'') schema_version
           then broken (UnknownSchema (jget rec ''schema_version'') seq)
         else (case compute_hash prev rec of
             None \<Rightarrow> Inl AValueError
           | Some h \<Rightarrow>
               if jget rec ''this_hash'' \<noteq> JStr h then broken (HashMismatch seq h (jget rec ''this_hash''))
               else verify_loop (Some h) (expected + 1) cnt cid rest))"

definition verify_chain :: "jdict list \<Rightarrow> (audit_error, verification) result" where
  "verify_chain events = verify_loop None 1 0 JNull events"

definition verify_ok :: "jdict list \<Rightarrow> bool" where
  "verify_ok rs = (case verify_chain rs of Inr v \<Rightarrow> vr_verified v | Inl _ \<Rightarrow> False)"

subsection \<open>The JSONL writer\<close>

text \<open>A file is the list of its records, one per line; \<open>jl_single\<close> is the file name of the
  single-file layout.\<close>

record jsonl =
  jl_files :: "(string, jdict list) dict"
  jl_single :: "string option"

definition replace_char :: "char \<Rightarrow> string \<Rightarrow> string \<Rightarrow> string" where
  "replace_char a b s = concat (map (\<lambda>c. if c = a then b else [c]) s)"

definition jl_path :: "jsonl \<Rightarrow> string \<Rightarrow> string" where
  "jl_path w cid = (case jl_single w of
      Some f \<Rightarrow> f
    | None \<Rightarrow> replace_char CHR ''/'' ''_'' (replace_char CHR '':'' ''__'' cid) @ ''.jsonl'')"

definition jl_foreign :: "jsonl \<Rightarrow> string \<Rightarrow> jdict \<Rightarrow> bool" where
  "jl_foreign w cid rec \<longleftrightarrow> jl_single w \<noteq> None \<and> jget rec ''chain_id'' \<noteq> JStr cid"

fun jl_last_loop :: "jsonl \<Rightarrow> string \<Rightarrow> json \<times> json \<Rightarrow> jdict list \<Rightarrow> (audit_error, json \<times> json) result" where
  "jl_last_loop w cid acc [] = Inr acc"
| "jl_last_loop w cid acc (rec # rest) =
     (if jl_foreign w cid rec then jl_last_loop w cid acc rest
      else case dget rec ''seq'' of
          None \<Rightarrow> Inl (AKeyError ''seq'')
        | Some s \<Rightarrow> (case dget rec ''this_hash'' of
            None \<Rightarrow> Inl (AKeyError ''this_hash'')
          | Some h \<Rightarrow> jl_last_loop w cid (s, h) rest))"

definition jl_last :: "jsonl \<Rightarrow> string \<Rightarrow> (audit_error, json \<times> json) result" where
  "jl_last w cid = (case dget (jl_files w) (jl_path w cid) of
      None \<Rightarrow> Inr (JInt 0, JNull)
    | Some rs \<Rightarrow> jl_last_loop w cid (JInt 0, JNull) rs)"

text \<open>\<open>prev_seq + 1\<close>.\<close>

definition succ_seq :: "json \<Rightarrow> (audit_error, json) result" where
  "succ_seq j = (case j of JInt n \<Rightarrow> Inr (JInt (n + 1))
     | JBool b \<Rightarrow> Inr (JInt (if b then 2 else 1)) | _ \<Rightarrow> Inl ATypeError)"

text \<open>The hash argument as \<open>compute_hash\<close> takes it: a falsy value counts as no hash,
  \<open>bytes.fromhex\<close> of a truthy value that is no string raises.\<close>

definition hash_arg :: "json \<Rightarrow> (audit_error, string option) result" where
  "hash_arg j = (case j of JStr s \<Rightarrow> Inr (Some s)
     | _ \<Rightarrow> if j \<in> {JNull, JBool False, JInt 0, JArr [], JObj []} then Inr None else Inl ATypeError)"

definition jl_append :: "audit_call \<Rightarrow> int \<Rightarrow> jsonl \<Rightarrow> (audit_error, jsonl \<times> jdict) result" where
  "jl_append c now w =
     (let cid = call_chain c; detail = redact_detail (ac_detail c) in
      rbind (jl_last w cid) (\<lambda>(prev_seq, prev_hash).
      rbind (succ_seq prev_seq) (\<lambda>seq.
      let rec = base_record cid seq (canonical_ts (DT now (Some 0))) c detail prev_hash in
      rbind (hash_arg prev_hash) (\<lambda>prev.
      (case compute_hash prev rec of
         None \<Rightarrow> Inl AValueError
       | Some h \<Rightarrow>
           let rec = with_hash rec h; path = jl_path w cid;
               old = dget_or [] (jl_files w) path
           in Inr (w\<lparr>jl_files := dset path (old @ [rec]) (jl_files w)\<rparr>, rec))))))"

definition jl_read :: "string \<Rightarrow> jsonl \<Rightarrow> jdict list" where
  "jl_read cid w = (case dget (jl_files w) (jl_path w cid) of
      None \<Rightarrow> []
    | Some rs \<Rightarrow> filter (\<lambda>rec. \<not> jl_foreign w cid rec) rs)"

text \<open>\<open>path.stem.replace("__", ":")\<close> on the files of the per-chain layout.\<close>

fun replace_dunder :: "string \<Rightarrow> string" where
  "replace_dunder (a # b # r) =
     (if a = CHR ''_'' \<and> b = CHR ''_'' then CHR '':'' # replace_dunder r
      else a # replace_dunder (b # r))"
| "replace_dunder s = s"

definition ends_with :: "string \<Rightarrow> string \<Rightarrow> bool" where
  "ends_with suf s = (suf = drop (length s - length suf) s)"

definition jl_chain_ids :: "jsonl \<Rightarrow> string list" where
  "jl_chain_ids w = (case jl_single w of
      Some f \<Rightarrow> dedup (concat (map (\<lambda>rec. case jget rec ''chain_id'' of
                   JStr s \<Rightarrow> if s = [] then [] else [s] | _ \<Rightarrow> []) (dget_or [] (jl_files w) f)))
    | None \<Rightarrow> map (\<lambda>p. replace_dunder (take (length p - 6) p))
                 (filter (ends_with ''.jsonl'') (map fst (jl_files w))))"

subsection \<open>The Postgres writer\<close>

record ae_row =
  ae_chain :: string
  ae_seq :: int
  ae_project :: "string option"
  ae_run :: "string option"
  ae_actor :: string
  ae_action :: string
  ae_target :: "string option"
  ae_check :: string
  ae_override :: bool
  ae_success :: bool
  ae_detail :: jdict
  ae_schema :: int
  ae_prev :: "char list option"
  ae_this :: "char list"
  ae_created :: datetime

record pg_audit =
  pg_heads :: "(string, int \<times> char list option) dict"
  pg_rows :: "ae_row list"

text \<open>\<open>h.hex() if h else None\<close>.\<close>

definition hex_or_none :: "char list option \<Rightarrow> string option" where
  "hex_or_none h = (if truthy h then Some (to_hex (the h)) else None)"

definition pg_append :: "audit_call \<Rightarrow> int \<Rightarrow> pg_audit \<Rightarrow> (audit_error, pg_audit \<times> jdict) result" where
  "pg_append c now w =
     (let cid = call_chain c;
          detail = redact_detail (ac_detail c);
          (head_seq, head_hash) = dget_or (0, None) (pg_heads w) cid;
          seq = head_seq + 1;
          prev = hex_or_none head_hash;
          ts = DT now (Some 0);
          rec = base_record cid (JInt seq) (canonical_ts ts) c detail (jopt prev)
      in case compute_hash prev rec of
           None \<Rightarrow> Inl AValueError
         | Some hx \<Rightarrow> (case from_hex hx of
             None \<Rightarrow> Inl AValueError
           | Some this \<Rightarrow>
               if list_ex (\<lambda>r. ae_chain r = cid \<and> (ae_seq r = seq \<or> ae_this r = this)) (pg_rows w)
               then Inl AIntegrityError
               else
                 let row = \<lparr>ae_chain = cid, ae_seq = seq, ae_project = ac_project c, ae_run = ac_run c,
                       ae_actor = ac_actor c, ae_action = ac_action c, ae_target = ac_target c,
                       ae_check = ac_check c, ae_override = ac_override c, ae_success = ac_success c,
                       ae_detail = detail, ae_schema = schema_version,
                       ae_prev = head_hash, ae_this = this, ae_created = ts\<rparr>
                 in Inr (\<lparr>pg_heads = dset cid (seq, Some this) (pg_heads w), pg_rows = pg_rows w @ [row]\<rparr>,
                         with_hash rec hx)))"

text \<open>How the database returns an instant: naive UTC (sqlite, zone \<open>None\<close>) or in the session
  zone.\<close>

definition db_datetime :: "int option \<Rightarrow> datetime \<Rightarrow> datetime" where
  "db_datetime zone v =
     (let utc = wall v - (case utc_offset v of None \<Rightarrow> 0 | Some off \<Rightarrow> off)
      in case zone of None \<Rightarrow> DT utc None | Some z \<Rightarrow> DT (utc + z) (Some z))"

definition pg_record :: "int option \<Rightarrow> ae_row \<Rightarrow> jdict" where
  "pg_record zone r =
     [(''chain_id'', JStr (ae_chain r)), (''seq'', JInt (ae_seq r)),
      (''ts'', JStr (canonical_ts (db_datetime zone (ae_created r)))),
      (''actor'', JStr (ae_actor r)), (''action'', JStr (ae_action r)),
      (''target'', jopt (ae_target r)), (''allowlist_check'', JStr (ae_check r)),
      (''override'', JBool (ae_override r)), (''success'', JBool (ae_success r)),
      (''detail'', JObj (ae_detail r)), (''schema_version'', JInt (ae_schema r)),
      (''prev_hash'', jopt (hex_or_none (ae_prev r))), (''this_hash'', JStr (to_hex (ae_this r))),
      (''run_id'', jopt (ae_run r)), (''project_id'', jopt (ae_project r))]"

definition pg_read :: "int option \<Rightarrow> string \<Rightarrow> pg_audit \<Rightarrow> jdict list" where
  "pg_read zone cid w = map (pg_record zone) (sort_key ae_seq (filter (\<lambda>r. ae_chain r = cid) (pg_rows w)))"

definition pg_chain_ids :: "pg_audit \<Rightarrow> string list" where
  "pg_chain_ids w = map fst (pg_heads w)"

subsection \<open>The in-memory writer\<close>

record mem_audit =
  mem_events :: "jdict list"
  mem_chains :: "(string, jdict list) dict"

definition mem_append :: "audit_call \<Rightarrow> int \<Rightarrow> mem_audit \<Rightarrow> (audit_error, mem_audit \<times> jdict) result" where
  "mem_append c now w =
     (let cid = call_chain c;
          old = dget_or [] (mem_chains w) cid;
          event = with_hash (base_record cid (JInt (int (length old) + 1))
                    (canonical_ts (DT now (Some 0))) c (ac_detail c) JNull) []
      in Inr (\<lparr>mem_events = mem_events w @ [event], mem_chains = dset cid (old @ [event]) (mem_chains w)\<rparr>, event))"

definition mem_read :: "string \<Rightarrow> mem_audit \<Rightarrow> jdict list" where
  "mem_read cid w = dget_or [] (mem_chains w) cid"

definition mem_chain_ids :: "mem_audit \<Rightarrow> string list" where
  "mem_chain_ids w = map fst (mem_chains w)"

subsection \<open>The selection of a writer\<close>

datatype writer_kind = WMemory | WPostgres string | WJsonl string

definition resolve_writer :: "(string, string) dict \<Rightarrow> string \<Rightarrow> writer_kind" where
  "resolve_writer env output_dir =
     (if dget env ''REDSIM_TEST_AUDIT'' = Some ''memory'' then WMemory
      else if truthy (dget env ''REDSIM_DB_URL'') then WPostgres (the (dget env ''REDSIM_DB_URL''))
      else WJsonl (output_dir @ ''/audit''))"

subsection \<open>Verified chains are hash-linked\<close>

text \<open>The specification of a chain: consecutive sequence numbers, each record naming its
  predecessor's hash, each hash the one of its record.\<close>

fun linked :: "string option \<Rightarrow> int \<Rightarrow> jdict list \<Rightarrow> bool" where
  "linked prev n [] = True"
| "linked prev n (r # rs) =
     (eq_int (jget r ''seq'') n \<and> jget r ''prev_hash'' = jopt prev \<and>
      eq_int (jget r ''schema_version'') schema_version \<and>
      (case compute_hash prev r of None \<Rightarrow> False
       | Some h \<Rightarrow> jget r ''this_hash'' = JStr h \<and> linked (Some h) (n + 1) rs))"

text \<open>A predecessor hash: none, or a digest.\<close>

definition digest_opt :: "string option \<Rightarrow> bool" where
  "digest_opt p = (case p of None \<Rightarrow> True | Some h \<Rightarrow> length h = 64 \<and> hex_chars h)"

lemma digest_opt_simps [simp]: "digest_opt None" "digest_opt (Some (sha256 m))"
  by (simp_all add: digest_opt_def)

lemma compute_hash_digest:
  assumes "digest_opt p" shows "\<exists>m. compute_hash p r = Some (sha256 m)"
proof (cases p)
  case None
  then show ?thesis by (auto simp: compute_hash_def)
next
  case (Some h)
  then have "length h = 64" "hex_chars h" using assms by (auto simp: digest_opt_def)
  then show ?thesis using Some from_hex_digits [of h] by (auto simp: compute_hash_def)
qed

lemma compute_hash_digest_opt: "digest_opt p \<Longrightarrow> compute_hash p r = Some h \<Longrightarrow> digest_opt (Some h)"
  using compute_hash_digest [of p r] by auto

lemma verify_loop_linked:
  "digest_opt prev \<Longrightarrow> \<exists>v. verify_loop prev n k cid rs = Inr v
     \<and> (vr_verified v \<longleftrightarrow> linked prev n rs) \<and> (vr_verified v \<longrightarrow> vr_count v = k + length rs)"
proof (induction rs arbitrary: prev n k cid)
  case (Cons r rs)
  obtain m where m: "compute_hash prev r = Some (sha256 m)" using compute_hash_digest Cons.prems by blast
  let ?cid = "if cid = JNull then jget r ''chain_id'' else cid"
  show ?case
    using Cons.IH [of "Some (sha256 m)" "n + 1" "Suc k" ?cid] m by (simp add: Let_def)
qed simp

lemma verify_chain_returns: "\<exists>v. verify_chain rs = Inr v \<and> (vr_verified v \<longleftrightarrow> linked None 1 rs)
    \<and> (vr_verified v \<longrightarrow> vr_count v = length rs)"
  using verify_loop_linked [of None 1 0 JNull rs] by (simp add: verify_chain_def)

lemma verify_ok_iff: "verify_ok rs \<longleftrightarrow> linked None 1 rs"
  using verify_chain_returns [of rs] by (auto simp: verify_ok_def)

definition end_hash :: "string option \<Rightarrow> jdict list \<Rightarrow> string option" where
  "end_hash prev rs = (if rs = [] then prev else case jget (last rs) ''this_hash'' of JStr h \<Rightarrow> Some h | _ \<Rightarrow> None)"

lemma end_hash_Nil [simp]: "end_hash p [] = p"
  by (simp add: end_hash_def)

lemma end_hash_Cons: "jget r ''this_hash'' = JStr h \<Longrightarrow> end_hash p (r # rs) = end_hash (Some h) rs"
  by (simp add: end_hash_def)

lemma linked_append:
  "linked p n (rs @ ss) \<longleftrightarrow> linked p n rs \<and> linked (end_hash p rs) (n + int (length rs)) ss"
proof (induction rs arbitrary: p n)
  case (Cons r rs)
  show ?case by (auto simp: Cons.IH end_hash_Cons algebra_simps split: option.splits)
qed simp

lemma linked_digest: "digest_opt p \<Longrightarrow> linked p n rs \<Longrightarrow> digest_opt (end_hash p rs)"
proof (induction rs arbitrary: p n)
  case (Cons r rs)
  then obtain h where "compute_hash p r = Some h" "jget r ''this_hash'' = JStr h" "linked (Some h) (n + 1) rs"
    by (auto split: option.splits)
  then show ?case using Cons compute_hash_digest_opt by (simp add: end_hash_Cons)
qed simp

lemma linked_take: "linked p n rs \<Longrightarrow> linked p n (take k rs)"
  using linked_append [of p n "take k rs" "drop k rs"] by simp

lemma linked_nth_seq: "linked p n rs \<Longrightarrow> i < length rs \<Longrightarrow> eq_int (jget (rs ! i) ''seq'') (n + int i)"
proof (induction rs arbitrary: p n i)
  case (Cons r rs)
  then show ?case by (cases i) (fastforce simp: algebra_simps split: option.splits)+
qed simp

text \<open>Only the fields count: two records with the same fields hash alike.\<close>

lemma sort_key_cong_map_of:
  assumes "distinct (map fst a)" "distinct (map fst b)" "map_of a = map_of b"
  shows "sort_key fst a = sort_key fst (b :: (string \<times> 'v) list)"
proof -
  have "set a = set b" using assms by (metis map_of_eq_Some_iff subsetI subset_antisym surj_pair)
  then have "mset a = mset b"
    using assms(1,2) by (metis distinct_map set_eq_iff_mset_eq_distinct)
  moreover have "inj_on fst (set a)" using assms(1) by (simp add: distinct_map)
  ultimately show ?thesis
    by (intro sort_key_inj_key_eq) simp_all
qed

lemma canonical_json_cong:
  assumes "distinct (map fst a)" "distinct (map fst b)" "map_of a = map_of b"
  shows "canonical_json a = canonical_json b"
proof -
  let ?f = "filter (\<lambda>(k, v). k \<noteq> ''this_hash'')" and ?g = "map (\<lambda>(k, v). (k, canon v))"
  have d: "distinct (map fst (?g (?f c)))" if "distinct (map fst c)" for c :: jdict
    using that by (simp add: comp_def case_prod_beta distinct_map_filter)
  have m: "map_of (?g (?f c)) k = (if k = ''this_hash'' then None else map_option canon (map_of c k))" for c :: jdict and k
    by (induction c) auto
  have "sort_key fst (?g (?f a)) = sort_key fst (?g (?f b))"
    using d assms by (intro sort_key_cong_map_of) (auto simp: m fun_eq_iff)
  then show ?thesis by (simp add: canonical_json_def json_dumps_sorted_def)
qed

lemma compute_hash_cong:
  "distinct (map fst a) \<Longrightarrow> distinct (map fst b) \<Longrightarrow> map_of a = map_of b \<Longrightarrow> compute_hash p a = compute_hash p b"
  using canonical_json_cong [of a b] by (simp add: compute_hash_def)

lemma canonical_json_with_hash [simp]: "canonical_json (with_hash r h) = canonical_json r"
proof -
  have "filter (\<lambda>(k, v). k \<noteq> ''this_hash'') (dset ''this_hash'' v r) = filter (\<lambda>(k, v). k \<noteq> ''this_hash'') r" for v
    by (induction r) auto
  then show ?thesis by (simp add: canonical_json_def with_hash_def)
qed

lemma compute_hash_with_hash [simp]: "compute_hash p (with_hash r h) = compute_hash p r"
  by (simp add: compute_hash_def)

lemma jget_with_hash [simp]: "jget (with_hash r h) k = (if k = ''this_hash'' then JStr h else jget r k)"
  by (simp add: with_hash_def jget_def)

lemma jget_base_record [simp]:
  "jget (base_record cid s ts c d p) ''chain_id'' = JStr cid"
  "jget (base_record cid s ts c d p) ''seq'' = s"
  "jget (base_record cid s ts c d p) ''ts'' = JStr ts"
  "jget (base_record cid s ts c d p) ''action'' = JStr (ac_action c)"
  "jget (base_record cid s ts c d p) ''actor'' = JStr (ac_actor c)"
  "jget (base_record cid s ts c d p) ''success'' = JBool (ac_success c)"
  "jget (base_record cid s ts c d p) ''schema_version'' = JInt schema_version"
  "jget (base_record cid s ts c d p) ''prev_hash'' = p"
  "jget (base_record cid s ts c d p) ''detail'' = JObj d"
  by (simp_all add: base_record_def)

lemma linked_one: "linked p n [r] \<longleftrightarrow> eq_int (jget r ''seq'') n \<and> jget r ''prev_hash'' = jopt p \<and>
    eq_int (jget r ''schema_version'') schema_version \<and>
    (\<exists>h. compute_hash p r = Some h \<and> jget r ''this_hash'' = JStr h)"
  by (auto split: option.splits)

lemma eq_int_JInt [simp]: "eq_int (JInt m) n \<longleftrightarrow> m = n"
  by (simp add: eq_int_def)

lemma linked_new:
  "compute_hash p (base_record cid (JInt n) ts c d (jopt p)) = Some h \<Longrightarrow>
   linked p n [with_hash (base_record cid (JInt n) ts c d (jopt p)) h]"
  by (simp add: linked_one)

subsection \<open>The JSONL writer extends its chain\<close>

lemma jl_last_loop_filter:
  "jl_last_loop w cid acc rs = jl_last_loop w cid acc (filter (\<lambda>r. \<not> jl_foreign w cid r) rs)"
  by (induction rs arbitrary: acc) (auto split: option.splits)

lemma dget_jget: "jget r k \<noteq> JNull \<Longrightarrow> dget r k = Some (jget r k)"
  by (auto simp: jget_def split: option.splits)

lemma jl_last_loop_linked:
  "linked p n rs \<Longrightarrow> list_all (\<lambda>r. \<not> jl_foreign w cid r) rs \<Longrightarrow> eq_int s (n - 1) \<Longrightarrow>
   \<exists>s'. jl_last_loop w cid (s, jopt p) rs = Inr (s', jopt (end_hash p rs)) \<and> eq_int s' (n - 1 + int (length rs))"
proof (induction rs arbitrary: p n s)
  case (Cons r rs)
  then obtain h where h: "jget r ''this_hash'' = JStr h" "linked (Some h) (n + 1) rs" "eq_int (jget r ''seq'') n"
    by (auto split: option.splits)
  have "dget r ''seq'' = Some (jget r ''seq'')" "dget r ''this_hash'' = Some (JStr h)"
    using h dget_jget [of r "''seq''"] dget_jget [of r "''this_hash''"] by (auto simp: eq_int_def split: json.splits)
  then show ?case using Cons.IH [of "Some h" "n + 1" "jget r ''seq''"] h Cons.prems
    by (simp add: end_hash_Cons algebra_simps)
qed simp

lemma jl_last_linked:
  assumes "linked None 1 (jl_read cid w)"
  shows "\<exists>s. jl_last w cid = Inr (s, jopt (end_hash None (jl_read cid w))) \<and> eq_int s (int (length (jl_read cid w)))"
proof (cases "dget (jl_files w) (jl_path w cid)")
  case None
  then show ?thesis by (simp add: jl_last_def jl_read_def)
next
  case (Some rs)
  then show ?thesis
    using jl_last_loop_linked [of None 1 "jl_read cid w" w cid "JInt 0"] assms
      jl_last_loop_filter [of w cid "(JInt 0, JNull)" rs]
    by (simp add: jl_last_def jl_read_def list_all_iff)
qed

lemma succ_seq_eq_int: "eq_int s n \<Longrightarrow> succ_seq s = Inr (JInt (n + 1))"
  by (auto simp: eq_int_def succ_seq_def split: json.splits)

lemma hash_arg_jopt [simp]: "hash_arg (jopt p) = Inr p"
  by (cases p) (auto simp: hash_arg_def)

lemma jl_append_eq:
  assumes "linked None 1 (jl_read (call_chain c) w)"
  defines "p \<equiv> end_hash None (jl_read (call_chain c) w)"
    and "n \<equiv> int (length (jl_read (call_chain c) w)) + 1"
  shows "\<exists>h. let b = base_record (call_chain c) (JInt n) (canonical_ts (DT now (Some 0))) c (redact_detail (ac_detail c)) (jopt p)
    in compute_hash p b = Some h \<and>
       jl_append c now w = Inr (w\<lparr>jl_files := dset (jl_path w (call_chain c))
         (dget_or [] (jl_files w) (jl_path w (call_chain c)) @ [with_hash b h]) (jl_files w)\<rparr>, with_hash b h)"
proof -
  let ?b = "base_record (call_chain c) (JInt n) (canonical_ts (DT now (Some 0))) c (redact_detail (ac_detail c)) (jopt p)"
  obtain s where s: "jl_last w (call_chain c) = Inr (s, jopt p)" "succ_seq s = Inr (JInt n)"
    using jl_last_linked [OF assms(1)] succ_seq_eq_int unfolding p_def n_def by blast
  have "digest_opt p" unfolding p_def using linked_digest [OF _ assms(1)] by simp
  then obtain m where m: "compute_hash p ?b = Some (sha256 m)" using compute_hash_digest by blast
  then show ?thesis using s by (simp add: jl_append_def Let_def)
qed

lemma jl_read_append:
  assumes "linked None 1 (jl_read (call_chain c) w)" "jl_append c now w = Inr (w', e)"
  shows "jl_read (call_chain c) w' = jl_read (call_chain c) w @ [e]"
proof -
  have nf: "\<not> jl_foreign w (call_chain c) e" "jl_single w' = jl_single w"
    "dget (jl_files w') (jl_path w (call_chain c)) = Some (dget_or [] (jl_files w) (jl_path w (call_chain c)) @ [e])"
    using jl_append_eq [OF assms(1), of now] assms(2) by (auto simp: Let_def jl_foreign_def)
  have "jl_path w' = jl_path w" "jl_foreign w' = jl_foreign w"
    using nf(2) by (simp_all add: jl_path_def jl_foreign_def fun_eq_iff)
  then show ?thesis using nf(1,3) by (auto simp: jl_read_def dget_or_def split: option.splits)
qed

lemma jl_append_linked:
  assumes "linked None 1 (jl_read (call_chain c) w)" "jl_append c now w = Inr (w', e)"
  shows "linked None 1 (jl_read (call_chain c) w')"
  using jl_read_append [OF assms] jl_append_eq [OF assms(1), of now] assms
  by (auto simp: Let_def linked_append intro!: linked_new simp del: linked.simps simp: add.commute)

definition jl_apart :: "jsonl \<Rightarrow> string \<Rightarrow> string \<Rightarrow> bool" where
  "jl_apart w a b = (if jl_single w = None then jl_path w a \<noteq> jl_path w b else a \<noteq> b)"

lemma jl_append_Inr:
  assumes "jl_append c now w = Inr (w', e)"
  shows "jl_single w' = jl_single w \<and> jget e ''chain_id'' = JStr (call_chain c)
    \<and> jget e ''action'' = JStr (ac_action c) \<and> jget e ''success'' = JBool (ac_success c)
    \<and> jl_files w' = dset (jl_path w (call_chain c))
         (dget_or [] (jl_files w) (jl_path w (call_chain c)) @ [e]) (jl_files w)"
  using assms by (auto simp: jl_append_def Let_def split: prod.splits option.splits)

lemma jl_read_frame:
  assumes "jl_append c now w = Inr (w', e)" "jl_apart w (call_chain c) cid"
  shows "jl_read cid w' = jl_read cid w"
proof -
  have e: "jl_single w' = jl_single w" "jget e ''chain_id'' = JStr (call_chain c)"
    and f: "jl_files w' = dset (jl_path w (call_chain c))
         (dget_or [] (jl_files w) (jl_path w (call_chain c)) @ [e]) (jl_files w)"
    using jl_append_Inr [OF assms(1)] by auto
  have p: "jl_path w' = jl_path w" "jl_foreign w' = jl_foreign w"
    using e(1) by (simp_all add: jl_path_def jl_foreign_def fun_eq_iff)
  show ?thesis
  proof (cases "jl_path w (call_chain c) = jl_path w cid")
    case False
    then show ?thesis unfolding jl_read_def p using f by simp
  next
    case True
    then have "jl_single w \<noteq> None" "call_chain c \<noteq> cid" using assms(2) by (auto simp: jl_apart_def split: if_splits)
    then have "jl_foreign w cid e" using e(2) by (simp add: jl_foreign_def)
    then show ?thesis using f p True by (auto simp: jl_read_def dget_or_def split: option.splits)
  qed
qed

subsection \<open>The Postgres writer extends its chain\<close>

lemma canonical_ts_db [simp]: "canonical_ts (db_datetime zone v) = canonical_ts v"
  by (auto simp: canonical_ts_def db_datetime_def Let_def split: option.splits)

lemma pg_record_zone: "pg_record zone = pg_record None"
  by (simp add: pg_record_def fun_eq_iff)

definition chain_rows :: "string \<Rightarrow> pg_audit \<Rightarrow> ae_row list" where
  "chain_rows cid w = filter (\<lambda>r. ae_chain r = cid) (pg_rows w)"

text \<open>The head row of a chain describes its last event.\<close>

definition pg_good :: "string \<Rightarrow> pg_audit \<Rightarrow> bool" where
  "pg_good cid w \<longleftrightarrow> linked None 1 (map (pg_record None) (chain_rows cid w)) \<and>
     dget_or (0, None) (pg_heads w) cid =
       (int (length (chain_rows cid w)),
        if chain_rows cid w = [] then None else Some (ae_this (last (chain_rows cid w))))"

lemma jget_pg_record [simp]:
  "jget (pg_record z r) ''seq'' = JInt (ae_seq r)"
  "jget (pg_record z r) ''this_hash'' = JStr (to_hex (ae_this r))"
  "jget (pg_record z r) ''prev_hash'' = jopt (hex_or_none (ae_prev r))"
  "jget (pg_record z r) ''schema_version'' = JInt (ae_schema r)"
  by (simp_all add: pg_record_def)

lemma pg_seqs:
  assumes "linked None 1 (map (pg_record None) rs)"
  shows "map ae_seq rs = map (\<lambda>i. 1 + int i) [0..<length rs]"
proof (rule nth_equalityI)
  fix i assume "i < length (map ae_seq rs)"
  then show "map ae_seq rs ! i = map (\<lambda>i. 1 + int i) [0..<length rs] ! i"
    using linked_nth_seq [OF assms, of i] by simp
qed simp

lemma pg_read_good: "pg_good cid w \<Longrightarrow> pg_read zone cid w = map (pg_record None) (chain_rows cid w)"
proof -
  assume "pg_good cid w"
  then have "map ae_seq (chain_rows cid w) = map (\<lambda>i. 1 + int i) [0..<length (chain_rows cid w)]"
    by (intro pg_seqs) (simp add: pg_good_def)
  then have "sorted (map ae_seq (chain_rows cid w))"
    by (simp add: sorted_map sorted_wrt_iff_nth_less)
  then have "sort_key ae_seq (chain_rows cid w) = chain_rows cid w"
    by (rule sort_key_id_if_sorted)
  then show ?thesis by (simp add: pg_read_def pg_record_zone [of zone] chain_rows_def)
qed

lemma pg_good_verifies: "pg_good cid w \<Longrightarrow> verify_ok (pg_read zone cid w)"
  using pg_read_good [of cid w zone] by (simp add: verify_ok_iff pg_good_def)

lemma pg_end_hash:
  assumes "linked None 1 (map (pg_record None) rs)"
  shows "end_hash None (map (pg_record None) rs) = hex_or_none (if rs = [] then None else Some (ae_this (last rs)))"
proof (cases "rs = []")
  case False
  then have e: "end_hash None (map (pg_record None) rs) = Some (to_hex (ae_this (last rs)))"
    by (simp add: end_hash_def last_map)
  then have "length (to_hex (ae_this (last rs))) = 64"
    using linked_digest [OF _ assms] by (simp add: digest_opt_def)
  then have "ae_this (last rs) \<noteq> []" by (auto simp: to_hex_def)
  then show ?thesis using e False by (simp add: hex_or_none_def)
qed (simp add: hex_or_none_def)

lemma pg_append_Inr:
  assumes "pg_append c now w = Inr (w', e)"
  obtains row where
    "pg_rows w' = pg_rows w @ [row]" "ae_chain row = call_chain c"
    "pg_heads w' = dset (call_chain c) (fst (dget_or (0, None) (pg_heads w) (call_chain c)) + 1, Some (ae_this row)) (pg_heads w)"
    "map_of (pg_record None row) = map_of e" "distinct (map fst e)"
    "\<exists>p h. p = hex_or_none (snd (dget_or (0, None) (pg_heads w) (call_chain c))) \<and>
      compute_hash p e = Some h \<and> jget e ''this_hash'' = JStr h \<and>
      e = with_hash (base_record (call_chain c) (JInt (fst (dget_or (0, None) (pg_heads w) (call_chain c)) + 1))
             (canonical_ts (DT now (Some 0))) c (redact_detail (ac_detail c)) (jopt p)) h"
proof -
  let ?cid = "call_chain c"
  obtain hs hh where hd: "dget_or (0, None) (pg_heads w) ?cid = (hs, hh)" by fastforce
  let ?b = "base_record ?cid (JInt (hs + 1)) (canonical_ts (DT now (Some 0))) c (redact_detail (ac_detail c)) (jopt (hex_or_none hh))"
  obtain hx where hx: "compute_hash (hex_or_none hh) ?b = Some hx"
    using assms hd by (auto simp: pg_append_def Let_def split: option.splits)
  obtain this where th: "from_hex hx = Some this"
    using assms hd hx by (auto simp: pg_append_def Let_def split: option.splits)
  obtain m where "hx = sha256 m"
    using hx by (auto simp: compute_hash_def split: if_splits)
  then have hex: "to_hex this = hx" using th from_hex_sha256 [of m] by auto
  define row where "row = \<lparr>ae_chain = ?cid, ae_seq = hs + 1, ae_project = ac_project c, ae_run = ac_run c,
      ae_actor = ac_actor c, ae_action = ac_action c, ae_target = ac_target c,
      ae_check = ac_check c, ae_override = ac_override c, ae_success = ac_success c,
      ae_detail = redact_detail (ac_detail c), ae_schema = schema_version,
      ae_prev = hh, ae_this = this, ae_created = DT now (Some 0)\<rparr>"
  have w': "w' = \<lparr>pg_heads = dset ?cid (hs + 1, Some this) (pg_heads w), pg_rows = pg_rows w @ [row]\<rparr>"
    and e: "e = with_hash ?b hx"
    using assms hd hx th by (auto simp: pg_append_def Let_def row_def split: if_splits)
  have "map_of (pg_record None row) = map_of e"
    unfolding e by (auto simp: fun_eq_iff pg_record_def row_def with_hash_def base_record_def hex canonical_ts_db)
  moreover have "distinct (map fst e)"
    unfolding e by (simp add: with_hash_def base_record_def)
  ultimately show thesis
    using w' hx hd e by (intro that [of row]) (auto simp: row_def)
qed

lemma linked_cong_one:
  assumes "map_of a = map_of b" "distinct (map fst a)" "distinct (map fst b)"
  shows "linked p n [a] \<longleftrightarrow> linked p n [b]"
proof -
  have "jget a k = jget b k" for k using assms(1) by (simp add: jget_def)
  then show ?thesis using compute_hash_cong [OF assms(2,3,1)] by (simp add: linked_one del: linked.simps)
qed

lemma distinct_pg_record: "distinct (map fst (pg_record z r))"
  by (simp add: pg_record_def)

lemma pg_append_good:
  assumes g: "pg_good (call_chain c) w" and a: "pg_append c now w = Inr (w', e)"
  shows "pg_good (call_chain c) w'" and "\<exists>r. pg_read zone (call_chain c) w' = pg_read zone (call_chain c) w @ [r] \<and> map_of r = map_of e"
proof -
  let ?cid = "call_chain c" and ?rs = "chain_rows (call_chain c) w"
  let ?eh = "end_hash None (map (pg_record None) ?rs)"
  obtain row where row: "pg_rows w' = pg_rows w @ [row]" "ae_chain row = ?cid"
    "pg_heads w' = dset ?cid (fst (dget_or (0, None) (pg_heads w) ?cid) + 1, Some (ae_this row)) (pg_heads w)"
    "map_of (pg_record None row) = map_of e" "distinct (map fst e)"
    and ex: "\<exists>p h. p = hex_or_none (snd (dget_or (0, None) (pg_heads w) ?cid)) \<and>
      compute_hash p e = Some h \<and> jget e ''this_hash'' = JStr h \<and>
      e = with_hash (base_record ?cid (JInt (fst (dget_or (0, None) (pg_heads w) ?cid) + 1))
             (canonical_ts (DT now (Some 0))) c (redact_detail (ac_detail c)) (jopt p)) h"
    using pg_append_Inr [OF a] by blast
  have lk: "linked None 1 (map (pg_record None) ?rs)" and
    hd: "dget_or (0, None) (pg_heads w) ?cid = (int (length ?rs), if ?rs = [] then None else Some (ae_this (last ?rs)))"
    using g by (auto simp: pg_good_def)
  have "linked ?eh (int (length ?rs) + 1) [e]"
    using ex hd pg_end_hash [OF lk] by (auto simp: linked_one)
  then have "linked ?eh (int (length ?rs) + 1) [pg_record None row]"
    using linked_cong_one [OF row(4) distinct_pg_record row(5)] by blast
  then have lk': "linked None 1 (map (pg_record None) (?rs @ [row]))"
    using lk by (simp add: linked_append add.commute del: linked.simps)
  have cr: "chain_rows ?cid w' = ?rs @ [row]"
    using row by (simp add: chain_rows_def)
  show good': "pg_good ?cid w'"
    using lk' cr row(3) hd by (simp add: pg_good_def dget_or_def)
  have "pg_read zone ?cid w' = pg_read zone ?cid w @ [pg_record None row]"
    using pg_read_good [OF g, of zone] pg_read_good [OF good', of zone] cr by simp
  then show "\<exists>r. pg_read zone ?cid w' = pg_read zone ?cid w @ [r] \<and> map_of r = map_of e"
    using row(4) by blast
qed

lemma pg_append_frame:
  assumes "pg_append c now w = Inr (w', e)" "call_chain c \<noteq> cid"
  shows "pg_read zone cid w' = pg_read zone cid w" "pg_good cid w' = pg_good cid w"
proof -
  obtain row where "pg_rows w' = pg_rows w @ [row]" "ae_chain row = call_chain c"
    "pg_heads w' = dset (call_chain c) (fst (dget_or (0, None) (pg_heads w) (call_chain c)) + 1, Some (ae_this row)) (pg_heads w)"
    using pg_append_Inr [OF assms(1)] by blast
  then show "pg_read zone cid w' = pg_read zone cid w" "pg_good cid w' = pg_good cid w"
    using assms(2) by (simp_all add: pg_read_def pg_good_def chain_rows_def dget_or_def)
qed

lemma pg_append_event:
  assumes "pg_append c now w = Inr (w', e)"
  obtains cid n ts p h where "e = with_hash (base_record cid n ts c (redact_detail (ac_detail c)) p) h"
  by (rule pg_append_Inr [OF assms], elim exE conjE, erule that)

lemma pg_append_fields:
  assumes "pg_append c now w = Inr (w', e)"
  shows "jget e ''action'' = JStr (ac_action c) \<and> jget e ''success'' = JBool (ac_success c)
    \<and> jget e ''detail'' = JObj (redact_detail (ac_detail c))"
  by (rule pg_append_event [OF assms]) simp

subsection \<open>The writer protocol\<close>

text \<open>A sequence of appends that all succeed; calls whose chain is kept apart from \<open>cid\<close>.\<close>

fun append_all :: "(audit_call \<Rightarrow> int \<Rightarrow> 'w \<Rightarrow> (audit_error, 'w \<times> jdict) result) \<Rightarrow>
    (audit_call \<times> int) list \<Rightarrow> 'w \<Rightarrow> (audit_error, 'w \<times> jdict list) result" where
  "append_all app [] w = Inr (w, [])"
| "append_all app ((c, now) # cs) w =
     rbind (app c now w) (\<lambda>(w', e). rbind (append_all app cs w') (\<lambda>(w'', es). Inr (w'', e # es)))"

definition separated :: "(string \<Rightarrow> string \<Rightarrow> bool) \<Rightarrow> string \<Rightarrow> (audit_call \<times> int) list \<Rightarrow> bool" where
  "separated ap cid cs = list_all (\<lambda>(c, _). call_chain c = cid \<or> ap (call_chain c) cid) cs"

text \<open>
  What the clients of \<open>AuditWriter\<close> rely on: a successful append adds exactly the event it
  returns at the end of the event's chain, for the action and the outcome it was called with, and
  leaves the other chains alone. \<open>good\<close> says that a chain is in a state the writer left,
  \<open>apart\<close> that two chains do not share storage.
\<close>

locale audit_writer =
  fixes append :: "audit_call \<Rightarrow> int \<Rightarrow> 'w \<Rightarrow> (audit_error, 'w \<times> jdict) result"
    and read :: "string \<Rightarrow> 'w \<Rightarrow> jdict list"
    and good :: "string \<Rightarrow> 'w \<Rightarrow> bool"
    and apart :: "'w \<Rightarrow> string \<Rightarrow> string \<Rightarrow> bool"
  assumes read_append: "good (call_chain c) w \<Longrightarrow> append c now w = Inr (w', e) \<Longrightarrow>
      \<exists>r. read (call_chain c) w' = read (call_chain c) w @ [r] \<and> map_of r = map_of e"
    and append_good: "good (call_chain c) w \<Longrightarrow> append c now w = Inr (w', e) \<Longrightarrow> good (call_chain c) w'"
    and read_frame: "append c now w = Inr (w', e) \<Longrightarrow> apart w (call_chain c) cid \<Longrightarrow> read cid w' = read cid w"
    and good_frame: "append c now w = Inr (w', e) \<Longrightarrow> apart w (call_chain c) cid \<Longrightarrow> good cid w' = good cid w"
    and apart_frame: "append c now w = Inr (w', e) \<Longrightarrow> apart w' = apart w"
    and event_action: "append c now w = Inr (w', e) \<Longrightarrow> jget e ''action'' = JStr (ac_action c)"
    and event_success: "append c now w = Inr (w', e) \<Longrightarrow> jget e ''success'' = JBool (ac_success c)"
begin

lemma append_all_chain:
  "good cid w \<Longrightarrow> separated (apart w) cid cs \<Longrightarrow> append_all append cs w = Inr (w', es) \<Longrightarrow>
   good cid w' \<and> (\<exists>rs. read cid w' = read cid w @ rs \<and>
     map (\<lambda>r. jget r ''action'') rs = map (\<lambda>(c, _). JStr (ac_action c)) (filter (\<lambda>(c, _). call_chain c = cid) cs))"
proof (induction cs arbitrary: w es)
  case (Cons p cs)
  obtain c now where p: "p = (c, now)" by fastforce
  obtain w1 e es' where a: "append c now w = Inr (w1, e)" and r: "append_all append cs w1 = Inr (w', es')"
    using Cons.prems(3) by (auto simp: p)
  have sep: "separated (apart w1) cid cs"
    using Cons.prems(2) by (auto simp: separated_def apart_frame [OF a])
  have ev: "jget r ''action'' = JStr (ac_action c)" if "map_of r = map_of e" for r
    using event_action [OF a] that by (simp add: jget_def)
  show ?case
  proof (cases "call_chain c = cid")
    case True
    obtain r where "read cid w1 = read cid w @ [r]" "map_of r = map_of e"
      using read_append [OF _ a] Cons.prems(1) True by auto
    then show ?thesis
      using Cons.IH [OF _ sep r] append_good [OF _ a] Cons.prems(1) True ev [of r] p by auto
  next
    case False
    then have "apart w (call_chain c) cid" using Cons.prems(2) by (auto simp: separated_def p)
    then show ?thesis
      using Cons.IH [OF _ sep r] read_frame [OF a] good_frame [OF a] Cons.prems(1) False p by auto
  qed
qed simp

end

text \<open>The writers that hash: every chain they leave verifies.\<close>

locale hashing_writer = audit_writer +
  assumes good_verifies: "good cid w \<Longrightarrow> verify_ok (read cid w)"
begin

lemma append_all_verifies:
  "good cid w \<Longrightarrow> separated (apart w) cid cs \<Longrightarrow> append_all append cs w = Inr (w', es) \<Longrightarrow> verify_ok (read cid w')"
  using append_all_chain [of cid w cs w' es] good_verifies by blast

end

definition jl_good :: "string \<Rightarrow> jsonl \<Rightarrow> bool" where
  "jl_good cid w = verify_ok (jl_read cid w)"

lemma jl_apart_frame: "jl_append c now w = Inr (w', e) \<Longrightarrow> jl_apart w' = jl_apart w"
proof -
  assume "jl_append c now w = Inr (w', e)"
  then have s: "jl_single w' = jl_single w" using jl_append_Inr by blast
  then have "jl_path w' = jl_path w" by (simp add: jl_path_def fun_eq_iff)
  with s show ?thesis by (simp only: jl_apart_def fun_eq_iff) simp
qed

interpretation jlw: hashing_writer jl_append jl_read jl_good jl_apart
proof unfold_locales
  fix c now w w' e
  assume "jl_good (call_chain c) w" and a: "jl_append c now w = Inr (w', e)"
  then have l: "linked None 1 (jl_read (call_chain c) w)" by (simp add: jl_good_def verify_ok_iff)
  show "\<exists>r. jl_read (call_chain c) w' = jl_read (call_chain c) w @ [r] \<and> map_of r = map_of e"
    using jl_read_append [OF l a] by blast
  show "jl_good (call_chain c) w'"
    using jl_append_linked [OF l a] by (simp add: jl_good_def verify_ok_iff)
next
  fix c now w w' e cid
  assume a: "jl_append c now w = Inr (w', e)"
  show "jget e ''action'' = JStr (ac_action c)" "jget e ''success'' = JBool (ac_success c)"
    using jl_append_Inr [OF a] by auto
  show "jl_apart w' = jl_apart w" by (rule jl_apart_frame [OF a])
  assume "jl_apart w (call_chain c) cid"
  then show "jl_read cid w' = jl_read cid w" by (rule jl_read_frame [OF a])
  then show "jl_good cid w' = jl_good cid w" by (simp add: jl_good_def)
qed (simp add: jl_good_def)

interpretation pgw: hashing_writer pg_append "pg_read zone" pg_good "\<lambda>w a b. a \<noteq> b" for zone
proof unfold_locales
  fix c now w w' e
  assume g: "pg_good (call_chain c) w" and a: "pg_append c now w = Inr (w', e)"
  show "\<exists>r. pg_read zone (call_chain c) w' = pg_read zone (call_chain c) w @ [r] \<and> map_of r = map_of e"
    and "pg_good (call_chain c) w'"
    using pg_append_good [OF g a] by blast+
next
  fix c now w w' e cid
  assume a: "pg_append c now w = Inr (w', e)"
  show "jget e ''action'' = JStr (ac_action c)" and "jget e ''success'' = JBool (ac_success c)"
    using pg_append_fields [OF a] by auto
  assume "call_chain c \<noteq> cid"
  then show "pg_read zone cid w' = pg_read zone cid w" and "pg_good cid w' = pg_good cid w"
    using pg_append_frame [OF a] by auto
qed (auto intro: pg_good_verifies)

interpretation memw: audit_writer mem_append mem_read "\<lambda>cid w. True" "\<lambda>w a b. a \<noteq> b"
  by unfold_locales (auto simp: mem_append_def mem_read_def Let_def dget_or_def)

subsection \<open>Runs of the writers\<close>

definition jl_all_good :: "jsonl \<Rightarrow> bool" where
  "jl_all_good w \<longleftrightarrow> (\<forall>cid. jl_good cid w)"

lemma jl_append_total: "jl_good (call_chain c) w \<Longrightarrow> \<exists>w' e. jl_append c now w = Inr (w', e)"
  using jl_append_eq [of c w now] by (auto simp: jl_good_def verify_ok_iff Let_def)

lemma jl_read_same_file:
  "jl_single w = None \<Longrightarrow> jl_path w a = jl_path w b \<Longrightarrow> jl_read a w = jl_read b w"
  by (simp add: jl_read_def jl_foreign_def split: option.splits)

lemma jl_append_all_good:
  assumes g: "jl_all_good w" and a: "jl_append c now w = Inr (w', e)"
  shows "jl_all_good w'"
  unfolding jl_all_good_def
proof
  fix cid
  have c: "jl_good (call_chain c) w'" using jlw.append_good [OF _ a] g by (simp add: jl_all_good_def)
  have s: "jl_single w' = jl_single w" using jl_append_Inr [OF a] by blast
  then have p: "jl_path w' = jl_path w" by (simp add: jl_path_def fun_eq_iff)
  show "jl_good cid w'"
  proof (cases "jl_apart w (call_chain c) cid")
    case True
    then show ?thesis using jlw.good_frame [OF a True] g by (simp add: jl_all_good_def)
  next
    case False
    then show ?thesis
      using c s p jl_read_same_file [of w' "call_chain c" cid]
      by (cases "jl_single w") (auto simp: jl_apart_def jl_good_def)
  qed
qed

lemma jl_run:
  "jl_all_good w \<Longrightarrow> \<exists>w' es. append_all jl_append cs w = Inr (w', es) \<and> length es = length cs \<and> jl_all_good w'"
proof (induction cs arbitrary: w)
  case (Cons p cs)
  obtain c now where p: "p = (c, now)" by fastforce
  have "jl_good (call_chain c) w" using Cons.prems by (simp add: jl_all_good_def)
  then obtain w1 e where a: "jl_append c now w = Inr (w1, e)" using jl_append_total by blast
  then obtain w' es where "append_all jl_append cs w1 = Inr (w', es)" "length es = length cs" "jl_all_good w'"
    using Cons.IH [OF jl_append_all_good [OF Cons.prems a]] by blast
  then show ?case using a p by simp
qed simp

lemma jl_empty_good: "jl_all_good \<lparr>jl_files = [], jl_single = sf\<rparr>"
  by (simp add: jl_all_good_def jl_good_def jl_read_def verify_ok_iff)

definition pg_all_good :: "pg_audit \<Rightarrow> bool" where
  "pg_all_good w \<longleftrightarrow> (\<forall>cid. pg_good cid w)"

lemma pg_append_all_good:
  assumes "pg_all_good w" "pg_append c now w = Inr (w', e)"
  shows "pg_all_good w'"
  unfolding pg_all_good_def
proof
  fix cid
  show "pg_good cid w'"
    using assms pgw.append_good [of c w now w' e] pgw.good_frame [of c now w w' e cid]
    by (cases "call_chain c = cid") (auto simp: pg_all_good_def)
qed

lemma pg_run: "pg_all_good w \<Longrightarrow> append_all pg_append cs w = Inr (w', es) \<Longrightarrow> pg_all_good w'"
proof (induction cs arbitrary: w es)
  case (Cons p cs)
  obtain c now where p: "p = (c, now)" by fastforce
  then obtain w1 e es' where "pg_append c now w = Inr (w1, e)" "append_all pg_append cs w1 = Inr (w', es')"
    using Cons.prems by auto
  then show ?case using Cons.IH pg_append_all_good Cons.prems by blast
qed simp

lemma pg_empty_good: "pg_all_good \<lparr>pg_heads = [], pg_rows = []\<rparr>"
  by (simp add: pg_all_good_def pg_good_def chain_rows_def dget_or_def)

text \<open>On a well-kept chain a failing append is the database's refusal of a duplicate digest.\<close>

lemma pg_append_error:
  assumes "pg_good (call_chain c) w" "pg_append c now w = Inl err"
  shows "err = AIntegrityError"
proof -
  let ?cid = "call_chain c"
  obtain hs hh where hd: "dget_or (0, None) (pg_heads w) ?cid = (hs, hh)" by fastforce
  let ?rs = "chain_rows ?cid w"
  have lk: "linked None 1 (map (pg_record None) ?rs)" and
    "hh = (if ?rs = [] then None else Some (ae_this (last ?rs)))"
    using assms(1) hd by (auto simp: pg_good_def)
  then have "hex_or_none hh = end_hash None (map (pg_record None) ?rs)"
    using pg_end_hash [OF lk] by simp
  then have "digest_opt (hex_or_none hh)" using linked_digest [OF _ lk] by simp
  then obtain m where m: "compute_hash (hex_or_none hh) (base_record ?cid (JInt (hs + 1))
      (canonical_ts (DT now (Some 0))) c (redact_detail (ac_detail c)) (jopt (hex_or_none hh))) = Some (sha256 m)"
    using compute_hash_digest by blast
  then obtain b where "from_hex (sha256 m) = Some b" using from_hex_sha256 by blast
  then show ?thesis using assms(2) m hd by (auto simp: pg_append_def Let_def split: if_splits)
qed

lemma pg_run_error:
  "pg_all_good w \<Longrightarrow> append_all pg_append cs w = Inl err \<Longrightarrow> err = AIntegrityError"
proof (induction cs arbitrary: w)
  case (Cons p cs)
  obtain c now where p: "p = (c, now)" by fastforce
  have g: "pg_good (call_chain c) w" using Cons.prems by (simp add: pg_all_good_def)
  show ?case
  proof (cases "pg_append c now w")
    case (Inl e)
    then show ?thesis using Cons.prems p pg_append_error [OF g] by auto
  next
    case (Inr q)
    obtain w1 e where q: "q = (w1, e)" by fastforce
    then have "pg_all_good w1" using pg_append_all_good [OF Cons.prems(1)] Inr by blast
    moreover have "append_all pg_append cs w1 = Inl err"
      using Cons.prems(2) p Inr q by (auto simp: rbind_Inl_iff)
    ultimately show ?thesis by (rule Cons.IH)
  qed
qed simp

lemma redact_detail_clean: "no_secret (JObj (redact_detail d))"
  using no_secret_redact [of "JObj d"] redact_obj [of d]
  by (simp add: redact_detail_def del: redact_audit_detail.simps no_secret.simps)

subsection \<open>Tampering\<close>

definition hash_input :: "string option \<Rightarrow> jdict \<Rightarrow> char list" where
  "hash_input p r = (case p of None \<Rightarrow> [] | Some h \<Rightarrow> (case from_hex h of None \<Rightarrow> [] | Some b \<Rightarrow> b)) @ canonical_json r"

text \<open>The bytes hashed for the \<open>i\<close>-th record of a chain.\<close>

definition chain_input :: "jdict list \<Rightarrow> nat \<Rightarrow> char list" where
  "chain_input rs i = hash_input (end_hash None (take i rs)) (rs ! i)"

definition collide :: "char list \<Rightarrow> char list \<Rightarrow> bool" where
  "collide a b \<longleftrightarrow> a \<noteq> b \<and> sha256 a = sha256 b"

lemma compute_hash_input: "digest_opt p \<Longrightarrow> compute_hash p r = Some h \<Longrightarrow> h = sha256 (hash_input p r)"
  using from_hex_digits [of "the p"]
  by (cases p) (auto simp: compute_hash_def hash_input_def digest_opt_def split: if_splits)

lemma linked_oneD: "linked p n [x] \<Longrightarrow> \<exists>h. compute_hash p x = Some h \<and> jget x ''this_hash'' = JStr h"
  by (auto simp: linked_one simp del: linked.simps)

lemma end_hash_snoc: "jget x ''this_hash'' = JStr h \<Longrightarrow> end_hash p (xs @ [x]) = Some h"
  by (simp add: end_hash_def)

lemma hash_input_inject:
  assumes "digest_opt p" "digest_opt q" "p = None \<longleftrightarrow> q = None" "hash_input p a = hash_input q b"
  shows "p = q \<and> canonical_json a = canonical_json b"
proof (cases p)
  case None
  then show ?thesis using assms by (simp add: hash_input_def)
next
  case (Some h)
  then obtain h' where q: "q = Some h'" using assms(3) by auto
  have d: "even (length h)" "hex_chars h" "length h = 64" "even (length h')" "hex_chars h'" "length h' = 64"
    using assms(1,2) Some q by (auto simp: digest_opt_def)
  obtain x y where x: "from_hex h = Some x" "length x = 32" "to_hex x = h"
    and y: "from_hex h' = Some y" "length y = 32" "to_hex y = h'"
    using from_hex_digits [OF d(1,2)] from_hex_digits [OF d(4,5)] d by auto
  then show ?thesis using assms(4) Some q by (auto simp: hash_input_def)
qed

lemma end_hash_None_iff: "linked None n rs \<Longrightarrow> end_hash None rs = None \<longleftrightarrow> rs = []"
proof (cases rs rule: rev_cases)
  case (snoc xs x)
  assume "linked None n rs"
  then have "linked (end_hash None xs) (n + int (length xs)) [x]"
    using snoc by (simp add: linked_append del: linked.simps)
  then show ?thesis using snoc linked_oneD end_hash_snoc by fastforce
qed simp

lemma tamper_evidence_input:
  "linked None 1 rs \<Longrightarrow> linked None 1 rs' \<Longrightarrow> length rs = length rs' \<Longrightarrow>
   end_hash None rs = end_hash None rs' \<Longrightarrow>
   (\<forall>i<length rs. canonical_json (rs ! i) = canonical_json (rs' ! i)) \<or>
   (\<exists>i<length rs. collide (chain_input rs i) (chain_input rs' i))"
proof (induction rs arbitrary: rs' rule: rev_induct)
  case (snoc x xs)
  then obtain ys y where ys: "rs' = ys @ [y]" by (cases rs' rule: rev_cases) auto
  let ?p = "end_hash None xs" and ?q = "end_hash None ys"
  have len: "length xs = length ys" using snoc ys by simp
  have l: "linked None 1 xs" "linked None 1 ys" "linked ?p (1 + int (length xs)) [x]" "linked ?q (1 + int (length ys)) [y]"
    using snoc.prems(1,2) ys by (auto simp: linked_append simp del: linked.simps)
  have d: "digest_opt ?p" "digest_opt ?q" using linked_digest l by auto
  obtain h where h: "compute_hash ?p x = Some h" "compute_hash ?q y = Some h"
    using linked_oneD [OF l(3)] linked_oneD [OF l(4)] snoc.prems(4) ys
    by (auto simp: end_hash_snoc)
  then have s: "sha256 (hash_input ?p x) = sha256 (hash_input ?q y)"
    using compute_hash_input d by metis
  have ci: "chain_input (xs @ [x]) (length xs) = hash_input ?p x" "chain_input rs' (length xs) = hash_input ?q y"
    using ys nth_append_length [of ys y "[]"] by (simp_all add: chain_input_def flip: len)
  have ci': "i < length xs \<Longrightarrow> chain_input (xs @ [x]) i = chain_input xs i"
    "i < length xs \<Longrightarrow> chain_input rs' i = chain_input ys i" for i
    using ys len by (simp_all add: chain_input_def nth_append)
  show ?case
  proof (cases "hash_input ?p x = hash_input ?q y")
    case False
    then have "collide (chain_input (xs @ [x]) (length xs)) (chain_input rs' (length xs))"
      using s ci by (simp add: collide_def)
    then show ?thesis by auto
  next
    case True
    have "?p = None \<longleftrightarrow> ?q = None" using end_hash_None_iff l(1,2) len by auto
    then have e: "?p = ?q" "canonical_json x = canonical_json y"
      using hash_input_inject [OF d _ True] by auto
    show ?thesis
      using snoc.IH [OF l(1,2) len e(1)] e(2) ci' ys len
      by (auto simp: nth_append less_Suc_eq)
  qed
qed simp

text \<open>A record as the writers store it: no repeated field, floats spelled as Python does.\<close>

definition wf_record :: "jdict \<Rightarrow> bool" where
  "wf_record r \<longleftrightarrow> distinct (map fst r) \<and> wf_json (JObj r)"

lemma canonical_json_fields:
  assumes "wf_record a" "wf_record b" "canonical_json a = canonical_json b" "k \<noteq> ''this_hash''"
  shows "map_option canon (dget a k) = map_option canon (dget b k)"
proof -
  let ?f = "filter (\<lambda>(k, v). k \<noteq> ''this_hash'')"
  have w: "wf_json (JObj (?f c))" "distinct (map fst (?f c))" if "wf_record c" for c
    using that by (auto simp: wf_record_def list_all_iff distinct_map_filter)
  have g: "dget (?f c) k = dget c k" for c :: jdict
    using assms(4) by (induction c) auto
  have "canon (JObj (?f a)) = canon (JObj (?f b))"
    using assms(3) w assms(1,2) by (intro json_dumps_sorted_inject) (auto simp: canonical_json_def)
  then show ?thesis using canon_obj_get [of "?f a" "?f b" k] w assms(1,2) g by simp
qed

lemma verify_loop_break:
  "digest_opt prev \<Longrightarrow> verify_loop prev n k cid rs = Inr v \<Longrightarrow> \<not> vr_verified v \<Longrightarrow>
   \<exists>i<length rs. vr_count v = Suc (k + i) \<and> vr_broken_at v = jget (rs ! i) ''seq'' \<and>
     linked prev n (take i rs) \<and> \<not> linked prev n (take (Suc i) rs)"
proof (induction rs arbitrary: prev n k cid)
  case (Cons r rs)
  obtain m where m: "compute_hash prev r = Some (sha256 m)" using compute_hash_digest Cons.prems by blast
  let ?cid = "if cid = JNull then jget r ''chain_id'' else cid"
  show ?case
  proof (cases "linked prev n [r]")
    case True
    then have ok: "eq_int (jget r ''seq'') n" "jget r ''prev_hash'' = jopt prev"
      "eq_int (jget r ''schema_version'') schema_version" "jget r ''this_hash'' = JStr (sha256 m)"
      using m by auto
    then have "verify_loop (Some (sha256 m)) (n + 1) (Suc k) ?cid rs = Inr v"
      using Cons.prems(2) m by (simp add: Let_def)
    then obtain i where "i < length rs" "vr_count v = Suc (Suc k + i)" "vr_broken_at v = jget (rs ! i) ''seq''"
      "linked (Some (sha256 m)) (n + 1) (take i rs)" "\<not> linked (Some (sha256 m)) (n + 1) (take (Suc i) rs)"
      using Cons.IH [of "Some (sha256 m)" "n + 1" "Suc k" ?cid] Cons.prems(3) by auto
    then show ?thesis using ok m by (intro exI [of _ "Suc i"]) auto
  next
    case False
    then have "vr_count v = Suc k \<and> vr_broken_at v = jget r ''seq''"
      using Cons.prems(2,3) m by (auto simp: Let_def split: if_splits)
    then show ?thesis using False by (intro exI [of _ 0]) auto
  qed
qed auto

subsection \<open>Properties\<close>

text \<open>C3. The verifier always returns a verdict. It is positive exactly when the chain is
  hash-linked (consecutive sequence numbers from 1, every record naming its predecessor's digest,
  every digest the SHA-256 of its record), and a negative one locates the first record that
  breaks the chain.\<close>

theorem verify_chain_verdict:
  "\<exists>v. verify_chain rs = Inr v \<and>
     (if vr_verified v then linked None 1 rs \<and> vr_count v = length rs
      else \<exists>i<length rs. vr_count v = Suc i \<and> vr_broken_at v = jget (rs ! i) ''seq'' \<and>
             linked None 1 (take i rs) \<and> \<not> linked None 1 (take (Suc i) rs))"
proof -
  obtain v where v: "verify_loop None 1 0 JNull rs = Inr v" "vr_verified v \<longleftrightarrow> linked None 1 rs"
    "vr_verified v \<longrightarrow> vr_count v = length rs"
    using verify_chain_returns [of rs] by (auto simp: verify_chain_def)
  then show ?thesis using verify_loop_break [of None 1 0 JNull rs v] by (auto simp: verify_chain_def)
qed

text \<open>C4. From an empty directory, in either layout, any sequence of audit calls is written
  completely by the JSONL writer and leaves every chain verifiable.\<close>

theorem jsonl_run_verifies:
  "\<exists>w es. append_all jl_append cs \<lparr>jl_files = [], jl_single = sf\<rparr> = Inr (w, es) \<and>
     length es = length cs \<and> verify_ok (jl_read cid w)"
  using jl_run [OF jl_empty_good [of sf], of cs] by (auto simp: jl_all_good_def jl_good_def)


text \<open>C2. Tamper evidence: two verified chains of the same length that end in the same digest
  agree on every field of every record, up to the order of keys inside values, or a pair of
  distinct byte strings with the same SHA-256 digest can be read off the two chains.\<close>

theorem tamper_evidence:
  assumes "verify_ok rs" "verify_ok rs'" "length rs = length rs'" "end_hash None rs = end_hash None rs'"
    and "list_all wf_record rs" "list_all wf_record rs'"
  shows "list_all2 (\<lambda>r r'. \<forall>k. k = ''this_hash'' \<or> map_option canon (dget r k) = map_option canon (dget r' k)) rs rs'
    \<or> (\<exists>i<length rs. collide (chain_input rs i) (chain_input rs' i))"
  using tamper_evidence_input [of rs rs'] assms canonical_json_fields
  by (auto simp: verify_ok_iff list_all2_conv_all_nth list_all_length)

theorem tamper_evidence_witness:
  "\<exists>e. verify_ok [e] \<and> verify_ok [rev e] \<and>
     (list_all2 (\<lambda>r r'. \<forall>k. k = ''this_hash'' \<or> map_option canon (dget r k) = map_option canon (dget r' k)) [e] [rev e]
      \<or> (\<exists>i<length [e]. collide (chain_input [e] i) (chain_input [rev e] i)))"
proof -
  let ?c = "\<lparr>ac_action = ''run.cancel'', ac_actor = ''alice'', ac_target = None, ac_check = ''n/a'',
    ac_override = False, ac_success = True, ac_detail = [], ac_run = Some ''r1'', ac_project = None\<rparr>"
  let ?w = "\<lparr>jl_files = [], jl_single = None\<rparr>"
  have l: "linked None 1 (jl_read (call_chain ?c) ?w)" and nil: "jl_read (call_chain ?c) ?w = []"
    by (simp_all add: jl_read_def)
  obtain b p h w' where a: "jl_append ?c 0 ?w = Inr (w', with_hash b h)"
    and b: "b = base_record (call_chain ?c) (JInt 1) (canonical_ts (DT 0 (Some 0))) ?c (redact_detail (ac_detail ?c)) (jopt None)"
    using jl_append_eq [OF l, of 0] nil by (auto simp: Let_def)
  let ?e = "with_hash b h"
  have e: "linked None 1 [?e]" using jl_append_linked [OF l a] jl_read_append [OF l a] nil by simp
  have d: "distinct (map fst ?e)" by (simp add: b base_record_def with_hash_def)
  have wf: "wf_record ?e" "wf_record (rev ?e)"
    using d by (simp_all add: wf_record_def) (simp_all add: b base_record_def with_hash_def redact_detail_def)
  have m: "map_of (rev ?e) = map_of ?e" using d by (subst map_of_inject_set) (simp_all add: rev_map [symmetric])
  have "distinct (map fst (rev ?e))" using d by (metis distinct_rev rev_map)
  then have r: "linked None 1 [rev ?e]" using linked_cong_one [OF m _ d, of None 1] e by blast
  have h: "end_hash None [?e] = end_hash None [rev ?e]" using m by (simp add: end_hash_def jget_def)
  show ?thesis
    using tamper_evidence [of "[?e]" "[rev ?e]"] e r wf h by (intro exI [of _ ?e]) (simp add: verify_ok_iff del: linked.simps)
qed


end
