(* ===== verification/NetAddr.thy ===== *)
theory NetAddr
  imports Json
begin

text \<open>
  What the program uses of \<open>ipaddress\<close> and \<open>urllib.parse\<close>: the IPv4 and IPv6 address parsers,
  networks with a prefix length, a netmask or a host mask, membership, and the host part of a
  URL as \<open>urlparse(..).hostname\<close> computes it. \<open>None\<close> is the \<open>ValueError\<close> of these functions.
\<close>

subsection \<open>Strings\<close>

definition is_digit :: "char \<Rightarrow> bool" where
  "is_digit c \<longleftrightarrow> (let n = of_char c :: int in 48 \<le> n \<and> n \<le> 57)"

definition all_digits :: "string \<Rightarrow> bool" where
  "all_digits s \<longleftrightarrow> s \<noteq> [] \<and> list_all is_digit s"

definition nat_of_digits :: "string \<Rightarrow> int" where
  "nat_of_digits s = fold (\<lambda>c n. 10 * n + (of_char c - 48)) s 0"

text \<open>\<open>int(s)\<close> of a stripped string: an optional sign, digits, single underscores between digits.\<close>

fun digits_under :: "string \<Rightarrow> bool" where
  "digits_under [] = False"
| "digits_under [c] = is_digit c"
| "digits_under (c # d # r) =
     (is_digit c \<and> (if d = CHR ''_'' then digits_under r else digits_under (d # r)))"

definition py_int :: "string \<Rightarrow> int option" where
  "py_int s =
     (let (neg, body) = (case s of c # r \<Rightarrow> if c = CHR ''-'' then (True, r) else if c = CHR ''+'' then (False, r) else (False, s)
                          | [] \<Rightarrow> (False, s))
      in if digits_under body
         then Some ((if neg then -1 else 1) * nat_of_digits (filter is_digit body)) else None)"

definition is_hexdigit :: "char \<Rightarrow> bool" where
  "is_hexdigit c \<longleftrightarrow> is_digit c \<or> (let n = of_char c :: int in (65 \<le> n \<and> n \<le> 70) \<or> (97 \<le> n \<and> n \<le> 102))"

definition hexdigit_val :: "char \<Rightarrow> int" where
  "hexdigit_val c = (let n = of_char c in if n \<le> 57 then n - 48 else if n \<le> 70 then n - 55 else n - 87)"

definition int_of_hex :: "string \<Rightarrow> int" where
  "int_of_hex s = fold (\<lambda>c n. 16 * n + hexdigit_val c) s 0"

text \<open>\<open>s.partition(c)\<close> and \<open>s.rpartition(c)\<close> for a single character.\<close>

definition before :: "char \<Rightarrow> string \<Rightarrow> string" where
  "before c s = takeWhile (\<lambda>x. x \<noteq> c) s"

definition after :: "char \<Rightarrow> string \<Rightarrow> string" where
  "after c s = drop 1 (dropWhile (\<lambda>x. x \<noteq> c) s)"

definition after_last :: "char \<Rightarrow> string \<Rightarrow> string" where
  "after_last c s = rev (takeWhile (\<lambda>x. x \<noteq> c) (rev s))"

subsection \<open>Addresses\<close>

datatype ipaddr = V4 int | V6 int

definition parse_octet :: "string \<Rightarrow> int option" where
  "parse_octet s =
     (if \<not> all_digits s then None
      else if 3 < length s then None
      else if s \<noteq> ''0'' \<and> hd s = CHR ''0'' then None
      else let n = nat_of_digits s in if 255 < n then None else Some n)"

definition v4_int :: "string \<Rightarrow> int option" where
  "v4_int s = (case map parse_octet (split_on CHR ''.'' s) of
      [Some a, Some b, Some c, Some d] \<Rightarrow> Some (((a * 256 + b) * 256 + c) * 256 + d)
    | _ \<Rightarrow> None)"

definition parse_v4 :: "string \<Rightarrow> int option" where
  "parse_v4 s = (if CHR ''/'' \<in> set s then None else v4_int s)"

definition parse_hextet :: "string \<Rightarrow> int option" where
  "parse_hextet s = (if s = [] \<or> \<not> list_all is_hexdigit s \<or> 4 < length s then None else Some (int_of_hex s))"

definition hextets :: "string list \<Rightarrow> int option" where
  "hextets ps = foldl (\<lambda>acc p. case (acc, parse_hextet p) of
      (Some n, Some h) \<Rightarrow> Some (n * 65536 + h) | _ \<Rightarrow> None) (Some 0) ps"

text \<open>The positions of the empty parts strictly inside the list.\<close>

definition inner_empty :: "string list \<Rightarrow> nat list" where
  "inner_empty ps = filter (\<lambda>i. ps ! i = []) [1..<length ps - 1]"

definition v6_parts :: "string list \<Rightarrow> int option" where
  "v6_parts ps =
     (if length ps < 3 \<or> 9 < length ps then None
      else case inner_empty ps of
        [] \<Rightarrow> if length ps \<noteq> 8 \<or> hd ps = [] \<or> last ps = [] then None else hextets ps
      | [i] \<Rightarrow>
          let hi = (if hd ps = [] then i - 1 else i);
              lo0 = length ps - i - 1;
              lo = (if last ps = [] then lo0 - 1 else lo0)
          in if (hd ps = [] \<and> 0 < hi) \<or> (last ps = [] \<and> 0 < lo) then None
             else if 7 < hi + lo then None
             else (case (hextets (take hi ps), hextets (drop (length ps - lo) ps)) of
                 (Some a, Some b) \<Rightarrow> Some (a * 65536 ^ (8 - hi) + b)
               | _ \<Rightarrow> None)
      | _ \<Rightarrow> None)"

text \<open>\<open>'%x' % n\<close>.\<close>

function hex_of :: "int \<Rightarrow> string" where
  "hex_of n = (if n < 16 then [hex_digit n] else hex_of (n div 16) @ [hex_digit (n mod 16)])"
  by auto
termination by (relation "measure nat") auto

declare hex_of.simps [simp del]

definition v6_int :: "string \<Rightarrow> int option" where
  "v6_int s =
     (if s = [] then None
      else let ps = split_on CHR '':'' s in
        if length ps < 3 then None
        else if CHR ''.'' \<in> set (last ps)
          then (case parse_v4 (last ps) of
              None \<Rightarrow> None
            | Some n \<Rightarrow> v6_parts (butlast ps @ [hex_of (n div 65536 mod 65536), hex_of (n mod 65536)]))
          else v6_parts ps)"

text \<open>The scope after \<open>%\<close> must be there and must not contain another \<open>%\<close>.\<close>

definition parse_v6 :: "string \<Rightarrow> int option" where
  "parse_v6 s =
     (if CHR ''/'' \<in> set s then None
      else if CHR ''%'' \<in> set s \<and> (after CHR ''%'' s = [] \<or> CHR ''%'' \<in> set (after CHR ''%'' s)) then None
      else v6_int (before CHR ''%'' s))"

definition ip_address :: "string \<Rightarrow> ipaddr option" where
  "ip_address s = (case parse_v4 s of Some n \<Rightarrow> Some (V4 n)
     | None \<Rightarrow> map_option V6 (parse_v6 s))"

subsection \<open>Networks\<close>

datatype ipnet = N4 int nat | N6 int nat   \<comment> \<open>network address, prefix length\<close>

definition mask_int :: "nat \<Rightarrow> nat \<Rightarrow> int" where
  "mask_int w p = 2 ^ w - 2 ^ (w - p)"

definition prefix_of_digits :: "nat \<Rightarrow> string \<Rightarrow> nat option" where
  "prefix_of_digits w s =
     (if all_digits s \<and> nat_of_digits s \<le> int w then Some (nat (nat_of_digits s)) else None)"

text \<open>The prefix length whose netmask is \<open>n\<close>.\<close>

definition prefix_of_mask :: "int \<Rightarrow> nat option" where
  "prefix_of_mask n = (case filter (\<lambda>p. mask_int 32 p = n) [0..<33] of p # _ \<Rightarrow> Some p | [] \<Rightarrow> None)"

definition prefix_v4 :: "string \<Rightarrow> nat option" where
  "prefix_v4 s = (case prefix_of_digits 32 s of Some p \<Rightarrow> Some p
     | None \<Rightarrow> (case v4_int s of None \<Rightarrow> None
         | Some n \<Rightarrow> (case prefix_of_mask n of Some p \<Rightarrow> Some p
             | None \<Rightarrow> prefix_of_mask (2 ^ 32 - 1 - n))))"

text \<open>The host bits are dropped (\<open>strict=False\<close>).\<close>

definition net_base :: "nat \<Rightarrow> nat \<Rightarrow> int \<Rightarrow> int" where
  "net_base w p n = n - n mod 2 ^ (w - p)"

definition ip_network :: "string \<Rightarrow> ipnet option" where
  "ip_network s =
     (let ps = split_on CHR ''/'' s;
          a = hd ps;
          v4 = (case parse_v4 a of None \<Rightarrow> None
                | Some n \<Rightarrow> map_option (\<lambda>p. N4 (net_base 32 p n) p)
                    (if length ps = 1 then Some 32 else prefix_v4 (ps ! 1)));
          v6 = (case parse_v6 a of None \<Rightarrow> None
                | Some n \<Rightarrow> map_option (\<lambda>p. N6 (net_base 128 p n) p)
                    (if length ps = 1 then Some 128 else prefix_of_digits 128 (ps ! 1)))
      in if 2 < length ps then None else case v4 of Some n \<Rightarrow> Some n | None \<Rightarrow> v6)"

definition in_network :: "ipaddr \<Rightarrow> ipnet \<Rightarrow> bool" where
  "in_network a n = (case (a, n) of
      (V4 x, N4 b p) \<Rightarrow> net_base 32 p x = b
    | (V6 x, N6 b p) \<Rightarrow> net_base 128 p x = b
    | _ \<Rightarrow> False)"

definition in_block :: "ipaddr \<Rightarrow> string \<Rightarrow> bool" where
  "in_block a s = (case ip_network s of None \<Rightarrow> False | Some n \<Rightarrow> in_network a n)"

text \<open>\<open>ip.is_loopback\<close>; an IPv4-mapped address counts as the IPv4 one (3.12.4 and later).\<close>

definition ipv4_mapped :: "int \<Rightarrow> int option" where
  "ipv4_mapped n = (if n div 2 ^ 32 = 65535 then Some (n mod 2 ^ 32) else None)"

definition is_loopback_ip :: "ipaddr \<Rightarrow> bool" where
  "is_loopback_ip a = (case a of
      V4 n \<Rightarrow> n div 2 ^ 24 = 127
    | V6 n \<Rightarrow> (case ipv4_mapped n of Some m \<Rightarrow> m div 2 ^ 24 = 127 | None \<Rightarrow> n = 1))"

subsection \<open>The host of a URL\<close>

definition scheme_char :: "char \<Rightarrow> bool" where
  "scheme_char c \<longleftrightarrow> is_digit c \<or> c \<in> set ''+-.'' \<or>
     (let n = of_char c :: int in (65 \<le> n \<and> n \<le> 90) \<or> (97 \<le> n \<and> n \<le> 122))"

definition ascii_alpha :: "char \<Rightarrow> bool" where
  "ascii_alpha c \<longleftrightarrow> (let n = of_char c :: int in (65 \<le> n \<and> n \<le> 90) \<or> (97 \<le> n \<and> n \<le> 122))"

definition drop_scheme :: "string \<Rightarrow> string option \<times> string" where
  "drop_scheme u =
     (let s = before CHR '':'' u in
      if CHR '':'' \<in> set u \<and> s \<noteq> [] \<and> ascii_alpha (hd s) \<and> list_all scheme_char s
      then (Some (lower s), after CHR '':'' u) else (None, u))"

definition clean_url :: "string \<Rightarrow> string" where
  "clean_url u = filter (\<lambda>c. c \<notin> {CHR 0x09, CHR 0x0D, CHR 0x0A})
     (dropWhile (\<lambda>c. (of_char c :: int) \<le> 32) u)"

definition netloc_of :: "string \<Rightarrow> string" where
  "netloc_of rest = (if take 2 rest = ''//''
     then takeWhile (\<lambda>c. c \<notin> set ''/?#'') (drop 2 rest) else [])"

definition ipvfuture :: "string \<Rightarrow> bool" where
  "ipvfuture h =
     (let d = takeWhile is_hexdigit (drop 1 h); r = drop (1 + length d) h in
      hd h = CHR ''v'' \<and> d \<noteq> [] \<and> take 1 r = ''.'' \<and> drop 1 r \<noteq> [] \<and> CHR 0x0A \<notin> set (drop 1 r))"

text \<open>A bracketed host is an IPv6 address or an \<open>IPvFuture\<close> literal, with nothing before the
  bracket and only a port after it.\<close>

definition bracket_ok :: "string \<Rightarrow> bool" where
  "bracket_ok netloc =
     (let hp = after_last CHR ''@'' netloc in
      if CHR ''['' \<in> set hp then
        let b = after CHR ''['' hp; h = before CHR '']'' b; port = after CHR '']'' b in
        before CHR ''['' hp = [] \<and> (port = [] \<or> hd port = CHR '':'') \<and>
        (if take 1 h = ''v'' then ipvfuture h
         else (case ip_address h of Some (V6 _) \<Rightarrow> True | _ \<Rightarrow> False))
      else
        let h = before CHR '':'' hp in
        (if take 1 h = ''v'' then ipvfuture h
         else (case ip_address h of Some (V6 _) \<Rightarrow> True | _ \<Rightarrow> False)))"

definition url_netloc :: "string \<Rightarrow> string option" where
  "url_netloc u =
     (let n = netloc_of (snd (drop_scheme (clean_url u)));
          opn = CHR ''['' \<in> set n; cls = CHR '']'' \<in> set n
      in if opn \<noteq> cls then None
         else if opn \<and> \<not> bracket_ok n then None
         else Some n)"

text \<open>\<open>None\<close>: \<open>ValueError\<close>; \<open>Some None\<close>: no host.\<close>

definition url_hostname :: "string \<Rightarrow> string option option" where
  "url_hostname u = (case url_netloc u of
      None \<Rightarrow> None
    | Some n \<Rightarrow>
        let hp = after_last CHR ''@'' n;
            h = (if CHR ''['' \<in> set hp then before CHR '']'' (after CHR ''['' hp) else before CHR '':'' hp)
        in if h = [] then Some None
           else Some (Some (lower (before CHR ''%'' h) @
                            (if CHR ''%'' \<in> set h then CHR ''%'' # after CHR ''%'' h else []))))"

end
