(* ===== verification/Safety.thy ===== *)
theory Safety
  imports AuditChain NetAddr
begin

text \<open>
  \<open>redsim/safety.py\<close>: the authorization gate. The host of a target, the allow list of names and
  networks, and \<open>authorize\<close>, which writes one audit event before it lets an operation pass or
  refuses it. The audit destination is a parameter: any \<open>append\<close> of the writer protocol.
\<close>

definition has_scheme_sep :: "string \<Rightarrow> bool" where
  "has_scheme_sep t = contains_sub ''://'' t"

definition strip_brackets :: "string \<Rightarrow> string" where
  "strip_brackets s =
     (let b = (\<lambda>c. c \<in> {CHR ''['', CHR '']''}) in rev (dropWhile b (rev (dropWhile b s))))"

text \<open>\<open>None\<close>: the \<open>ValueError\<close> of \<open>urlparse\<close>.\<close>

definition extract_host :: "string \<Rightarrow> string option" where
  "extract_host target =
     (case url_hostname (if has_scheme_sep target then target else ''//'' @ target) of
        None \<Rightarrow> None
      | Some h \<Rightarrow> Some (strip_brackets (if truthy h then the h else before CHR '':'' target)))"

definition entry_allows :: "string \<Rightarrow> string \<Rightarrow> bool" where
  "entry_allows host allowed =
     (host = allowed \<or>
      (case ip_address host of None \<Rightarrow> False | Some a \<Rightarrow> in_block a allowed))"

definition is_target_allowed :: "string \<Rightarrow> string list \<Rightarrow> bool option" where
  "is_target_allowed target allowlist =
     map_option (\<lambda>host. list_ex (entry_allows host) allowlist) (extract_host target)"

definition loopback_hosts :: "string list" where
  "loopback_hosts = [''localhost'', ''host.docker.internal'']"

definition is_loopback :: "string \<Rightarrow> bool option" where
  "is_loopback target =
     map_option (\<lambda>host. host \<in> set loopback_hosts \<or>
        (case ip_address host of None \<Rightarrow> False | Some a \<Rightarrow> is_loopback_ip a)) (extract_host target)"

subsection \<open>\<open>authorize\<close>\<close>

datatype auth_error =
    NotAuthorized string        \<comment> \<open>\<open>AuthorizationError\<close>\<close>
  | BadTarget                   \<comment> \<open>\<open>ValueError\<close> of the target's URL\<close>
  | NoAuditDestination          \<comment> \<open>\<open>ValueError\<close> of \<open>_resolve_writer\<close>\<close>
  | AuditFailed audit_error     \<comment> \<open>the append raised\<close>

record auth_req =
  rq_action :: string
  rq_target :: "string option"
  rq_allowlist :: "string list"
  rq_override :: bool
  rq_detail :: jdict
  rq_actor :: "string option"
  rq_run :: "string option"
  rq_project :: "string option"

text \<open>\<open>_resolve_writer\<close>: the explicit writer, else the single-file writer of the run directory.\<close>

definition pick_writer :: "('p \<Rightarrow> 'w) \<Rightarrow> 'w option \<Rightarrow> 'p option \<Rightarrow> (auth_error, 'w) result" where
  "pick_writer open_at writer run_path = (case writer of
      Some w \<Rightarrow> Inr w
    | None \<Rightarrow> (case run_path of None \<Rightarrow> Inl NoAuditDestination | Some p \<Rightarrow> Inr (open_at p)))"

definition auth_detail :: "auth_req \<Rightarrow> jdict" where
  "auth_detail q =
     (case rq_actor q of
        Some a \<Rightarrow> if dget (rq_detail q) ''actor'' = None then dset ''actor'' (JStr a) (rq_detail q)
                  else rq_detail q
      | None \<Rightarrow> rq_detail q)"

definition auth_call :: "auth_req \<Rightarrow> string \<Rightarrow> bool \<Rightarrow> bool \<Rightarrow> audit_call" where
  "auth_call q check override success =
     \<lparr>ac_action = rq_action q,
      ac_actor = (if truthy (rq_actor q) then the (rq_actor q) else ''cli:anonymous''),
      ac_target = rq_target q, ac_check = check, ac_override = override, ac_success = success,
      ac_detail = auth_detail q, ac_run = rq_run q, ac_project = rq_project q\<rparr>"

text \<open>\<open>_emit\<close>: a failing append leaves the writer as it was.\<close>

definition emit :: "(audit_call \<Rightarrow> int \<Rightarrow> 'w \<Rightarrow> (audit_error, 'w \<times> jdict) result) \<Rightarrow> int \<Rightarrow> audit_call \<Rightarrow> 'w
    \<Rightarrow> (auth_error, unit) result \<times> 'w" where
  "emit app now c w = (case app c now w of Inl e \<Rightarrow> (Inl (AuditFailed e), w) | Inr (w', _) \<Rightarrow> (Inr (), w'))"

definition authorize :: "(audit_call \<Rightarrow> int \<Rightarrow> 'w \<Rightarrow> (audit_error, 'w \<times> jdict) result) \<Rightarrow> int \<Rightarrow> auth_req \<Rightarrow> 'w
    \<Rightarrow> (auth_error, unit) result \<times> 'w" where
  "authorize app now q w = (case rq_target q of
      None \<Rightarrow> emit app now (auth_call q ''n/a'' (rq_override q) True) w
    | Some target \<Rightarrow> (case is_target_allowed target (rq_allowlist q) of
        None \<Rightarrow> (Inl BadTarget, w)
      | Some allowed \<Rightarrow>
          if \<not> allowed \<and> \<not> rq_override q then
            (case emit app now (auth_call q ''fail'' False False) w of
               (Inl e, w') \<Rightarrow> (Inl e, w')
             | (Inr _, w') \<Rightarrow> (Inl (NotAuthorized target), w'))
          else emit app now (auth_call q (if allowed then ''pass'' else ''override'')
                              (rq_override q \<and> \<not> allowed) True) w))"

text \<open>The decision apart from the audit trail.\<close>

definition permitted :: "auth_req \<Rightarrow> bool" where
  "permitted q = (case rq_target q of
      None \<Rightarrow> True
    | Some t \<Rightarrow> is_target_allowed t (rq_allowlist q) = Some True \<or>
        (is_target_allowed t (rq_allowlist q) \<noteq> None \<and> rq_override q))"

abbreviation req_chain :: "auth_req \<Rightarrow> string" where
  "req_chain q \<equiv> chain_id_of (rq_project q) (rq_run q)"

lemma auth_call_chain [simp]: "call_chain (auth_call q a b c) = req_chain q"
  by (simp add: auth_call_def)

text \<open>The four outcomes of \<open>authorize\<close>.\<close>

lemma authorize_cases:
  obtains (bad) "authorize app now q w = (Inl BadTarget, w)" "\<not> permitted q"
  | (failed) e where "authorize app now q w = (Inl (AuditFailed e), w)"
  | (passed) c w' ev where "authorize app now q w = (Inr (), w')" "permitted q"
      "app c now w = Inr (w', ev)" "call_chain c = req_chain q" "ac_success c" "ac_action c = rq_action q"
  | (refused) t c w' ev where "authorize app now q w = (Inl (NotAuthorized t), w')" "\<not> permitted q"
      "app c now w = Inr (w', ev)" "call_chain c = req_chain q" "\<not> ac_success c" "ac_action c = rq_action q"
proof -
  define ch where "ch = (\<lambda>t al. auth_call q (if al then ''pass'' else ''override'') (rq_override q \<and> \<not> al) True)"
  have f: "ac_success (auth_call q a b c) = c" "ac_action (auth_call q a b c) = rq_action q" for a b c
    by (simp_all add: auth_call_def)
  consider "rq_target q = None"
    | t where "rq_target q = Some t" "is_target_allowed t (rq_allowlist q) = None"
    | t al where "rq_target q = Some t" "is_target_allowed t (rq_allowlist q) = Some al" "\<not> al \<and> \<not> rq_override q"
    | t al where "rq_target q = Some t" "is_target_allowed t (rq_allowlist q) = Some al" "al \<or> rq_override q"
    by (cases "rq_target q") (auto, metis option.exhaust)
  then show thesis
  proof cases
    case 1
    let ?c = "auth_call q ''n/a'' (rq_override q) True"
    show ?thesis
    proof (cases "app ?c now w")
      case (Inl e) then show ?thesis using 1 failed by (simp add: authorize_def emit_def)
    next
      case (Inr p)
      then show ?thesis using 1 passed [of "fst p" ?c "snd p"] f by (cases p) (simp add: authorize_def emit_def permitted_def)
    qed
  next
    case 2 then show ?thesis using bad by (simp add: authorize_def permitted_def)
  next
    case (3 t al)
    let ?c = "auth_call q ''fail'' False False"
    show ?thesis
    proof (cases "app ?c now w")
      case (Inl e) then show ?thesis using 3 failed by (simp add: authorize_def emit_def)
    next
      case (Inr p)
      then show ?thesis using 3 refused [of t "fst p" ?c "snd p"] f by (cases p) (simp add: authorize_def emit_def permitted_def)
    qed
  next
    case (4 t al)
    let ?c = "auth_call q (if al then ''pass'' else ''override'') (rq_override q \<and> \<not> al) True"
    have a: "authorize app now q w = emit app now ?c w" using 4 by (auto simp: authorize_def)
    show ?thesis
    proof (cases "app ?c now w")
      case (Inl e) then show ?thesis using a failed by (simp add: emit_def)
    next
      case (Inr p)
      moreover have "permitted q" using 4 by (auto simp: permitted_def)
      ultimately show ?thesis using a passed [of "fst p" ?c "snd p"] f by (cases p) (simp add: emit_def)
    qed
  qed
qed

context audit_writer
begin

text \<open>A decision that is not lost to the audit store leaves exactly one event, with its outcome.\<close>

lemma authorize_recorded:
  assumes g: "good (req_chain q) w" and a: "authorize append now q w = (r, w')"
    and r: "r = Inr () \<or> (\<exists>t. r = Inl (NotAuthorized t))"
  shows "good (req_chain q) w' \<and> (\<exists>ev. read (req_chain q) w' = read (req_chain q) w @ [ev] \<and>
    jget ev ''action'' = JStr (rq_action q) \<and> jget ev ''success'' = JBool (r = Inr ()))"
proof -
  have step: "good (req_chain q) w' \<and> (\<exists>ev. read (req_chain q) w' = read (req_chain q) w @ [ev] \<and>
      jget ev ''action'' = JStr (rq_action q) \<and> jget ev ''success'' = JBool (ac_success c))"
    if h1: "append c now w = Inr (w', e)" and h2: "call_chain c = req_chain q" and h3: "ac_action c = rq_action q" for c e
  proof -
    obtain rr where rr: "read (req_chain q) w' = read (req_chain q) w @ [rr]" "map_of rr = map_of e"
      using read_append [OF _ h1] g h2 by auto
    then have "jget rr k = jget e k" for k by (simp add: jget_def)
    then show ?thesis
      using rr event_action [OF h1] event_success [OF h1] append_good [OF _ h1] g h2 h3
      by auto
  qed
  show ?thesis
  proof (cases rule: authorize_cases [of append now q w])
    case (passed c w2 ev)
    then show ?thesis using a step [of c ev] by auto
  next
    case (refused t c w2 ev)
    then show ?thesis using a step [of c ev] by auto
  qed (use a r in auto)
qed

end

lemma authorize_permitted: "fst (authorize app now q w) = Inr () \<Longrightarrow> permitted q"
  by (cases rule: authorize_cases [of app now q w]) auto

lemma authorize_refused: "fst (authorize app now q w) = Inl (NotAuthorized t) \<Longrightarrow> \<not> permitted q"
  by (cases rule: authorize_cases [of app now q w]) auto

subsection \<open>Properties\<close>

text \<open>C1. The gate, over the Postgres writer: an operation passes only when it has no target, an
  allowed target or an explicit override; a pass and a refusal each leave exactly one new audit
  event on the operation's chain, for its action, whose success flag is the decision; every other
  outcome (malformed target, failed append) leaves the audit store as it was.\<close>

theorem authorize_gate:
  assumes "pg_good (req_chain q) w" and "authorize pg_append now q w = (r, w')"
  shows "(r = Inr () \<longrightarrow> permitted q) \<and>
    (if r = Inr () \<or> (\<exists>t. r = Inl (NotAuthorized t))
     then \<exists>ev. pg_read zone (req_chain q) w' = pg_read zone (req_chain q) w @ [ev] \<and>
            jget ev ''action'' = JStr (rq_action q) \<and> jget ev ''success'' = JBool (r = Inr ())
     else w' = w)"
proof -
  have "r = Inr () \<longrightarrow> permitted q" using authorize_permitted [of pg_append now q w] assms(2) by auto
  moreover have "w' = w" if "\<not> (r = Inr () \<or> (\<exists>t. r = Inl (NotAuthorized t)))"
    using that assms(2) by (cases rule: authorize_cases [of pg_append now q w]) auto
  ultimately show ?thesis using pgw.authorize_recorded [OF assms] by auto
qed

theorem authorize_gate_witness:
  "\<exists>q. rq_target q = Some ''http://10.1.0.5:80/x'' \<and> rq_allowlist q = [''10.0.0.0/16''] \<and>
     fst (authorize pg_append 0 q \<lparr>pg_heads = [], pg_rows = []\<rparr>) \<noteq> Inr ()"
proof -
  let ?q = "\<lparr>rq_action = ''scan.start'', rq_target = Some ''http://10.1.0.5:80/x'',
    rq_allowlist = [''10.0.0.0/16''], rq_override = False, rq_detail = [], rq_actor = None,
    rq_run = Some ''r1'', rq_project = None\<rparr>"
  let ?w = "\<lparr>pg_heads = [], pg_rows = []\<rparr>"
  have "is_target_allowed ''http://10.1.0.5:80/x'' [''10.0.0.0/16''] = Some False" by code_simp
  then have np: "\<not> permitted ?q" by (simp add: permitted_def)
  have g: "pg_good (req_chain ?q) ?w" using pg_empty_good by (simp add: pg_all_good_def)
  obtain r w' where a: "authorize pg_append 0 ?q ?w = (r, w')" by fastforce
  have "r \<noteq> Inr ()" using authorize_gate [OF g a] np by blast
  then show ?thesis using a by (intro exI [of _ ?q]) simp
qed

end
