(* ===== verification/JobState.thy ===== *)
theory JobState
  imports Safety
begin

text \<open>
  The lifecycle of jobs and runs: the transition guard (\<open>workers/job_state.py\<close>), the roll-up and
  the cancellation of a run (\<open>services/runs.py\<close>), the stale-job reaper
  (\<open>workers/tasks/reaper.py\<close>) and the setup and teardown of a task
  (\<open>workers/bootstrap.py\<close>). The tables are part of an explicit database state; a session works on
  a copy that a commit publishes and a rollback discards. Statuses are the source's strings.
\<close>

subsection \<open>Rows\<close>

record job =
  j_run :: string
  j_project :: string
  j_type :: string
  j_status :: string
  j_celery :: "string option"
  j_created_by :: "string option"
  j_created_at :: int
  j_started :: "int option"
  j_completed :: "int option"
  j_error :: "string option"
  j_detail :: jdict

record run =
  r_project :: string
  r_status :: string
  r_completed :: "int option"
  r_stage :: jdict

record db =
  db_jobs :: "(string, job) dict"
  db_runs :: "(string, run) dict"

subsection \<open>The transition guard\<close>

definition allowed_status :: "(string, string list) dict" where
  "allowed_status =
     [(''queued'', [''running'', ''cancelled'']),
      (''running'', [''succeeded'', ''failed'', ''cancelled'', ''queued'']),
      (''succeeded'', []), (''failed'', []), (''cancelled'', [])]"

datatype job_error = IllegalJobTransition string string

definition may_become :: "string \<Rightarrow> string \<Rightarrow> bool" where
  "may_become current new = (new \<in> set (dget_or [] allowed_status current))"

definition set_job_status :: "string \<Rightarrow> job \<Rightarrow> (job_error, job) result" where
  "set_job_status new j =
     (if new = j_status j then Inr j
      else if \<not> may_become (j_status j) new then Inl (IllegalJobTransition (j_status j) new)
      else Inr (j\<lparr>j_status := new\<rparr>))"

definition terminal_statuses :: "string list" where
  "terminal_statuses = [''succeeded'', ''failed'', ''cancelled'']"

definition is_terminal :: "string \<Rightarrow> bool" where
  "is_terminal s = (s \<in> set terminal_statuses)"

subsection \<open>Roll-up\<close>

datatype run_error =
    RunLookup string                    \<comment> \<open>\<open>LookupError\<close>\<close>
  | TerminalRun string string           \<comment> \<open>\<open>TerminalRunError\<close>\<close>
  | RunAuth auth_error
  | RunJob job_error

definition run_statuses :: "string \<Rightarrow> db \<Rightarrow> string list" where
  "run_statuses rid d = map (\<lambda>(_, j). j_status j) (filter (\<lambda>(_, j). j_run j = rid) (db_jobs d))"

definition put_run :: "string \<Rightarrow> run \<Rightarrow> db \<Rightarrow> db" where
  "put_run rid r d = d\<lparr>db_runs := dset rid r (db_runs d)\<rparr>"

definition put_job :: "string \<Rightarrow> job \<Rightarrow> db \<Rightarrow> db" where
  "put_job jid j d = d\<lparr>db_jobs := dset jid j (db_jobs d)\<rparr>"

definition rollup_run_status :: "int \<Rightarrow> string \<Rightarrow> db \<Rightarrow> (run_error, string \<times> db) result" where
  "rollup_run_status now rid d = (case dget (db_runs d) rid of
      None \<Rightarrow> Inl (RunLookup rid)
    | Some r \<Rightarrow>
        if is_terminal (r_status r) then Inr (r_status r, d)
        else let statuses = run_statuses rid d in
          if statuses = [] then Inr (r_status r, d)
          else
            let r' = (if list_all is_terminal statuses then
                        r\<lparr>r_status := (if ''failed'' \<in> set statuses then ''failed''
                                      else if ''succeeded'' \<in> set statuses then ''succeeded''
                                      else ''cancelled''),
                          r_completed := Some now\<rparr>
                      else if list_all (\<lambda>s. s = ''queued'') statuses then
                        r\<lparr>r_status := ''queued'', r_completed := None\<rparr>
                      else r\<lparr>r_status := ''running'', r_completed := None\<rparr>)
            in Inr (r_status r', put_run rid r' d))"

subsection \<open>Cancellation\<close>

record cancel_outcome =
  co_run :: string
  co_status :: string
  co_jobs :: nat

definition cancel_call :: "string \<Rightarrow> string \<Rightarrow> string \<Rightarrow> string \<Rightarrow> audit_call" where
  "cancel_call rid actor run_status project =
     \<lparr>ac_action = ''run.cancel'', ac_actor = actor, ac_target = None, ac_check = ''n/a'',
      ac_override = False, ac_success = False,
      ac_detail = [(''actor'', JStr actor), (''run_id'', JStr rid),
                   (''reason'', JStr ''run_terminal''), (''run_status'', JStr run_status)],
      ac_run = Some rid, ac_project = Some project\<rparr>"

definition cancel_req :: "string \<Rightarrow> string \<Rightarrow> string list \<Rightarrow> string \<Rightarrow> auth_req" where
  "cancel_req rid actor allowlist project =
     \<lparr>rq_action = ''run.cancel'', rq_target = None, rq_allowlist = allowlist, rq_override = False,
      rq_detail = [(''actor'', JStr actor), (''run_id'', JStr rid)],
      rq_actor = Some actor, rq_run = Some rid, rq_project = Some project\<rparr>"

text \<open>The \<open>_refuse_terminal\<close> row, then the error.\<close>

definition refuse_terminal :: "(audit_call \<Rightarrow> int \<Rightarrow> 'w \<Rightarrow> (audit_error, 'w \<times> jdict) result) \<Rightarrow> int \<Rightarrow>
    string \<Rightarrow> string \<Rightarrow> run \<Rightarrow> string \<Rightarrow> 'w \<Rightarrow> run_error \<times> 'w" where
  "refuse_terminal app now rid actor r project w =
     (case emit app now (cancel_call rid actor (r_status r) project) w of
        (Inl e, w') \<Rightarrow> (RunAuth e, w')
      | (Inr _, w') \<Rightarrow> (TerminalRun rid (r_status r), w'))"

text \<open>Both selected states legally become \<open>cancelled\<close>; \<open>set_job_status\<close> guards the write.\<close>

definition cancel_job :: "int \<Rightarrow> job \<Rightarrow> job" where
  "cancel_job now j = (case set_job_status ''cancelled'' j of Inl _ \<Rightarrow> j
     | Inr j' \<Rightarrow> j'\<lparr>j_completed := Some now\<rparr>)"

definition cancellable :: "string \<Rightarrow> job \<Rightarrow> bool" where
  "cancellable rid j \<longleftrightarrow> j_run j = rid \<and> j_status j \<in> {''queued'', ''running''}"

definition cancel_rows :: "int \<Rightarrow> string \<Rightarrow> run \<Rightarrow> db \<Rightarrow> db" where
  "cancel_rows now rid r d =
     \<lparr>db_jobs = map (\<lambda>(k, j). (k, if cancellable rid j then cancel_job now j else j)) (db_jobs d),
      db_runs = dset rid (r\<lparr>r_status := ''cancelled'', r_completed := Some now\<rparr>) (db_runs d)\<rparr>"

text \<open>
  \<open>d1\<close> is what the first session reads, \<open>d2\<close> the database when the second one starts: other
  workers may have committed in between. The revocations of the Celery tasks are best effort and
  touch no row.
\<close>

definition cancel_run :: "(audit_call \<Rightarrow> int \<Rightarrow> 'w \<Rightarrow> (audit_error, 'w \<times> jdict) result) \<Rightarrow> int \<Rightarrow>
    string \<Rightarrow> string \<Rightarrow> string list \<Rightarrow> 'w \<Rightarrow> db \<Rightarrow> db \<Rightarrow> (run_error, cancel_outcome) result \<times> 'w \<times> db" where
  "cancel_run app now rid actor allowlist w d1 d2 = (case dget (db_runs d1) rid of
      None \<Rightarrow> (Inl (RunLookup rid), w, d2)
    | Some r1 \<Rightarrow>
        let project = r_project r1 in
        if is_terminal (r_status r1) then
          (case refuse_terminal app now rid actor r1 project w of (e, w') \<Rightarrow> (Inl e, w', d2))
        else (case authorize app now (cancel_req rid actor allowlist project) w of
            (Inl e, w') \<Rightarrow> (Inl (RunAuth e), w', d2)
          | (Inr _, w') \<Rightarrow> (case dget (db_runs d2) rid of
                None \<Rightarrow> (Inl (RunLookup rid), w', d2)
              | Some r2 \<Rightarrow>
                  if is_terminal (r_status r2) then
                    (case refuse_terminal app now rid actor r2 project w' of (e, w'') \<Rightarrow> (Inl e, w'', d2))
                  else (Inr \<lparr>co_run = rid, co_status = ''cancelled'',
                             co_jobs = count_if (\<lambda>(_, j). cancellable rid j) (db_jobs d2)\<rparr>,
                        w', cancel_rows now rid r2 d2))))"

subsection \<open>The reaper\<close>

definition reaped_error :: string where
  "reaped_error = ''reaped: exceeded max runtime TTL''"

text \<open>\<open>dict(table.get("jobs") or {})\<close> and the nested entry of one job.\<close>

definition sub_dict :: "jdict \<Rightarrow> string \<Rightarrow> jdict" where
  "sub_dict t k = (case jget t k of JObj d \<Rightarrow> d | _ \<Rightarrow> [])"

definition put_stage :: "string \<Rightarrow> jdict \<Rightarrow> jdict \<Rightarrow> jdict" where
  "put_stage jid entry t = dset ''jobs'' (JObj (dset jid (JObj entry) (sub_dict t ''jobs''))) t"

definition merge_entry :: "jdict \<Rightarrow> jdict \<Rightarrow> jdict" where
  "merge_entry old new = fold (\<lambda>(k, v) d. dset k v d) new old"

definition mark_stage_failed :: "string \<Rightarrow> job \<Rightarrow> db \<Rightarrow> db" where
  "mark_stage_failed jid j d = (case dget (db_runs d) (j_run j) of
      None \<Rightarrow> d
    | Some r \<Rightarrow>
        let entry = merge_entry (sub_dict (sub_dict (r_stage r) ''jobs'') jid)
              [(''type'', JStr (j_type j)), (''status'', JStr ''failed''), (''error'', JStr reaped_error)];
            t = dset ''error'' (JStr reaped_error) (put_stage jid entry (r_stage r))
        in put_run (j_run j) (r\<lparr>r_stage := t\<rparr>) d)"

definition is_stale :: "int \<Rightarrow> job \<Rightarrow> bool" where
  "is_stale cutoff j \<longleftrightarrow> j_status j = ''running'' \<and>
     (case j_started j of None \<Rightarrow> False | Some t \<Rightarrow> t < cutoff)"

definition fail_job :: "int \<Rightarrow> string \<Rightarrow> job \<Rightarrow> (job_error, job) result" where
  "fail_job now err j = rbind (set_job_status ''failed'' j)
     (\<lambda>j'. Inr (j'\<lparr>j_completed := Some now, j_error := Some err\<rparr>))"

fun reap_jobs :: "int \<Rightarrow> (string \<times> job) list \<Rightarrow> db \<Rightarrow> (job_error, db) result" where
  "reap_jobs now [] d = Inr d"
| "reap_jobs now ((jid, j) # js) d =
     rbind (fail_job now reaped_error j) (\<lambda>j'.
       reap_jobs now js (mark_stage_failed jid j' (put_job jid j' d)))"

text \<open>A missing run is logged and skipped.\<close>

fun rollup_all :: "int \<Rightarrow> string list \<Rightarrow> db \<Rightarrow> db" where
  "rollup_all now [] d = d"
| "rollup_all now (rid # rids) d = (case rollup_run_status now rid d of
      Inl _ \<Rightarrow> rollup_all now rids d
    | Inr (_, d') \<Rightarrow> rollup_all now rids d')"

definition reap_stale_jobs :: "int \<Rightarrow> int \<Rightarrow> db \<Rightarrow> (job_error, nat \<times> db) result" where
  "reap_stale_jobs ttl now d =
     (let stale = filter (\<lambda>(_, j). is_stale (now - ttl) j) (db_jobs d) in
      rbind (reap_jobs now stale d) (\<lambda>d'.
        Inr (length stale, rollup_all now (sort (dedup (map (\<lambda>(_, j). j_run j) stale))) d')))"

subsection \<open>Task setup and teardown\<close>

definition worker_actor :: "string option \<Rightarrow> string" where
  "worker_actor ty = (if truthy ty then ''worker:'' @ the ty else ''system:worker'')"

datatype pickup = PickMissing | PickSkip | PickRun db

text \<open>The guard and the transition to \<open>running\<close>, up to the flush.\<close>

definition task_pickup :: "int \<Rightarrow> string option \<Rightarrow> string \<Rightarrow> db \<Rightarrow> (job_error, pickup) result" where
  "task_pickup now celery jid d = (case dget (db_jobs d) jid of
      None \<Rightarrow> Inr PickMissing
    | Some j \<Rightarrow>
        if j_status j \<noteq> ''queued'' then Inr PickSkip
        else rbind (set_job_status ''running'' j) (\<lambda>j1.
          let j2 = j1\<lparr>j_started := Some now, j_celery := (if celery = None then j_celery j1 else celery)\<rparr>;
              d1 = put_job jid j2 d
          in Inr (PickRun (case dget (db_runs d1) (j_run j) of
               None \<Rightarrow> d1
             | Some r \<Rightarrow>
                 if is_terminal (r_status r) then d1
                 else put_run (j_run j) (r\<lparr>r_status := ''running'',
                        r_stage := put_stage jid [(''type'', JStr (j_type j)), (''status'', JStr ''running'')] (r_stage r)\<rparr>) d1))))"

text \<open>The success path on the rows as re-read under lock; \<open>None\<close> is a suppressed success.\<close>

definition finish_success :: "int \<Rightarrow> string \<Rightarrow> string \<Rightarrow> string \<Rightarrow> db \<Rightarrow> (run_error, db option) result" where
  "finish_success now jid rid ty d = (case (dget (db_jobs d) jid, dget (db_runs d) rid) of
      (Some j, Some r) \<Rightarrow>
        if \<not> may_become (j_status j) ''succeeded'' \<or> r_status r = ''cancelled'' then Inr None
        else (case set_job_status ''succeeded'' j of
            Inl e \<Rightarrow> Inl (RunJob e)
          | Inr j1 \<Rightarrow>
              let d1 = put_job jid (j1\<lparr>j_completed := Some now\<rparr>) d;
                  entry = merge_entry (sub_dict (sub_dict (r_stage r) ''jobs'') jid)
                            [(''type'', JStr ty), (''status'', JStr ''succeeded'')];
                  d2 = put_run rid (r\<lparr>r_stage := put_stage jid entry (r_stage r)\<rparr>) d1
              in rbind (rollup_run_status now rid d2) (\<lambda>(_, d3). Inr (Some d3)))
    | _ \<Rightarrow> Inr None)"

text \<open>The requeue of a transient failure on the rows after the rollback; \<open>None\<close>: not retried.\<close>

definition requeue_job :: "string \<Rightarrow> db \<Rightarrow> (job_error, db) result option" where
  "requeue_job jid d = (case dget (db_jobs d) jid of
      None \<Rightarrow> Some (Inr d)
    | Some j \<Rightarrow>
        if \<not> may_become (j_status j) ''queued'' then None
        else Some (rbind (set_job_status ''queued'' j) (\<lambda>j1. Inr (put_job jid (j1\<lparr>j_started := None\<rparr>) d))))"

datatype fail_result = FailMissing | FailIllegal | FailWritten db

text \<open>The terminal failure on the rows after the rollback.\<close>

definition finish_fail :: "int \<Rightarrow> string \<Rightarrow> string \<Rightarrow> string \<Rightarrow> string \<Rightarrow> db \<Rightarrow> (run_error, fail_result) result" where
  "finish_fail now jid rid err trace d = (case dget (db_jobs d) jid of
      None \<Rightarrow> Inr FailMissing
    | Some j \<Rightarrow>
        if \<not> may_become (j_status j) ''failed'' then Inr FailIllegal
        else (case fail_job now trace j of
            Inl e \<Rightarrow> Inl (RunJob e)
          | Inr j1 \<Rightarrow>
              let d1 = put_job jid j1 d;
                  d2 = (case dget (db_runs d1) rid of
                     None \<Rightarrow> d1
                   | Some r \<Rightarrow> put_run rid (r\<lparr>r_stage := dset ''error'' (JStr err)
                       (put_stage jid [(''type'', JStr (j_type j)), (''status'', JStr ''failed''), (''error'', JStr err)]
                         (r_stage r))\<rparr>) d1)
              in rbind (rollup_run_status now rid d2) (\<lambda>(_, d3). Inr (FailWritten d3))))"

subsection \<open>\<open>task_context\<close>\<close>

text \<open>The environment of a worker: the audit writer, the configured allow list, the row counts
  and body-supplied fields of a completion event, its duration, and which failures count as
  transient (\<open>_transient_errors\<close>).\<close>

record 'w task_env =
  te_append :: "audit_call \<Rightarrow> int \<Rightarrow> 'w \<Rightarrow> (audit_error, 'w \<times> jdict) result"
  te_allowlist :: "string list"
  te_counts :: jdict
  te_extra :: jdict
  te_duration :: json
  te_transient :: "auth_error \<Rightarrow> bool"

record task_args =
  ta_job :: string
  ta_bound :: bool                      \<comment> \<open>a bound task was supplied\<close>
  ta_name :: "string option"
  ta_request :: "string option"
  ta_retries :: nat
  ta_max_retries :: nat
  ta_commit_running :: bool
  ta_emit :: bool

datatype body_outcome = BodyOk | BodyRaise bool string string  \<comment> \<open>transient, error, traceback\<close>
  | BodyRetry

datatype task_result = TaskMissing | TaskSkipped | TaskSuppressed | TaskSucceeded | TaskRetried
  | TaskRaised string | TaskRetryRaised | TaskRunError run_error

record 'w task_out =
  to_result :: task_result
  to_db :: db
  to_audit :: 'w
  to_events :: "string list"
  to_metrics :: "string list"

definition ml_campaign_task_names :: "string list" where
  "ml_campaign_task_names = [''redsim.ml_campaign_run'']"

definition counts_campaign :: "task_args \<Rightarrow> bool" where
  "counts_campaign a = (case ta_name a of None \<Rightarrow> False | Some n \<Rightarrow> n \<in> set ml_campaign_task_names)"

definition metric :: "task_args \<Rightarrow> string \<Rightarrow> string list" where
  "metric a s = (if counts_campaign a then [s] else [])"

definition complete_detail :: "'w task_env \<Rightarrow> string \<Rightarrow> job \<Rightarrow> string \<Rightarrow> jdict" where
  "complete_detail env jid j status = merge_entry
     [(''job_id'', JStr jid), (''job_type'', JStr (j_type j)), (''status'', JStr status),
      (''run_id'', JStr (j_run j)), (''duration_s'', te_duration env)]
     (te_counts env @ te_extra env)"

definition emit_complete_ok :: "'w task_env \<Rightarrow> int \<Rightarrow> string \<Rightarrow> job \<Rightarrow> 'w \<Rightarrow> (auth_error, unit) result \<times> 'w" where
  "emit_complete_ok env now jid j w = authorize (te_append env) now
     \<lparr>rq_action = ''job.complete'', rq_target = None, rq_allowlist = te_allowlist env,
      rq_override = False, rq_detail = complete_detail env jid j ''succeeded'',
      rq_actor = Some (worker_actor (Some (j_type j))), rq_run = Some (j_run j), rq_project = Some (j_project j)\<rparr> w"

text \<open>The failure row is best effort: a failing append is swallowed.\<close>

definition emit_complete_failed :: "'w task_env \<Rightarrow> int \<Rightarrow> string \<Rightarrow> string \<Rightarrow> job \<Rightarrow> 'w \<Rightarrow> 'w" where
  "emit_complete_failed env now jid err j w =
     (let actor = worker_actor (Some (j_type j)) in
      snd (emit (te_append env) now
       \<lparr>ac_action = ''job.complete'', ac_actor = actor, ac_target = None, ac_check = ''n/a'',
        ac_override = False, ac_success = False,
        ac_detail = merge_entry (complete_detail env jid j ''failed'')
          [(''error_class'', JStr (before CHR '':'' err)), (''actor'', JStr actor)],
        ac_run = Some (j_run j), ac_project = Some (j_project j)\<rparr> w))"

text \<open>The terminal failure; \<open>base\<close> is the database after the rollback.\<close>

definition task_fail :: "'w task_env \<Rightarrow> task_args \<Rightarrow> int \<Rightarrow> job \<Rightarrow> string \<Rightarrow> string \<Rightarrow> db \<Rightarrow> 'w \<Rightarrow> 'w task_out" where
  "task_fail env a now j err trace base w = (case finish_fail now (ta_job a) (j_run j) err trace base of
      Inl e \<Rightarrow> \<lparr>to_result = TaskRunError e, to_db = base, to_audit = w, to_events = [''running''], to_metrics = []\<rparr>
    | Inr FailMissing \<Rightarrow> \<lparr>to_result = TaskRaised err, to_db = base, to_audit = w,
        to_events = [''running'', ''failed''], to_metrics = metric a ''failed''\<rparr>
    | Inr FailIllegal \<Rightarrow> \<lparr>to_result = TaskRaised err, to_db = base, to_audit = w,
        to_events = [''running''], to_metrics = metric a ''cancelled''\<rparr>
    | Inr (FailWritten d) \<Rightarrow> \<lparr>to_result = TaskRaised err, to_db = d,
        to_audit = (if ta_emit a then emit_complete_failed env now (ta_job a) err j w else w),
        to_events = [''running'', ''failed''], to_metrics = metric a ''failed''\<rparr>)"

text \<open>A failure: requeued when it is transient and retries remain, else terminal.\<close>

definition task_except :: "'w task_env \<Rightarrow> task_args \<Rightarrow> int \<Rightarrow> job \<Rightarrow> bool \<Rightarrow> string \<Rightarrow> string \<Rightarrow> db \<Rightarrow> 'w \<Rightarrow> 'w task_out" where
  "task_except env a now j transient err trace base w =
     (if ta_bound a \<and> transient \<and> ta_retries a < ta_max_retries a then
        (case requeue_job (ta_job a) base of
           None \<Rightarrow> task_fail env a now j err trace base w
         | Some (Inl e) \<Rightarrow> \<lparr>to_result = TaskRunError (RunJob e), to_db = base, to_audit = w,
             to_events = [''running''], to_metrics = []\<rparr>
         | Some (Inr d) \<Rightarrow> \<lparr>to_result = TaskRetried, to_db = d, to_audit = w,
             to_events = [''running''], to_metrics = []\<rparr>)
      else task_fail env a now j err trace base w)"

text \<open>
  The whole context. \<open>world\<close> is what other sessions, and commits of the body itself, do to the
  database while the body runs; it takes effect only once the transition to \<open>running\<close> is
  committed, since before that the session holds the locks of the job and run rows. \<open>body\<close> is
  what the body's own transaction has written when it ends.
\<close>

definition task_context :: "'w task_env \<Rightarrow> task_args \<Rightarrow> int \<Rightarrow> int \<Rightarrow> (db \<Rightarrow> db) \<Rightarrow> (db \<Rightarrow> db) \<Rightarrow> body_outcome
    \<Rightarrow> db \<Rightarrow> 'w \<Rightarrow> 'w task_out" where
  "task_context env a t0 t1 world body outcome d w =
     (case dget (db_jobs d) (ta_job a) of
        None \<Rightarrow> \<lparr>to_result = TaskMissing, to_db = d, to_audit = w, to_events = [], to_metrics = []\<rparr>
      | Some j \<Rightarrow> (case task_pickup t0 (ta_request a) (ta_job a) d of
          Inl e \<Rightarrow> \<lparr>to_result = TaskRunError (RunJob e), to_db = d, to_audit = w, to_events = [], to_metrics = []\<rparr>
        | Inr PickMissing \<Rightarrow> \<lparr>to_result = TaskMissing, to_db = d, to_audit = w, to_events = [], to_metrics = []\<rparr>
        | Inr PickSkip \<Rightarrow> \<lparr>to_result = TaskSkipped, to_db = d, to_audit = w, to_events = [], to_metrics = []\<rparr>
        | Inr (PickRun d1) \<Rightarrow>
            let base = (if ta_commit_running a then world d1 else d);
                seen = body (if ta_commit_running a then world d1 else d1)
            in (case outcome of
                BodyRetry \<Rightarrow> \<lparr>to_result = TaskRetryRaised, to_db = base, to_audit = w,
                  to_events = [''running''], to_metrics = []\<rparr>
              | BodyRaise transient err trace \<Rightarrow> task_except env a t1 j transient err trace base w
              | BodyOk \<Rightarrow> (case finish_success t1 (ta_job a) (j_run j) (j_type j) seen of
                    Inl e \<Rightarrow> task_except env a t1 j False ''LookupError'' ''LookupError'' base w
                  | Inr None \<Rightarrow> \<lparr>to_result = TaskSuppressed, to_db = base, to_audit = w,
                      to_events = [''running''], to_metrics = metric a ''cancelled''\<rparr>
                  | Inr (Some d3) \<Rightarrow>
                      (case (if ta_emit a then emit_complete_ok env t1 (ta_job a) j w else (Inr (), w)) of
                         (Inl e, w') \<Rightarrow> task_except env a t1 j (te_transient env e) ''AuditError'' ''AuditError'' base w'
                       | (Inr _, w') \<Rightarrow> \<lparr>to_result = TaskSucceeded, to_db = d3, to_audit = w',
                           to_events = [''running'', ''succeeded''], to_metrics = metric a ''succeeded''\<rparr>)))))"

subsection \<open>Terminal states are sinks\<close>

lemma may_become_cases:
  "may_become s t \<longleftrightarrow> (s = ''queued'' \<and> t \<in> {''running'', ''cancelled''}) \<or>
     (s = ''running'' \<and> t \<in> {''succeeded'', ''failed'', ''cancelled'', ''queued''})"
  by (auto simp: may_become_def allowed_status_def dget_or_def split: if_splits)

lemma may_become_not_terminal: "may_become s t \<Longrightarrow> \<not> is_terminal s"
  by (auto simp: may_become_cases is_terminal_def terminal_statuses_def)

lemma set_job_status_Inr:
  "set_job_status new j = Inr j' \<longleftrightarrow> (new = j_status j \<or> may_become (j_status j) new) \<and> j' = j\<lparr>j_status := new\<rparr>"
  by (auto simp: set_job_status_def)

lemma is_terminal_simps [simp]:
  "is_terminal ''succeeded''" "is_terminal ''failed''" "is_terminal ''cancelled''"
  "\<not> is_terminal ''queued''" "\<not> is_terminal ''running''"
  by (simp_all add: is_terminal_def terminal_statuses_def)

lemma put_job_simps [simp]:
  "dget (db_jobs (put_job k j d)) k' = (if k' = k then Some j else dget (db_jobs d) k')"
  "db_runs (put_job k j d) = db_runs d"
  by (simp_all add: put_job_def)

lemma put_run_simps [simp]:
  "dget (db_runs (put_run k r d)) k' = (if k' = k then Some r else dget (db_runs d) k')"
  "db_jobs (put_run k r d) = db_jobs d"
  by (simp_all add: put_run_def)

text \<open>What every operation respects: rows do not disappear, a terminal job is never written
  again, a terminal run keeps its status and completion time.\<close>

definition evolves :: "db \<Rightarrow> db \<Rightarrow> bool" where
  "evolves d d' \<longleftrightarrow>
     (\<forall>k j. dget (db_jobs d) k = Some j \<longrightarrow> (\<exists>j'. dget (db_jobs d') k = Some j' \<and> j_run j' = j_run j \<and>
        (is_terminal (j_status j) \<longrightarrow> j' = j))) \<and>
     (\<forall>k r. dget (db_runs d) k = Some r \<longrightarrow> (\<exists>r'. dget (db_runs d') k = Some r' \<and>
        (is_terminal (r_status r) \<longrightarrow> r_status r' = r_status r \<and> r_completed r' = r_completed r)))"

lemma evolves_refl [simp]: "evolves d d"
  by (auto simp: evolves_def)

lemma evolves_trans: "evolves d d' \<Longrightarrow> evolves d' d'' \<Longrightarrow> evolves d d''"
  unfolding evolves_def by (intro conjI allI impI; elim conjE; metis)

lemma evolves_put_job:
  "(\<And>j0. dget (db_jobs d) k = Some j0 \<Longrightarrow> j_run j = j_run j0 \<and> (is_terminal (j_status j0) \<longrightarrow> j = j0)) \<Longrightarrow>
   evolves d (put_job k j d)"
  by (auto simp: evolves_def)

lemma evolves_put_run:
  "(\<And>r0. dget (db_runs d) k = Some r0 \<Longrightarrow> is_terminal (r_status r0) \<Longrightarrow>
     r_status r = r_status r0 \<and> r_completed r = r_completed r0) \<Longrightarrow> evolves d (put_run k r d)"
  by (auto simp: evolves_def)

lemma rollup_evolves: "rollup_run_status now rid d = Inr (s, d') \<Longrightarrow> evolves d d'"
  by (auto simp: rollup_run_status_def Let_def split: option.splits if_splits intro!: evolves_put_run)

lemma rollup_all_evolves: "evolves d (rollup_all now rids d)"
  by (induction rids arbitrary: d)
    (auto split: sum.splits intro: evolves_trans rollup_evolves)

definition picked :: "int \<Rightarrow> string option \<Rightarrow> job \<Rightarrow> job" where
  "picked now c j = j\<lparr>j_status := ''running'', j_started := Some now, j_celery := (if c = None then j_celery j else c)\<rparr>"

lemma pickup_Inr:
  assumes "task_pickup now c jid d = Inr (PickRun d')"
  shows "\<exists>j. dget (db_jobs d) jid = Some j \<and> j_status j = ''queued'' \<and>
    d' = (case dget (db_runs d) (j_run j) of None \<Rightarrow> put_job jid (picked now c j) d
          | Some r \<Rightarrow> if is_terminal (r_status r) then put_job jid (picked now c j) d
              else put_run (j_run j) (r\<lparr>r_status := ''running'',
                r_stage := put_stage jid [(''type'', JStr (j_type j)), (''status'', JStr ''running'')] (r_stage r)\<rparr>)
                (put_job jid (picked now c j) d))"
proof -
  obtain j where j: "dget (db_jobs d) jid = Some j" "j_status j = ''queued''"
    using assms by (auto simp: task_pickup_def split: option.splits if_splits)
  have "set_job_status ''running'' j = Inr (j\<lparr>j_status := ''running''\<rparr>)"
    using j(2) by (simp add: set_job_status_def may_become_cases)
  then show ?thesis using assms j by (auto simp: task_pickup_def picked_def Let_def split: option.splits)
qed

lemma pickup_Inr_cases:
  assumes "task_pickup now c jid d = Inr (PickRun d')"
  obtains j where "dget (db_jobs d) jid = Some j" "j_status j = ''queued''"
    "d' = put_job jid (picked now c j) d \<or> (\<exists>r t. dget (db_runs d) (j_run j) = Some r \<and> \<not> is_terminal (r_status r) \<and>
      d' = put_run (j_run j) (r\<lparr>r_status := ''running'', r_stage := t\<rparr>) (put_job jid (picked now c j) d))"
proof -
  obtain j where j: "dget (db_jobs d) jid = Some j" "j_status j = ''queued''"
    "d' = (case dget (db_runs d) (j_run j) of None \<Rightarrow> put_job jid (picked now c j) d
          | Some r \<Rightarrow> if is_terminal (r_status r) then put_job jid (picked now c j) d
              else put_run (j_run j) (r\<lparr>r_status := ''running'',
                r_stage := put_stage jid [(''type'', JStr (j_type j)), (''status'', JStr ''running'')] (r_stage r)\<rparr>)
                (put_job jid (picked now c j) d))"
    using pickup_Inr [OF assms] by blast
  show thesis
    by (rule that [OF j(1,2)]) (use j(3) in \<open>cases "dget (db_runs d) (j_run j)"; auto split: if_splits\<close>)
qed

lemma picked_simps [simp]: "j_status (picked now c j) = ''running''" "j_completed (picked now c j) = j_completed j"
  "j_run (picked now c j) = j_run j"
  by (simp_all add: picked_def)

lemma pickup_evolves: "task_pickup now c jid d = Inr (PickRun d') \<Longrightarrow> evolves d d'"
  by (erule pickup_Inr_cases)
    (auto intro!: evolves_trans [OF evolves_put_job evolves_put_run] evolves_put_job)

lemma fail_job_Inr:
  "fail_job now err j = Inr j' \<Longrightarrow> j' = j\<lparr>j_status := ''failed'', j_completed := Some now, j_error := Some err\<rparr>
    \<and> (j_status j = ''failed'' \<or> j_status j = ''running'')"
  by (auto simp: fail_job_def set_job_status_Inr may_become_cases)

lemma finish_success_evolves: "finish_success now jid rid ty d = Inr (Some d') \<Longrightarrow> evolves d d'"
proof -
  assume "finish_success now jid rid ty d = Inr (Some d')"
  then obtain j r t where j: "dget (db_jobs d) jid = Some j" and r: "dget (db_runs d) rid = Some r"
    and m: "may_become (j_status j) ''succeeded''"
    and u: "rbind (rollup_run_status now rid (put_run rid (r\<lparr>r_stage := t\<rparr>)
      (put_job jid (j\<lparr>j_status := ''succeeded'', j_completed := Some now\<rparr>) d))) (\<lambda>(_, d3). Inr (Some d3)) = Inr (Some d')"
    by (auto simp: finish_success_def set_job_status_Inr Let_def split: option.splits if_splits sum.splits)
  let ?d1 = "put_job jid (j\<lparr>j_status := ''succeeded'', j_completed := Some now\<rparr>) d"
  have "evolves d ?d1" using j m may_become_not_terminal by (intro evolves_put_job) auto
  moreover have "evolves ?d1 (put_run rid (r\<lparr>r_stage := t\<rparr>) ?d1)" using r by (intro evolves_put_run) auto
  ultimately show ?thesis using u rollup_evolves by (auto split: prod.splits intro: evolves_trans)
qed

lemma requeue_evolves: "requeue_job jid d = Some (Inr d') \<Longrightarrow> evolves d d'"
  by (auto simp: requeue_job_def set_job_status_Inr may_become_cases split: option.splits if_splits
      intro!: evolves_put_job)

lemma finish_fail_evolves: "finish_fail now jid rid err tr d = Inr (FailWritten d') \<Longrightarrow> evolves d d'"
proof -
  assume "finish_fail now jid rid err tr d = Inr (FailWritten d')"
  then obtain j j1 d2 where j: "dget (db_jobs d) jid = Some j" and m: "may_become (j_status j) ''failed''"
    and f: "fail_job now tr j = Inr j1"
    and d2: "d2 = put_job jid j1 d \<or> (\<exists>r t. dget (db_runs d) rid = Some r \<and> d2 = put_run rid (r\<lparr>r_stage := t\<rparr>) (put_job jid j1 d))"
    and u: "rbind (rollup_run_status now rid d2) (\<lambda>(_, d3). Inr (FailWritten d3)) = Inr (FailWritten d')"
    by (auto simp: finish_fail_def Let_def split: option.splits if_splits sum.splits)
  have "evolves d (put_job jid j1 d)"
    using j m fail_job_Inr [OF f] by (intro evolves_put_job) (auto simp: may_become_cases)
  moreover have "evolves (put_job jid j1 d) d2" using d2 by (auto intro!: evolves_put_run)
  ultimately show ?thesis using u rollup_evolves by (auto split: prod.splits intro: evolves_trans)
qed

lemma cancel_job_simps:
  "cancellable rid j \<Longrightarrow> cancel_job now j = j\<lparr>j_status := ''cancelled'', j_completed := Some now\<rparr>"
  by (auto simp: cancel_job_def set_job_status_def may_become_cases cancellable_def)

lemma dget_map_value: "dget (map (\<lambda>(k, v). (k, f v)) xs) k = map_option f (dget xs k)"
  by (induction xs) auto

lemma cancel_evolves:
  "dget (db_runs d) rid = Some r \<Longrightarrow> \<not> is_terminal (r_status r) \<Longrightarrow> evolves d (cancel_rows now rid r d)"
  by (auto simp: evolves_def cancel_rows_def dget_map_value cancel_job_simps) (auto simp: cancellable_def)

subsection \<open>The roll-up and the reaper\<close>

text \<open>The specification of the roll-up on one row.\<close>

definition rolled :: "int \<Rightarrow> string list \<Rightarrow> run \<Rightarrow> run" where
  "rolled now ss r =
     (if is_terminal (r_status r) \<or> ss = [] then r
      else if list_all is_terminal ss then
        r\<lparr>r_status := (if ''failed'' \<in> set ss then ''failed'' else if ''succeeded'' \<in> set ss then ''succeeded''
                       else ''cancelled''), r_completed := Some now\<rparr>
      else r\<lparr>r_status := (if list_all (\<lambda>s. s = ''queued'') ss then ''queued'' else ''running''), r_completed := None\<rparr>)"

lemma rollup_Inr:
  assumes "rollup_run_status now rid d = Inr (s, d')"
  shows "\<exists>r. dget (db_runs d) rid = Some r \<and> s = r_status (rolled now (run_statuses rid d) r) \<and>
    db_jobs d' = db_jobs d \<and>
    (\<forall>k. dget (db_runs d') k = (if k = rid then Some (rolled now (run_statuses rid d) r) else dget (db_runs d) k))"
proof -
  obtain r where r: "dget (db_runs d) rid = Some r"
    using assms by (cases "dget (db_runs d) rid") (auto simp: rollup_run_status_def)
  have "rollup_run_status now rid d = Inr (r_status (rolled now (run_statuses rid d) r),
      if is_terminal (r_status r) \<or> run_statuses rid d = [] then d
      else put_run rid (rolled now (run_statuses rid d) r) d)"
    using r by (simp add: rollup_run_status_def rolled_def Let_def)
  then have "s = r_status (rolled now (run_statuses rid d) r)"
    "d' = (if is_terminal (r_status r) \<or> run_statuses rid d = [] then d
      else put_run rid (rolled now (run_statuses rid d) r) d)"
    using assms by simp_all
  moreover have "rolled now (run_statuses rid d) r = r" if "is_terminal (r_status r) \<or> run_statuses rid d = []"
    using that by (simp add: rolled_def)
  ultimately show ?thesis using r by auto
qed

lemma rollup_total: "dget (db_runs d) rid = Some r \<Longrightarrow> \<exists>s d'. rollup_run_status now rid d = Inr (s, d')"
  by (auto simp: rollup_run_status_def Let_def)

lemma rollup_all_rows:
  "distinct rids \<Longrightarrow> db_jobs (rollup_all now rids d) = db_jobs d \<and>
   (\<forall>k. dget (db_runs (rollup_all now rids d)) k =
      (if k \<in> set rids then map_option (rolled now (run_statuses k d)) (dget (db_runs d) k) else dget (db_runs d) k))"
proof (induction rids arbitrary: d)
  case (Cons rid rids)
  show ?case
  proof (cases "dget (db_runs d) rid")
    case None
    then have step: "rollup_all now (rid # rids) d = rollup_all now rids d" by (simp add: rollup_run_status_def)
    have "distinct rids" using Cons.prems by simp
    from Cons.IH [OF this, of d] None show ?thesis unfolding step by simp
  next
    case (Some r)
    then obtain s d' where u: "rollup_run_status now rid d = Inr (s, d')" using rollup_total by blast
    from rollup_Inr [OF this] Some have v: "db_jobs d' = db_jobs d"
      "\<forall>k. dget (db_runs d') k = (if k = rid then Some (rolled now (run_statuses rid d) r) else dget (db_runs d) k)"
      by auto
    then have rs: "run_statuses k d' = run_statuses k d" for k by (simp add: run_statuses_def)
    have step: "rollup_all now (rid # rids) d = rollup_all now rids d'" using u by simp
    have "distinct rids" "rid \<notin> set rids" using Cons.prems by auto
    with Cons.IH [of d'] v(1) rs have ih: "db_jobs (rollup_all now rids d') = db_jobs d"
      "\<And>k. dget (db_runs (rollup_all now rids d')) k =
        (if k \<in> set rids then map_option (rolled now (run_statuses k d)) (dget (db_runs d') k) else dget (db_runs d') k)"
      by auto
    show ?thesis unfolding step using ih v(2) Some \<open>rid \<notin> set rids\<close> by simp
  qed
qed simp

definition reaped :: "int \<Rightarrow> job \<Rightarrow> job" where
  "reaped now j = j\<lparr>j_status := ''failed'', j_completed := Some now, j_error := Some reaped_error\<rparr>"

lemma mark_stage_jobs [simp]: "db_jobs (mark_stage_failed k j d) = db_jobs d"
  by (simp add: mark_stage_failed_def Let_def split: option.split)

lemma mark_stage_runs:
  "map_option (\<lambda>r. (r_project r, r_status r, r_completed r)) (dget (db_runs (mark_stage_failed k j d)) rid)
   = map_option (\<lambda>r. (r_project r, r_status r, r_completed r)) (dget (db_runs d) rid)"
  by (auto simp: mark_stage_failed_def Let_def split: option.split)

lemma reap_jobs_rows:
  "distinct (map fst js) \<Longrightarrow> list_all (\<lambda>(k, j). j_status j = ''running'') js \<Longrightarrow>
   \<exists>d'. reap_jobs now js d = Inr d' \<and>
     (\<forall>k. dget (db_jobs d') k = (case dget js k of Some j \<Rightarrow> Some (reaped now j) | None \<Rightarrow> dget (db_jobs d) k)) \<and>
     (\<forall>rid. map_option (\<lambda>r. (r_project r, r_status r, r_completed r)) (dget (db_runs d') rid)
          = map_option (\<lambda>r. (r_project r, r_status r, r_completed r)) (dget (db_runs d) rid))"
proof (induction js arbitrary: d)
  case (Cons p js)
  obtain jid j where p: "p = (jid, j)" by fastforce
  have f: "fail_job now reaped_error j = Inr (reaped now j)"
    using Cons.prems p by (simp add: fail_job_def set_job_status_def may_become_cases reaped_def)
  let ?d1 = "mark_stage_failed jid (reaped now j) (put_job jid (reaped now j) d)"
  obtain d' where d': "reap_jobs now js ?d1 = Inr d'"
    "\<forall>k. dget (db_jobs d') k = (case dget js k of Some j \<Rightarrow> Some (reaped now j) | None \<Rightarrow> dget (db_jobs ?d1) k)"
    "\<forall>rid. map_option (\<lambda>r. (r_project r, r_status r, r_completed r)) (dget (db_runs d') rid)
          = map_option (\<lambda>r. (r_project r, r_status r, r_completed r)) (dget (db_runs ?d1) rid)"
    using Cons.IH [of ?d1] Cons.prems by auto
  have "dget js jid = None" using Cons.prems p by (simp add: map_of_eq_None_iff)
  then show ?case using d' f p by (auto simp: mark_stage_runs split: option.split)
qed simp

lemma distinct_filter_fst: "distinct (map fst xs) \<Longrightarrow> distinct (map fst (filter P xs))"
  by (simp add: distinct_map_filter)

lemma dget_filter: "distinct (map fst xs) \<Longrightarrow> dget (filter (\<lambda>(_, v). P v) xs) k =
    (case dget xs k of Some v \<Rightarrow> if P v then Some v else None | None \<Rightarrow> None)"
  by (induction xs) (auto simp: map_of_eq_None_iff split: option.split)

text \<open>A run one of whose jobs is reaped.\<close>

definition lost_job :: "int \<Rightarrow> db \<Rightarrow> string \<Rightarrow> bool" where
  "lost_job cutoff d k = list_ex (\<lambda>(_, j). is_stale cutoff j \<and> j_run j = k) (db_jobs d)"

text \<open>The whole sweep, row by row.\<close>

lemma reap_rows:
  assumes "distinct (map fst (db_jobs d))"
  shows "\<exists>d'. reap_stale_jobs ttl now d = Inr (count_if (\<lambda>(_, j). is_stale (now - ttl) j) (db_jobs d), d') \<and>
     (\<forall>k. dget (db_jobs d') k = map_option (\<lambda>j. if is_stale (now - ttl) j then reaped now j else j) (dget (db_jobs d) k)) \<and>
     (\<forall>k r. dget (db_runs d) k = Some r \<longrightarrow> (\<exists>r'. dget (db_runs d') k = Some r' \<and> r_status r' =
        (if lost_job (now - ttl) d k
         then r_status (rolled now (run_statuses k d') r) else r_status r) \<and>
        r_completed r' = (if lost_job (now - ttl) d k
         then r_completed (rolled now (run_statuses k d') r) else r_completed r)))"
proof -
  let ?stale = "filter (\<lambda>(_, j). is_stale (now - ttl) j) (db_jobs d)"
  have "list_all (\<lambda>(k, j). j_status j = ''running'') ?stale" by (auto simp: list_all_iff is_stale_def)
  then obtain d1 where d1: "reap_jobs now ?stale d = Inr d1"
    "\<forall>k. dget (db_jobs d1) k = (case dget ?stale k of Some j \<Rightarrow> Some (reaped now j) | None \<Rightarrow> dget (db_jobs d) k)"
    "\<forall>rid. map_option (\<lambda>r. (r_project r, r_status r, r_completed r)) (dget (db_runs d1) rid)
          = map_option (\<lambda>r. (r_project r, r_status r, r_completed r)) (dget (db_runs d) rid)"
    using reap_jobs_rows [OF distinct_filter_fst [OF assms]] by blast
  let ?rids = "sort (dedup (map (\<lambda>(_, j). j_run j) ?stale))"
  let ?d2 = "rollup_all now ?rids d1"
  have dr: "distinct ?rids" by simp
  have sr: "k \<in> set ?rids \<longleftrightarrow> lost_job (now - ttl) d k" for k
    unfolding set_sort set_dedup lost_job_def list_ex_iff by force
  note rows = rollup_all_rows [OF dr, of now d1]
  have rs: "run_statuses k ?d2 = run_statuses k d1" for k using rows by (simp add: run_statuses_def)
  have rr: "r_status (rolled now ss a) = r_status (rolled now ss b) \<and> r_completed (rolled now ss a) = r_completed (rolled now ss b)"
    if "r_status a = r_status b" "r_completed a = r_completed b" for ss a b
    using that by (simp add: rolled_def)
  show ?thesis
  proof (intro exI [of _ ?d2] conjI allI impI)
    show "reap_stale_jobs ttl now d = Inr (count_if (\<lambda>(_, j). is_stale (now - ttl) j) (db_jobs d), ?d2)"
      using d1(1) by (simp add: reap_stale_jobs_def count_if_def Let_def)
    show "dget (db_jobs ?d2) k = map_option (\<lambda>j. if is_stale (now - ttl) j then reaped now j else j) (dget (db_jobs d) k)" for k
      using rows d1(2) dget_filter [OF assms, of "is_stale (now - ttl)" k] by (auto split: option.split)
    fix k r assume r: "dget (db_runs d) k = Some r"
    then obtain r1 where r1: "dget (db_runs d1) k = Some r1" "r_status r1 = r_status r" "r_completed r1 = r_completed r"
      using d1(3) [rule_format, of k] by (cases "dget (db_runs d1) k") auto
    show "\<exists>r'. dget (db_runs ?d2) k = Some r' \<and> r_status r' =
        (if lost_job (now - ttl) d k
         then r_status (rolled now (run_statuses k ?d2) r) else r_status r) \<and>
        r_completed r' = (if lost_job (now - ttl) d k
         then r_completed (rolled now (run_statuses k ?d2) r) else r_completed r)"
    proof (cases "k \<in> set ?rids")
      case True
      then have g: "dget (db_runs ?d2) k = Some (rolled now (run_statuses k d1) r1)"
        using rows [THEN conjunct2, rule_format, of k] r1(1) by (simp del: set_sort)
      have l: "lost_job (now - ttl) d k" using True sr [of k] by blast
      show ?thesis
        unfolding g rs if_P [OF l] by (intro exI conjI) (rule refl, use rr [OF r1(2,3)] in blast, use rr [OF r1(2,3)] in blast)
    next
      case False
      then have g: "dget (db_runs ?d2) k = Some r1"
        using rows [THEN conjunct2, rule_format, of k] r1(1) by (simp del: set_sort)
      have l: "\<not> lost_job (now - ttl) d k" using False sr [of k] by blast
      show ?thesis unfolding g if_not_P [OF l] by (intro exI conjI) (rule refl, rule r1(2), rule r1(3))
    qed
  qed
qed

subsection \<open>The database under all its writers\<close>

definition ok_job :: "job \<Rightarrow> bool" where
  "ok_job j \<longleftrightarrow> (j_completed j \<noteq> None) = is_terminal (j_status j)"

definition ok_run :: "run \<Rightarrow> bool" where
  "ok_run r \<longleftrightarrow> (r_completed r \<noteq> None) = is_terminal (r_status r)"

text \<open>Primary keys, and a completion time exactly on the terminal rows.\<close>

definition wf_db :: "db \<Rightarrow> bool" where
  "wf_db d \<longleftrightarrow> distinct (map fst (db_jobs d)) \<and> distinct (map fst (db_runs d)) \<and>
     list_all (\<lambda>(_, j). ok_job j) (db_jobs d) \<and> list_all (\<lambda>(_, r). ok_run r) (db_runs d)"

lemma list_all_dset: "list_all (\<lambda>(_, v). P v) xs \<Longrightarrow> P v \<Longrightarrow> list_all (\<lambda>(_, v). P v) (dset k v xs)"
  by (induction xs) auto

lemma list_all_dget: "list_all (\<lambda>(_, v). P v) xs \<Longrightarrow> dget xs k = Some v \<Longrightarrow> P v"
  by (induction xs) (auto split: if_splits)

lemma wf_put_job: "wf_db d \<Longrightarrow> ok_job j \<Longrightarrow> wf_db (put_job k j d)"
  by (simp add: wf_db_def put_job_def distinct_update list_all_dset)

lemma wf_put_run: "wf_db d \<Longrightarrow> ok_run r \<Longrightarrow> wf_db (put_run k r d)"
  by (simp add: wf_db_def put_run_def distinct_update list_all_dset)

lemma wf_job: "wf_db d \<Longrightarrow> dget (db_jobs d) k = Some j \<Longrightarrow> ok_job j"
  unfolding wf_db_def by (blast intro: list_all_dget)

lemma wf_run: "wf_db d \<Longrightarrow> dget (db_runs d) k = Some r \<Longrightarrow> ok_run r"
  unfolding wf_db_def by (blast intro: list_all_dget)

lemma ok_rolled: "ok_run r \<Longrightarrow> ok_run (rolled now ss r)"
  by (simp add: rolled_def ok_run_def)

lemma rollup_eq:
  "dget (db_runs d) rid = Some r \<Longrightarrow> rollup_run_status now rid d =
     Inr (r_status (rolled now (run_statuses rid d) r),
       if is_terminal (r_status r) \<or> run_statuses rid d = [] then d
       else put_run rid (rolled now (run_statuses rid d) r) d)"
  by (simp add: rollup_run_status_def rolled_def Let_def)

lemma rollup_wf: "wf_db d \<Longrightarrow> rollup_run_status now rid d = Inr (s, d') \<Longrightarrow> wf_db d'"
proof -
  assume w: "wf_db d" and u: "rollup_run_status now rid d = Inr (s, d')"
  obtain r where r: "dget (db_runs d) rid = Some r" using u by (cases "dget (db_runs d) rid") (auto simp: rollup_run_status_def)
  show ?thesis using u w wf_put_run [OF w ok_rolled [OF wf_run [OF w r]]] unfolding rollup_eq [OF r]
    by (auto split: if_splits)
qed

lemma rollup_all_wf: "wf_db d \<Longrightarrow> wf_db (rollup_all now rids d)"
  by (induction rids arbitrary: d) (auto split: sum.splits intro: rollup_wf)

lemma pickup_wf: "wf_db d \<Longrightarrow> task_pickup now c jid d = Inr (PickRun d') \<Longrightarrow> wf_db d'"
proof -
  assume w: "wf_db d" and p: "task_pickup now c jid d = Inr (PickRun d')"
  from p obtain j where j: "dget (db_jobs d) jid = Some j" "j_status j = ''queued''" and
    d': "d' = put_job jid (picked now c j) d \<or> (\<exists>r t. dget (db_runs d) (j_run j) = Some r \<and> \<not> is_terminal (r_status r) \<and>
      d' = put_run (j_run j) (r\<lparr>r_status := ''running'', r_stage := t\<rparr>) (put_job jid (picked now c j) d))"
    by (rule pickup_Inr_cases)
  have "wf_db (put_job jid (picked now c j) d)" using wf_put_job [OF w] wf_job [OF w j(1)] j by (simp add: ok_job_def)
  then show ?thesis using d' wf_put_run wf_run [OF w] by (auto simp: ok_run_def)
qed

lemma finish_success_wf: "wf_db d \<Longrightarrow> finish_success now jid rid ty d = Inr (Some d') \<Longrightarrow> wf_db d'"
proof -
  assume w: "wf_db d" and "finish_success now jid rid ty d = Inr (Some d')"
  then obtain j r t where r: "dget (db_runs d) rid = Some r"
    and u: "rbind (rollup_run_status now rid (put_run rid (r\<lparr>r_stage := t\<rparr>)
      (put_job jid (j\<lparr>j_status := ''succeeded'', j_completed := Some now\<rparr>) d))) (\<lambda>(_, d3). Inr (Some d3)) = Inr (Some d')"
    by (auto simp: finish_success_def set_job_status_Inr Let_def split: option.splits if_splits sum.splits)
  have "wf_db (put_run rid (r\<lparr>r_stage := t\<rparr>) (put_job jid (j\<lparr>j_status := ''succeeded'', j_completed := Some now\<rparr>) d))"
    using wf_run [OF w r] by (intro wf_put_run wf_put_job w) (simp_all add: ok_job_def ok_run_def)
  then show ?thesis using u rollup_wf by (auto split: prod.splits)
qed

lemma requeue_wf: "wf_db d \<Longrightarrow> requeue_job jid d = Some (Inr d') \<Longrightarrow> wf_db d'"
proof -
  assume w: "wf_db d" and q: "requeue_job jid d = Some (Inr d')"
  show ?thesis
  proof (cases "dget (db_jobs d) jid")
    case (Some j)
    have "ok_job j" by (rule wf_job [OF w Some])
    then show ?thesis using q w Some
      by (auto simp: requeue_job_def set_job_status_Inr may_become_cases ok_job_def split: if_splits intro!: wf_put_job)
  qed (use q w in \<open>auto simp: requeue_job_def\<close>)
qed

lemma finish_fail_wf: "wf_db d \<Longrightarrow> finish_fail now jid rid err tr d = Inr (FailWritten d') \<Longrightarrow> wf_db d'"
proof -
  assume w: "wf_db d" and "finish_fail now jid rid err tr d = Inr (FailWritten d')"
  then obtain j j1 d2 where f: "fail_job now tr j = Inr j1"
    and d2: "d2 = put_job jid j1 d \<or> (\<exists>r t. dget (db_runs d) rid = Some r \<and> d2 = put_run rid (r\<lparr>r_stage := t\<rparr>) (put_job jid j1 d))"
    and u: "rbind (rollup_run_status now rid d2) (\<lambda>(_, d3). Inr (FailWritten d3)) = Inr (FailWritten d')"
    by (auto simp: finish_fail_def Let_def split: option.splits if_splits sum.splits)
  have "wf_db (put_job jid j1 d)" using fail_job_Inr [OF f] w by (intro wf_put_job) (auto simp: ok_job_def)
  then have "wf_db d2" using d2 wf_put_run wf_run [OF w] by (auto simp: ok_run_def)
  then show ?thesis using u rollup_wf by (auto split: prod.splits)
qed

lemma cancel_wf: "wf_db d \<Longrightarrow> wf_db (cancel_rows now rid r d)"
proof -
  assume w: "wf_db d"
  have "map fst (map (\<lambda>(k, j). (k, if cancellable rid j then cancel_job now j else j)) (db_jobs d)) = map fst (db_jobs d)"
    by (simp only: map_map comp_def case_prod_beta fst_conv)
  moreover have "list_all (\<lambda>(_, j). ok_job j) (map (\<lambda>(k, j). (k, if cancellable rid j then cancel_job now j else j)) (db_jobs d))"
    using w by (auto simp: wf_db_def list_all_iff cancel_job_simps) (auto simp: ok_job_def)
  ultimately show ?thesis using w
    by (simp add: wf_db_def cancel_rows_def distinct_update list_all_dset ok_run_def del: map_map)
qed

lemma reap_jobs_wf: "wf_db d \<Longrightarrow> reap_jobs now js d = Inr d' \<Longrightarrow> wf_db d'"
proof (induction js arbitrary: d)
  case (Cons p js)
  obtain jid j where p: "p = (jid, j)" by fastforce
  obtain j' where j': "fail_job now reaped_error j = Inr j'"
    "reap_jobs now js (mark_stage_failed jid j' (put_job jid j' d)) = Inr d'"
    using Cons.prems(2) p by auto
  have "wf_db (put_job jid j' d)" using fail_job_Inr [OF j'(1)] Cons.prems(1) by (intro wf_put_job) (auto simp: ok_job_def)
  then have "wf_db (mark_stage_failed jid j' (put_job jid j' d))"
    using wf_put_run wf_run [OF Cons.prems(1)]
    by (auto simp: mark_stage_failed_def Let_def ok_run_def split: option.splits)
  then show ?case using Cons.IH j'(2) by blast
qed simp

lemma reap_wf: "wf_db d \<Longrightarrow> reap_stale_jobs ttl now d = Inr (n, d') \<Longrightarrow> wf_db d'"
  by (auto simp: reap_stale_jobs_def Let_def intro: rollup_all_wf reap_jobs_wf)

lemma reap_evolves: "wf_db d \<Longrightarrow> reap_stale_jobs ttl now d = Inr (n, d') \<Longrightarrow> evolves d d'"
proof -
  assume w: "wf_db d" and r: "reap_stale_jobs ttl now d = Inr (n, d')"
  have dist: "distinct (map fst (db_jobs d))" using w by (simp add: wf_db_def)
  have jobs: "dget (db_jobs d') k = map_option (\<lambda>j. if is_stale (now - ttl) j then reaped now j else j) (dget (db_jobs d) k)" for k
    using reap_rows [OF dist, of ttl now] r by auto
  have runs: "\<exists>r'. dget (db_runs d') k = Some r' \<and> (is_terminal (r_status r) \<longrightarrow> r_status r' = r_status r \<and> r_completed r' = r_completed r)"
    if "dget (db_runs d) k = Some r" for k r
    using reap_rows [OF dist, of ttl now] r that by (fastforce simp: rolled_def)
  have "\<not> is_terminal (j_status j)" if "is_stale (now - ttl) j" for j using that by (simp add: is_stale_def)
  then show ?thesis using jobs runs by (auto simp: evolves_def reaped_def)
qed

text \<open>The committed writes of all components on the two tables, in any order: admission of a run
  or a job, progress written into a stage table, and the operations above.\<close>

inductive db_step :: "db \<Rightarrow> db \<Rightarrow> bool" where
  new_run: "dget (db_runs d) rid = None \<Longrightarrow> \<not> is_terminal (r_status r) \<Longrightarrow> r_completed r = None \<Longrightarrow>
     db_step d (put_run rid r d)"
| enqueue: "dget (db_jobs d) jid = None \<Longrightarrow> j_status j = ''queued'' \<Longrightarrow> j_completed j = None \<Longrightarrow>
     db_step d (put_job jid j d)"
| progress: "dget (db_runs d) rid = Some r \<Longrightarrow> db_step d (put_run rid (r\<lparr>r_stage := t\<rparr>) d)"
| pickup: "task_pickup now c jid d = Inr (PickRun d') \<Longrightarrow> db_step d d'"
| success: "finish_success now jid rid ty d = Inr (Some d') \<Longrightarrow> db_step d d'"
| requeue: "requeue_job jid d = Some (Inr d') \<Longrightarrow> db_step d d'"
| failure: "finish_fail now jid rid err tr d = Inr (FailWritten d') \<Longrightarrow> db_step d d'"
| rollup: "rollup_run_status now rid d = Inr (s, d') \<Longrightarrow> db_step d d'"
| cancel: "dget (db_runs d) rid = Some r \<Longrightarrow> \<not> is_terminal (r_status r) \<Longrightarrow> db_step d (cancel_rows now rid r d)"
| reap: "reap_stale_jobs ttl now d = Inr (n, d') \<Longrightarrow> db_step d d'"

lemma db_step_wf: "db_step d d' \<Longrightarrow> wf_db d \<Longrightarrow> wf_db d'"
proof (induction rule: db_step.induct)
  case (progress d rid r t)
  then show ?case using wf_run by (intro wf_put_run) (auto simp: ok_run_def)
qed (auto intro: pickup_wf finish_success_wf requeue_wf finish_fail_wf rollup_wf cancel_wf reap_wf
  intro!: wf_put_run wf_put_job simp: ok_run_def ok_job_def)

lemma db_step_evolves: "db_step d d' \<Longrightarrow> wf_db d \<Longrightarrow> evolves d d'"
  by (induction rule: db_step.induct)
    (auto intro: pickup_evolves finish_success_evolves requeue_evolves finish_fail_evolves
      rollup_evolves cancel_evolves reap_evolves evolves_put_job evolves_put_run)

text \<open>A machine whose final rows are sinks: \<open>view\<close> is the observed part of a row.\<close>

locale sink_machine =
  fixes inv :: "'d \<Rightarrow> bool" and step :: "'d \<Rightarrow> 'd \<Rightarrow> bool"
    and view :: "'d \<Rightarrow> 'k \<Rightarrow> 'v option" and final :: "'v \<Rightarrow> bool"
  assumes inv_step: "inv d \<Longrightarrow> step d d' \<Longrightarrow> inv d'"
    and keeps: "inv d \<Longrightarrow> step d d' \<Longrightarrow> view d k = Some v \<Longrightarrow> final v \<Longrightarrow> view d' k = Some v"
begin

lemma reach_inv: "step\<^sup>*\<^sup>* d d' \<Longrightarrow> inv d \<Longrightarrow> inv d'"
  by (induction rule: rtranclp_induct) (auto intro: inv_step)

lemma reach_final: "step\<^sup>*\<^sup>* d d' \<Longrightarrow> inv d \<Longrightarrow> view d k = Some v \<Longrightarrow> final v \<Longrightarrow> view d' k = Some v"
  by (induction rule: rtranclp_induct) (auto intro: keeps reach_inv)

end

interpretation job_sink: sink_machine wf_db db_step "\<lambda>d k. dget (db_jobs d) k" "\<lambda>j. is_terminal (j_status j)"
  using db_step_wf db_step_evolves by unfold_locales (auto simp: evolves_def, fastforce)

interpretation run_sink: sink_machine wf_db db_step
  "\<lambda>d k. map_option (\<lambda>r. (r_status r, r_completed r)) (dget (db_runs d) k)" "\<lambda>(s, _). is_terminal s"
  using db_step_wf db_step_evolves by unfold_locales (auto simp: evolves_def, fastforce)

subsection \<open>What a task leaves behind\<close>

lemma finish_success_row:
  assumes "dget (db_jobs d) jid = Some j" "j_status j = ''running''"
    and "dget (db_runs d) rid = Some r" "r_status r \<noteq> ''cancelled''"
  shows "\<exists>d'. finish_success now jid rid ty d = Inr (Some d') \<and>
    dget (db_jobs d') jid = Some (j\<lparr>j_status := ''succeeded'', j_completed := Some now\<rparr>)"
proof -
  let ?j = "j\<lparr>j_status := ''succeeded'', j_completed := Some now\<rparr>"
  let ?t = "put_stage jid (merge_entry (sub_dict (sub_dict (r_stage r) ''jobs'') jid)
              [(''type'', JStr ty), (''status'', JStr ''succeeded'')]) (r_stage r)"
  let ?d = "put_run rid (r\<lparr>r_stage := ?t\<rparr>) (put_job jid ?j d)"
  obtain s d' where u: "rollup_run_status now rid ?d = Inr (s, d')"
    using rollup_total [of ?d rid "r\<lparr>r_stage := ?t\<rparr>" now] by auto
  moreover have "db_jobs d' = db_jobs ?d" using rollup_Inr [OF u] by blast
  ultimately show ?thesis using assms
    by (simp add: finish_success_def set_job_status_def may_become_cases Let_def)
qed

lemma finish_fail_row:
  assumes "dget (db_jobs d) jid = Some j" "j_status j = ''running''" "dget (db_runs d) rid = Some r"
  shows "\<exists>d'. finish_fail now jid rid err tr d = Inr (FailWritten d') \<and>
    dget (db_jobs d') jid = Some (j\<lparr>j_status := ''failed'', j_completed := Some now, j_error := Some tr\<rparr>)"
proof -
  let ?j = "j\<lparr>j_status := ''failed'', j_completed := Some now, j_error := Some tr\<rparr>"
  let ?t = "dset ''error'' (JStr err) (put_stage jid [(''type'', JStr (j_type j)), (''status'', JStr ''failed''), (''error'', JStr err)] (r_stage r))"
  let ?d = "put_run rid (r\<lparr>r_stage := ?t\<rparr>) (put_job jid ?j d)"
  obtain s d' where u: "rollup_run_status now rid ?d = Inr (s, d')"
    using rollup_total [of ?d rid "r\<lparr>r_stage := ?t\<rparr>" now] by auto
  moreover have "db_jobs d' = db_jobs ?d" using rollup_Inr [OF u] by blast
  ultimately show ?thesis using assms
    by (simp add: finish_fail_def fail_job_def set_job_status_def may_become_cases Let_def)
qed

lemma pickup_queued:
  assumes "dget (db_jobs d) jid = Some j" "j_status j = ''queued''"
  obtains d' where "task_pickup now c jid d = Inr (PickRun d')"
  using assms by (auto simp: task_pickup_def set_job_status_def may_become_cases Let_def)

lemma task_fail_reaches: "db_step\<^sup>*\<^sup>* d base \<Longrightarrow> db_step\<^sup>*\<^sup>* d (to_db (task_fail env a now j err tr base w))"
  by (auto simp: task_fail_def split: sum.splits fail_result.splits
      intro: rtranclp.rtrancl_into_rtrancl db_step.failure)

lemma task_except_reaches: "db_step\<^sup>*\<^sup>* d base \<Longrightarrow> db_step\<^sup>*\<^sup>* d (to_db (task_except env a now j t err tr base w))"
  by (auto simp: task_except_def task_fail_reaches split: option.splits sum.splits
      intro: rtranclp.rtrancl_into_rtrancl db_step.requeue)

lemma task_context_reaches:
  assumes world: "\<And>x. db_step\<^sup>*\<^sup>* x (world x)" and body: "\<And>x. db_step\<^sup>*\<^sup>* x (body x)"
  shows "db_step\<^sup>*\<^sup>* d (to_db (task_context env a t0 t1 world body outcome d w))"
proof (cases "dget (db_jobs d) (ta_job a)")
  case (Some j)
  show ?thesis
  proof (cases "\<exists>d1. task_pickup t0 (ta_request a) (ta_job a) d = Inr (PickRun d1)")
    case False
    then show ?thesis using Some by (auto simp: task_context_def split: sum.splits pickup.splits)
  next
    case True
    then obtain d1 where d1: "task_pickup t0 (ta_request a) (ta_job a) d = Inr (PickRun d1)" by blast
    let ?base = "if ta_commit_running a then world d1 else d"
    let ?seen = "body (if ta_commit_running a then world d1 else d1)"
    have r1: "db_step\<^sup>*\<^sup>* d d1" using d1 db_step.pickup by blast
    then have rw: "db_step\<^sup>*\<^sup>* d (world d1)" using world [of d1] by (rule rtranclp_trans)
    have base: "db_step\<^sup>*\<^sup>* d ?base" using rw by simp
    have seen: "db_step\<^sup>*\<^sup>* d ?seen"
      using rtranclp_trans [OF rw body] rtranclp_trans [OF r1 body] by simp
    have fin: "db_step\<^sup>*\<^sup>* d d3" if "finish_success t1 (ta_job a) (j_run j) (j_type j) ?seen = Inr (Some d3)" for d3
      using seen db_step.success [OF that] by (rule rtranclp.rtrancl_into_rtrancl)
    note ex = task_except_reaches [OF base]
    show ?thesis
      unfolding task_context_def Some d1 option.case sum.case pickup.case Let_def
      using base fin ex
      by (cases outcome) (auto split: sum.split option.split prod.split simp del: if_split split del: if_split)
  qed
qed (simp add: task_context_def)

text \<open>A task whose transition to \<open>running\<close> was committed, unfolded.\<close>

lemma task_context_durable:
  assumes "dget (db_jobs d) (ta_job a) = Some j" "task_pickup t0 (ta_request a) (ta_job a) d = Inr (PickRun d1)"
    and "ta_commit_running a" "\<not> ta_emit a"
  shows "task_context env a t0 t1 world body outcome d w = (case outcome of
      BodyRetry \<Rightarrow> \<lparr>to_result = TaskRetryRaised, to_db = world d1, to_audit = w, to_events = [''running''], to_metrics = []\<rparr>
    | BodyRaise transient err trace \<Rightarrow> task_except env a t1 j transient err trace (world d1) w
    | BodyOk \<Rightarrow> (case finish_success t1 (ta_job a) (j_run j) (j_type j) (body (world d1)) of
          Inl e \<Rightarrow> task_except env a t1 j False ''LookupError'' ''LookupError'' (world d1) w
        | Inr None \<Rightarrow> \<lparr>to_result = TaskSuppressed, to_db = world d1, to_audit = w,
            to_events = [''running''], to_metrics = metric a ''cancelled''\<rparr>
        | Inr (Some d3) \<Rightarrow> \<lparr>to_result = TaskSucceeded, to_db = d3, to_audit = w,
            to_events = [''running'', ''succeeded''], to_metrics = metric a ''succeeded''\<rparr>))"
  using assms by (auto simp: task_context_def Let_def split: body_outcome.split sum.split option.split)

subsection \<open>Sample rows for the witnesses\<close>

definition ex_job :: "string \<Rightarrow> int option \<Rightarrow> job" where
  "ex_job s c = \<lparr>j_run = ''r1'', j_project = ''p'', j_type = ''attack.run'', j_status = s, j_celery = None,
    j_created_by = None, j_created_at = 0, j_started = None, j_completed = c, j_error = None, j_detail = []\<rparr>"

definition ex_run :: run where
  "ex_run = \<lparr>r_project = ''p'', r_status = ''running'', r_completed = None, r_stage = []\<rparr>"

definition ex_db :: "string \<Rightarrow> int option \<Rightarrow> db" where
  "ex_db s c = \<lparr>db_jobs = [(''j1'', ex_job s c)], db_runs = [(''r1'', ex_run)]\<rparr>"

definition ex_args :: "bool \<Rightarrow> task_args" where
  "ex_args commit = \<lparr>ta_job = ''j1'', ta_bound = True, ta_name = None, ta_request = None, ta_retries = 0,
    ta_max_retries = 2, ta_commit_running = commit, ta_emit = False\<rparr>"

definition ex_env :: "unit task_env" where
  "ex_env = \<lparr>te_append = (\<lambda>c n w. Inl AValueError), te_allowlist = [], te_counts = [], te_extra = [],
    te_duration = JNull, te_transient = (\<lambda>_. False)\<rparr>"

definition ex_cancel :: "db \<Rightarrow> db" where
  "ex_cancel d = cancel_rows 2 ''r1'' ex_run d"

lemma ex_rows [simp]:
  "dget (db_jobs (ex_db s c)) ''j1'' = Some (ex_job s c)" "dget (db_runs (ex_db s c)) ''r1'' = Some ex_run"
  "j_status (ex_job s c) = s" "j_run (ex_job s c) = ''r1''" "r_status ex_run = ''running''"
  "ta_job (ex_args b) = ''j1''" "ta_commit_running (ex_args b) = b" "\<not> ta_emit (ex_args b)"
  "ta_request (ex_args b) = None" "ta_bound (ex_args b)" "ta_retries (ex_args b) < ta_max_retries (ex_args b)"
  by (simp_all add: ex_db_def ex_job_def ex_run_def ex_args_def)

lemma ex_pickup:
  obtains d1 where "task_pickup 1 None ''j1'' (ex_db ''queued'' None) = Inr (PickRun d1)"
    "dget (db_jobs d1) ''j1'' = Some (picked 1 None (ex_job ''queued'' None))"
    "\<exists>r. dget (db_runs d1) ''r1'' = Some r \<and> r_status r = ''running''"
proof -
  obtain d1 where p: "task_pickup 1 None ''j1'' (ex_db ''queued'' None) = Inr (PickRun d1)"
    using pickup_queued [of "ex_db ''queued'' None" "''j1''" "ex_job ''queued'' None" 1 None] by auto
  from pickup_Inr [OF p] show thesis by (intro that [OF p]) auto
qed

subsection \<open>Properties\<close>







text \<open>C12. A cancellation that commits while the body of a task runs wins: however the body
  ends, the cancelled job row is left exactly as the cancellation wrote it, and the task reports
  no success.\<close>

theorem cancellation_wins:
  assumes "dget (db_jobs d) (ta_job a) = Some j"
    and "task_pickup t0 (ta_request a) (ta_job a) d = Inr (PickRun d1)"
    and "ta_commit_running a" "\<not> ta_emit a"
    and "dget (db_jobs (world d1)) (ta_job a) = Some jc" "j_status jc = ''cancelled''"
    and "dget (db_jobs (body (world d1))) (ta_job a) = Some jc"
  shows "let out = task_context env a t0 t1 world body outcome d w in
    to_db out = world d1 \<and> to_result out \<notin> {TaskSucceeded, TaskRetried} \<and> ''succeeded'' \<notin> set (to_events out)"
proof -
  note tc = task_context_durable [OF assms(1,2,3,4), of env t1 world body outcome w]
  have m: "\<not> may_become ''cancelled'' s" for s by (simp add: may_become_cases)
  show ?thesis
  proof (cases outcome)
    case BodyOk
    have "finish_success t1 (ta_job a) (j_run j) (j_type j) (body (world d1)) = Inr None"
      using assms(6,7) m by (simp add: finish_success_def split: option.split)
    then show ?thesis using tc BodyOk by simp
  next
    case (BodyRaise transient err trace)
    then show ?thesis using tc assms(5,6) m
      by (simp add: task_except_def task_fail_def requeue_job_def finish_fail_def Let_def)
  next
    case BodyRetry
    then show ?thesis using tc by simp
  qed
qed

theorem cancellation_wins_witness:
  "to_result (task_context ex_env (ex_args True) 1 2 ex_cancel (\<lambda>x. x) BodyOk (ex_db ''queued'' None) ()) \<noteq> TaskSucceeded"
proof (rule ex_pickup)
  fix d1 assume p: "task_pickup 1 None ''j1'' (ex_db ''queued'' None) = Inr (PickRun d1)"
    and j: "dget (db_jobs d1) ''j1'' = Some (picked 1 None (ex_job ''queued'' None))"
  have c: "cancellable ''r1'' (picked 1 None (ex_job ''queued'' None))" by (simp add: cancellable_def)
  have "dget (db_jobs (ex_cancel d1)) ''j1'' = Some (cancel_job 2 (picked 1 None (ex_job ''queued'' None)))"
    using j c by (simp add: ex_cancel_def cancel_rows_def dget_map_value)
  then show ?thesis
    using cancellation_wins [of "ex_db ''queued'' None" "ex_args True" "ex_job ''queued'' None" 1 d1 ex_cancel _
      "\<lambda>x. x" ex_env 2 BodyOk "()"] p cancel_job_simps [OF c, of 2]
    by (simp add: Let_def)
qed

text \<open>In the default mode, where the transition to \<open>running\<close> is only flushed, a body that
  raises before anything is committed leaves the job queued: the rollback restores the queued row,
  from which neither \<open>failed\<close> nor the requeue is a legal transition, so no failure is recorded
  and a transient error is not retried even with retries left.\<close>

theorem uncommitted_failure_left_queued:
  assumes "dget (db_jobs d) (ta_job a) = Some j" "j_status j = ''queued''" "\<not> ta_commit_running a"
  shows "let out = task_context env a t0 t1 world body (BodyRaise transient err trace) d w in
    to_db out = d \<and> to_result out = TaskRaised err \<and> ''failed'' \<notin> set (to_events out)"
proof -
  obtain d1 where p: "task_pickup t0 (ta_request a) (ta_job a) d = Inr (PickRun d1)"
    using pickup_queued [OF assms(1,2)] by blast
  show ?thesis using assms p
    by (simp add: task_context_def task_except_def task_fail_def requeue_job_def finish_fail_def may_become_cases Let_def)
qed

theorem uncommitted_failure_left_queued_witness:
  "to_db (task_context ex_env (ex_args False) 1 2 (\<lambda>x. x) (\<lambda>x. x) (BodyRaise True ''E'' ''T'') (ex_db ''queued'' None) ())
   = ex_db ''queued'' None"
  using uncommitted_failure_left_queued [of "ex_db ''queued'' None" "ex_args False" "ex_job ''queued'' None"
      ex_env 1 2 "\<lambda>x. x" "\<lambda>x. x" True "''E''" "''T''" "()"]
  by (simp add: Let_def)

text \<open>C13. The reaper fails exactly the jobs that have been running longer than the limit, counts
  them, and rolls up exactly the runs that lost a job, leaving the other rows alone.\<close>

theorem reaper_sweep:
  assumes "distinct (map fst (db_jobs d))"
  shows "\<exists>d'. reap_stale_jobs ttl now d = Inr (count_if (\<lambda>(_, j). is_stale (now - ttl) j) (db_jobs d), d') \<and>
     (\<forall>k. dget (db_jobs d') k = map_option (\<lambda>j. if is_stale (now - ttl) j then reaped now j else j) (dget (db_jobs d) k)) \<and>
     (\<forall>k r. dget (db_runs d) k = Some r \<longrightarrow> (\<exists>r'. dget (db_runs d') k = Some r' \<and>
        (r_status r', r_completed r') =
          (let q = (if lost_job (now - ttl) d k then rolled now (run_statuses k d') r else r)
           in (r_status q, r_completed q))))"
  using reap_rows [OF assms, of ttl now] by (fastforce simp: Let_def)

theorem reaper_sweep_witness:
  "\<exists>d'. reap_stale_jobs 60 100 (ex_db ''running'' None) = Inr (0, d') \<and> dget (db_jobs d') ''j1'' = Some (ex_job ''running'' None)"
proof -
  have s: "\<not> is_stale (100 - 60) (ex_job ''running'' None)" by (simp add: is_stale_def ex_job_def)
  have "distinct (map fst (db_jobs (ex_db ''running'' None)))" by (simp add: ex_db_def)
  from reaper_sweep [OF this, of 60 100] show ?thesis using s by (auto simp: ex_db_def)
qed

context audit_writer
begin

lemma emit_recorded:
  assumes "good (call_chain c) w" "emit append now c w = (Inr (), w')"
  shows "good (call_chain c) w' \<and> (\<exists>ev. read (call_chain c) w' = read (call_chain c) w @ [ev] \<and>
    jget ev ''action'' = JStr (ac_action c) \<and> jget ev ''success'' = JBool (ac_success c))"
proof -
  obtain e where e: "append c now w = Inr (w', e)"
    using assms(2) by (auto simp: emit_def split: sum.splits)
  obtain r where "read (call_chain c) w' = read (call_chain c) w @ [r]" "map_of r = map_of e"
    using read_append [OF assms(1) e] by blast
  then show ?thesis using append_good [OF assms(1) e] event_action [OF e] event_success [OF e] by (simp add: jget_def)
qed

text \<open>A refused cancellation leaves an unsuccessful event.\<close>

lemma refuse_terminal_recorded:
  assumes "rid \<noteq> []" "good (''run:'' @ rid) w"
    and "refuse_terminal append now rid actor r project w = (TerminalRun rid s, w')"
  shows "jget (last (read (''run:'' @ rid) w')) ''success'' = JBool False"
proof -
  have c: "call_chain (cancel_call rid actor (r_status r) project) = ''run:'' @ rid"
    using assms(1) by (simp add: cancel_call_def chain_id_of_def)
  have "emit append now (cancel_call rid actor (r_status r) project) w = (Inr (), w')"
    using assms(3) by (auto simp: refuse_terminal_def split: prod.splits sum.splits)
  from emit_recorded [OF _ this] show ?thesis using assms(2) c by (auto simp: cancel_call_def)
qed

end



text \<open>The roll-up: a missing run is the only error; a terminal run, or one without jobs, is
  returned unchanged; otherwise the run becomes terminal exactly when all its jobs are (failed if
  one failed, else succeeded if one succeeded, else cancelled, with the completion time set),
  queued exactly when all are queued, and running in between. No other row changes.\<close>

theorem rollup_specification:
  "case rollup_run_status now rid d of
     Inl e \<Rightarrow> e = RunLookup rid \<and> dget (db_runs d) rid = None
   | Inr (s, d') \<Rightarrow> (\<exists>r r'. dget (db_runs d) rid = Some r \<and> dget (db_runs d') rid = Some r' \<and> s = r_status r' \<and>
       db_jobs d' = db_jobs d \<and> (\<forall>k. k = rid \<or> dget (db_runs d') k = dget (db_runs d) k) \<and>
       (let ss = run_statuses rid d in
        if is_terminal (r_status r) \<or> ss = [] then r' = r
        else (is_terminal s = list_all is_terminal ss) \<and>
             ((s = ''queued'') = list_all (\<lambda>x. x = ''queued'') ss) \<and>
             (if list_all is_terminal ss
              then s = (if ''failed'' \<in> set ss then ''failed'' else if ''succeeded'' \<in> set ss then ''succeeded'' else ''cancelled'')
                   \<and> r_completed r' = Some now
              else s \<in> {''queued'', ''running''} \<and> r_completed r' = None)))"
proof (cases "dget (db_runs d) rid")
  case None
  then show ?thesis by (simp add: rollup_run_status_def)
next
  case (Some r)
  let ?ss = "run_statuses rid d"
  have q: "list_all (\<lambda>x. x = ''queued'') ?ss \<Longrightarrow> ?ss \<noteq> [] \<Longrightarrow> \<not> list_all is_terminal ?ss"
    by (cases ?ss) auto
  show ?thesis
  proof (cases "is_terminal (r_status r) \<or> ?ss = []")
    case True
    then show ?thesis using Some by (simp add: rollup_eq rolled_def)
  next
    case False
    then show ?thesis using Some q by (auto simp: rollup_eq rolled_def Let_def)
  qed
qed

end
