(* ===== verification/ApiErrors.thy ===== *)
theory ApiErrors
  imports Json
begin

text \<open>
  \<open>redsim/api/errors.py\<close>: the table of refusal codes of the ML routes with their HTTP status
  and default message, the body of a refusal (\<open>error_detail\<close>), the typed refusal a service
  raises (\<open>ApiError\<close>) and its conversion at the route (\<open>api_error\<close>).
\<close>

definition error_codes :: "string list" where
  "error_codes = [
     ''use_models_route'', ''forbidden'', ''not_found'',
     ''already_registered'', ''campaign_in_flight'', ''model_load_refused'',
     ''campaign_not_terminal'', ''job_in_flight'', ''run_terminal'',
     ''incompatible_campaigns'', ''score_unavailable'', ''model_too_large'',
     ''unsupported_model_format'', ''pickle_refused'', ''architecture_required'',
     ''architecture_not_allowlisted'', ''dataset_incompatible'', ''unknown_attack'',
     ''attack_modality_mismatch'', ''attack_requires_gradients'', ''eps_grid_invalid'',
     ''reference_eps_not_in_grid'', ''params_out_of_range'', ''rate_limited'',
     ''not_implemented'', ''queue_unavailable'', ''db_unavailable'',
     ''capacity_deferred'', ''endpoint_not_allowlisted'', ''egress_refused'',
     ''snapshot_not_found'', ''llm_target_required'', ''export_in_flight'',
     ''export_unavailable'', ''resolution_blocked'', ''review_transition_invalid'',
     ''dataset_too_large'', ''unsupported_dataset_format'', ''endpoint_url_invalid'',
     ''auth_profile_kind_unsupported'', ''endpoint_schema_mismatch'', ''probe_set_unknown'',
     ''license_required'', ''remote_reference_refused'', ''schema_undeclared'',
     ''batch_modality_mismatch'', ''batch_too_large'', ''daily_budget_exceeded'',
     ''integration_disabled'', ''endpoint_unreachable'', ''reviewer_not_independent'',
     ''auth_profile_in_use'', ''idempotency_key_reused'', ''idempotency_conflict'',
     ''review_state_conflict'', ''snapshot_archived'', ''bulk_too_large'',
     ''auth_profile_required'', ''probe_key_required'', ''batch_member_refused'',
     ''bulk_too_many_files'', ''fixture_not_exportable'', ''query_budget_exceeded'',
     ''attestation_required'', ''scoring_weights_invalid'', ''model_id_invalid'',
     ''model_not_chat'', ''gateway_url_required'', ''unknown_probe'',
     ''probe_excluded'', ''probe_detector_unavailable'', ''llm_probe_quota_exceeded'',
     ''endpoint_auth_failed'']"

definition http_status_table :: "(string, int) dict" where
  "http_status_table = [
     (''use_models_route'', 400), (''forbidden'', 403),
     (''not_found'', 404), (''already_registered'', 409),
     (''campaign_in_flight'', 409), (''model_load_refused'', 409),
     (''campaign_not_terminal'', 409), (''job_in_flight'', 409),
     (''run_terminal'', 409), (''incompatible_campaigns'', 409),
     (''score_unavailable'', 409), (''model_too_large'', 413),
     (''unsupported_model_format'', 415), (''pickle_refused'', 415),
     (''architecture_required'', 422), (''architecture_not_allowlisted'', 422),
     (''dataset_incompatible'', 422), (''unknown_attack'', 422),
     (''attack_modality_mismatch'', 422), (''attack_requires_gradients'', 422),
     (''eps_grid_invalid'', 422), (''reference_eps_not_in_grid'', 422),
     (''params_out_of_range'', 422), (''rate_limited'', 429),
     (''not_implemented'', 501), (''queue_unavailable'', 503),
     (''db_unavailable'', 503), (''capacity_deferred'', 202),
     (''endpoint_not_allowlisted'', 403), (''egress_refused'', 403),
     (''snapshot_not_found'', 404), (''llm_target_required'', 409),
     (''export_in_flight'', 409), (''export_unavailable'', 409),
     (''resolution_blocked'', 409), (''review_transition_invalid'', 409),
     (''dataset_too_large'', 413), (''unsupported_dataset_format'', 415),
     (''endpoint_url_invalid'', 422), (''auth_profile_kind_unsupported'', 422),
     (''endpoint_schema_mismatch'', 422), (''probe_set_unknown'', 422),
     (''license_required'', 422), (''remote_reference_refused'', 422),
     (''schema_undeclared'', 422), (''batch_modality_mismatch'', 422),
     (''batch_too_large'', 422), (''daily_budget_exceeded'', 429),
     (''integration_disabled'', 501), (''endpoint_unreachable'', 502),
     (''reviewer_not_independent'', 403), (''auth_profile_in_use'', 409),
     (''idempotency_key_reused'', 409), (''idempotency_conflict'', 409),
     (''review_state_conflict'', 409), (''snapshot_archived'', 409),
     (''bulk_too_large'', 413), (''auth_profile_required'', 422),
     (''probe_key_required'', 422), (''batch_member_refused'', 422),
     (''bulk_too_many_files'', 422), (''fixture_not_exportable'', 422),
     (''query_budget_exceeded'', 429), (''attestation_required'', 422),
     (''scoring_weights_invalid'', 422), (''model_id_invalid'', 422),
     (''model_not_chat'', 422), (''gateway_url_required'', 422),
     (''unknown_probe'', 422), (''probe_excluded'', 422),
     (''probe_detector_unavailable'', 422), (''llm_probe_quota_exceeded'', 429),
     (''endpoint_auth_failed'', 502)]"

definition default_message :: "(string, string) dict" where
  "default_message = [
     (''use_models_route'', ''ML targets are registered through POST /v1/models''),
     (''forbidden'', ''forbidden''),
     (''not_found'', ''not found''),
     (''already_registered'', ''bundled model is already registered in this project''),
     (''campaign_in_flight'', ''a campaign for this model is queued or running''),
     (''model_load_refused'', ''model is not available for campaigns''),
     (''campaign_not_terminal'', ''the campaign has not reached a terminal status''),
     (''job_in_flight'', ''a job of this type is already queued or running for this finding''),
     (''run_terminal'', ''the run is already terminal''),
     (''incompatible_campaigns'', ''campaigns with different settings cannot be compared''),
     (''score_unavailable'', ''a compared run has no score''),
     (''model_too_large'', ''uploaded model exceeds the size cap''),
     (''unsupported_model_format'', ''model format is not accepted''),
     (''pickle_refused'', ''pickle-serialized models are refused''),
     (''architecture_required'', ''state_dict formats need a declared architecture_id''),
     (''architecture_not_allowlisted'', ''architecture_id is not in the catalog''),
     (''dataset_incompatible'', ''dataset shape or class count does not match the model manifest''),
     (''unknown_attack'', ''attack id is not in the registry''),
     (''attack_modality_mismatch'', ''attack domain differs from the model modality''),
     (''attack_requires_gradients'', ''attack needs loss gradients the target does not expose''),
     (''eps_grid_invalid'', ''eps_grid violates the grid rules''),
     (''reference_eps_not_in_grid'', ''reference_eps is not a member of eps_grid''),
     (''params_out_of_range'', ''attack parameters are out of range''),
     (''rate_limited'', ''rate limited''),
     (''not_implemented'', ''not implemented in this phase''),
     (''queue_unavailable'', ''job queue is unavailable''),
     (''db_unavailable'', ''database is unavailable''),
     (''capacity_deferred'', ''run admitted; dispatch is deferred until project capacity frees''),
     (''endpoint_not_allowlisted'', ''endpoint host is not in the egress allowlist''),
     (''egress_refused'', ''outbound request refused by the egress policy''),
     (''snapshot_not_found'', ''report snapshot not found''),
     (''llm_target_required'', ''this route needs an LLM endpoint target''),
     (''export_in_flight'', ''a dataset export for this run is queued or running''),
     (''export_unavailable'', ''the run has no export that can be served''),
     (''resolution_blocked'', ''the finding does not meet every resolution condition''),
     (''review_transition_invalid'', ''the review decision is not valid from the current state''),
     (''dataset_too_large'', ''uploaded dataset exceeds the size cap''),
     (''unsupported_dataset_format'', ''dataset format is not accepted''),
     (''endpoint_url_invalid'', ''endpoint URL is not an https URL without userinfo or query''),
     (''auth_profile_kind_unsupported'', ''auth profile kind is not usable for this endpoint''),
     (''endpoint_schema_mismatch'', ''endpoint response does not match the declared schema''),
     (''probe_set_unknown'', ''probe set id is not in the catalog''),
     (''license_required'', ''license_statement is required: only licensed models and datasets are registered''),
     (''remote_reference_refused'', ''manifest references content outside the upload''),
     (''schema_undeclared'', ''dataset feature or image schema is not declared''),
     (''batch_modality_mismatch'', ''a batch is one modality; the selected targets span several''),
     (''batch_too_large'', ''batch exceeds the member cap''),
     (''daily_budget_exceeded'', (''the project'' @ [CHR 0x27] @ ''s daily run budget is spent'')),
     (''integration_disabled'', ''this integration is not enabled in this deployment''),
     (''endpoint_unreachable'', ''endpoint did not answer''),
     (''reviewer_not_independent'', ''the reviewer is not independent of this finding''),
     (''auth_profile_in_use'', ''auth profile is referenced by a live endpoint target''),
     (''idempotency_key_reused'', ''Idempotency-Key was already used for a different request''),
     (''idempotency_conflict'', ''a request with this Idempotency-Key is still in flight''),
     (''review_state_conflict'', (''the finding'' @ [CHR 0x27] @ ''s review state changed since it was read'')),
     (''snapshot_archived'', ''the report snapshot is archived''),
     (''bulk_too_large'', ''bulk upload exceeds the total size cap''),
     (''auth_profile_required'', ''endpoint registration needs an auth_profile_id''),
     (''probe_key_required'', ''LLM targets need an auth profile that carries the probe key''),
     (''batch_member_refused'', ''a batch member failed admission; the batch was refused whole''),
     (''bulk_too_many_files'', ''bulk upload exceeds the file-count cap''),
     (''fixture_not_exportable'', ''runs on a CI fixture target are never exported''),
     (''query_budget_exceeded'', ''estimated endpoint query volume exceeds the per-job budget''),
     (''attestation_required'', ''evaluation_instance_attestation must be true: only non-operational evaluation instances are registered (D3)''),
     (''scoring_weights_invalid'', ''ml_scoring.weights must name all five weights and sum to 1; nothing is renormalised''),
     (''model_id_invalid'', ''model_id must be a canonical Pythia id (<vendor>/<model> or pythia/auto)''),
     (''model_not_chat'', ''model_id names an embedding model; probes need a chat completion endpoint''),
     (''gateway_url_required'', ''gateway_url is required when PYTHIA_BASE_URL is not set on the API''),
     (''unknown_probe'', ''probe id is not in the committed probe catalog''),
     (''probe_excluded'', (''probe is excluded from this deployment'' @ [CHR 0x27] @ ''s catalog'')),
     (''probe_detector_unavailable'', (''the probe'' @ [CHR 0x27] @ ''s detector model is not permitted or not cached in this deployment'')),
     (''llm_probe_quota_exceeded'', (''the project'' @ [CHR 0x27] @ ''s daily LLM probe-run quota is spent'')),
     (''endpoint_auth_failed'', ''the endpoint refused the AuthProfile credential'')]"

definition string_detail_codes :: "string list" where
  "string_detail_codes = [''forbidden'', ''not_found'', ''rate_limited'', ''db_unavailable'']"

definition phase_required_codes :: "string list" where
  "phase_required_codes = [''not_implemented'']"

definition marker_codes :: "string list" where
  "marker_codes = [''capacity_deferred'']"

definition default_phase :: string where "default_phase = ''B''"

datatype code_error = UnknownCode string | MarkerCode string   \<comment> \<open>\<open>KeyError\<close>/\<open>ValueError\<close>\<close>

definition http_status :: "string \<Rightarrow> (code_error, int) result" where
  "http_status code = (case dget http_status_table code of None \<Rightarrow> Inl (UnknownCode code) | Some s \<Rightarrow> Inr s)"

text \<open>Truthiness of a JSON value; floats are their \<open>repr\<close>.\<close>

definition json_truthy :: "json \<Rightarrow> bool" where
  "json_truthy v = (case v of JNull \<Rightarrow> False | JBool b \<Rightarrow> b | JInt n \<Rightarrow> n \<noteq> 0
     | JFloat t \<Rightarrow> t \<notin> {''0.0'', ''-0.0''} | JStr s \<Rightarrow> s \<noteq> [] | JArr xs \<Rightarrow> xs \<noteq> [] | JObj d \<Rightarrow> d \<noteq> [])"

text \<open>\<open>d.update(extra)\<close>.\<close>

definition dict_update :: "jdict \<Rightarrow> jdict \<Rightarrow> jdict" where
  "dict_update d extra = fold (\<lambda>(k, v) d. dset k v d) extra d"

definition error_detail :: "string \<Rightarrow> string option \<Rightarrow> jdict \<Rightarrow> (code_error, jdict) result" where
  "error_detail code message extra =
     (if dget http_status_table code = None then Inl (UnknownCode code)
      else let text = (if truthy message then the message else dget_or [] default_message code);
               extra = (if code \<in> set phase_required_codes \<and> \<not> json_truthy (jget extra ''phase'')
                         then dset ''phase'' (JStr default_phase) extra else extra)
           in Inr (dict_update [(''code'', JStr code), (''message'', JStr text)] extra))"

definition refuse_marker :: "string \<Rightarrow> (code_error, unit) result" where
  "refuse_marker code = (if code \<in> set marker_codes then Inl (MarkerCode code) else Inr ())"

record api_refusal =
  ar_code :: string
  ar_status :: int
  ar_detail :: jdict

definition api_error_of :: "string \<Rightarrow> string option \<Rightarrow> jdict \<Rightarrow> (code_error, api_refusal) result" where
  "api_error_of code message extra =
     rbind (refuse_marker code) (\<lambda>_.
     rbind (error_detail code message extra) (\<lambda>d.
     rbind (http_status code) (\<lambda>s. Inr \<lparr>ar_code = code, ar_status = s, ar_detail = d\<rparr>)))"

text \<open>The \<open>detail\<close> of the HTTP response: a plain string for the retained codes without extra
  extra.\<close>

definition api_error :: "string \<Rightarrow> string option \<Rightarrow> jdict \<Rightarrow> (code_error, int \<times> json) result" where
  "api_error code message extra =
     rbind (refuse_marker code) (\<lambda>_.
     rbind (error_detail code message extra) (\<lambda>d.
     rbind (http_status code) (\<lambda>s.
       Inr (s, if code \<in> set string_detail_codes \<and> extra = [] then jget d ''message'' else JObj d))))"

definition as_http_exception :: "api_refusal \<Rightarrow> (code_error, int \<times> json) result" where
  "as_http_exception r = api_error (ar_code r)
     (case jget (ar_detail r) ''message'' of JStr m \<Rightarrow> Some m | _ \<Rightarrow> None)
     (filter (\<lambda>(k, _). k \<notin> {''code'', ''message''}) (ar_detail r))"

lemma dict_update_get: "distinct (map fst extra) \<Longrightarrow>
    dget (dict_update d extra) k = (case dget extra k of Some v \<Rightarrow> Some v | None \<Rightarrow> dget d k)"
proof (induction extra arbitrary: d)
  case (Cons p ps)
  obtain a b where p: "p = (a, b)" by fastforce
  have "dict_update d (p # ps) = dict_update (dset a b d) ps" by (simp add: dict_update_def p)
  moreover have "dget ps a = None" using Cons.prems p by (simp add: map_of_eq_None_iff)
  ultimately show ?case using Cons p by (auto split: option.split)
qed (simp add: dict_update_def)

lemma status_range: "list_all (\<lambda>(c, s). if c \<in> set marker_codes then s = 202 else 400 \<le> s \<and> s \<le> 599) http_status_table"
  by code_simp

lemma messages_complete: "map fst default_message = map fst http_status_table"
  by code_simp

lemma codes_listed: "sort error_codes = sort (map fst http_status_table)"
  by code_simp

lemma http_status_range:
  assumes "http_status code = Inr s" "code \<notin> set marker_codes" shows "400 \<le> s \<and> s \<le> 599"
proof -
  have "(code, s) \<in> set http_status_table"
    using assms(1) by (auto simp: http_status_def split: option.splits dest: map_of_SomeD)
  then show ?thesis using status_range assms(2) by (auto simp: list_all_iff)
qed

subsection \<open>Properties\<close>



end
