(* ===== verification/Capacity.thy ===== *)
theory Capacity
  imports JobState ApiErrors "HOL-Library.Product_Lexorder"
begin

text \<open>
  \<open>services/ml_capacity.py\<close>: the caps of a project, the live counts over the jobs table, the
  daily admission budget, admission with deferral, the dispatcher that hands deferred jobs to
  the broker in admission order, and the read side. Times are microseconds since the epoch, the
  broker is a function from a job id to the Celery task id or an error.
\<close>

subsection \<open>Caps\<close>

text \<open>A malformed or negative value counts as absent.\<close>

definition env_int :: "(string, string) dict \<Rightarrow> string \<Rightarrow> int option \<Rightarrow> int option" where
  "env_int env name dflt =
     (let raw = strip (dget_or [] env name) in
      if raw = [] then dflt
      else case py_int raw of None \<Rightarrow> dflt
        | Some v \<Rightarrow> if 0 \<le> v then Some v else dflt)"

definition default_max_concurrent_runs :: "(string, string) dict \<Rightarrow> int" where
  "default_max_concurrent_runs env =
     max (case env_int env ''REDSIM_ML_MAX_CONCURRENT_RUNS_PER_PROJECT'' (Some 2) of Some v \<Rightarrow> v | None \<Rightarrow> 2) 1"

definition default_daily_run_budget :: "(string, string) dict \<Rightarrow> int option" where
  "default_daily_run_budget env = (case env_int env ''REDSIM_ML_DAILY_RUN_BUDGET'' None of
      None \<Rightarrow> env_int env ''REDSIM_ML_PROJECT_DAILY_RUN_BUDGET'' None | Some v \<Rightarrow> Some v)"

record project =
  p_max_concurrent :: "int option"
  p_daily_budget :: "int option"

record caps =
  cap_max :: int
  cap_budget :: "int option"
  cap_max_source :: string
  cap_budget_source :: string

text \<open>A missing project row has neither column.\<close>

definition effective_caps :: "(string, string) dict \<Rightarrow> project option \<Rightarrow> caps" where
  "effective_caps env p =
     (let rc = (case p of None \<Rightarrow> None | Some q \<Rightarrow> p_max_concurrent q);
          rb = (case p of None \<Rightarrow> None | Some q \<Rightarrow> p_daily_budget q);
          (c, cs) = (case rc of Some n \<Rightarrow> if 1 \<le> n then (n, ''project'') else (default_max_concurrent_runs env, ''default'')
                     | None \<Rightarrow> (default_max_concurrent_runs env, ''default''));
          (b, bs) = (case rb of Some n \<Rightarrow> if 0 \<le> n then (Some n, ''project'') else (default_daily_run_budget env, ''default'')
                     | None \<Rightarrow> (default_daily_run_budget env, ''default''))
      in \<lparr>cap_max = c, cap_budget = b, cap_max_source = cs, cap_budget_source = bs\<rparr>)"

definition day_us :: int where "day_us = 86400000000"

definition utc_midnight :: "int \<Rightarrow> int" where "utc_midnight now = now - now mod day_us"

definition budget_resets_at :: "int \<Rightarrow> int" where "budget_resets_at now = utc_midnight now + day_us"

text \<open>\<open>isoformat().replace("+00:00", "Z")\<close>.\<close>

definition iso_z :: "int \<Rightarrow> string" where
  "iso_z t = (let s = iso_utc t in take (length s - 6) s @ ''Z'')"

subsection \<open>Live jobs\<close>

definition admission_job_types :: "string list" where
  "admission_job_types = [''attack.run'']"

definition campaign_job_types :: "string list" where
  "campaign_job_types = [''attack.run'', ''explain.run'', ''harden.recommend'']"

definition admission_kinds :: "(string, string) dict" where
  "admission_kinds =
     [(''attack'', ''attack.run''), (''campaign'', ''attack.run''), (''attack.run'', ''attack.run''),
      (''explain'', ''explain.run''), (''explain.run'', ''explain.run''),
      (''harden'', ''harden.recommend''), (''harden.recommend'', ''harden.recommend'')]"

definition is_deferred :: "job \<Rightarrow> bool" where
  "is_deferred j \<longleftrightarrow> json_truthy (jget (j_detail j) ''deferred'') \<and> j_status j = ''queued''"

record active_counts =
  ct_running :: nat
  ct_dispatched :: nat
  ct_deferred :: nat
  ct_ids :: "string list"

definition ct_active :: "active_counts \<Rightarrow> nat" where
  "ct_active c = ct_running c + ct_dispatched c"

definition is_live :: "string \<Rightarrow> job \<Rightarrow> bool" where
  "is_live pid j \<longleftrightarrow> j_project j = pid \<and> j_type j \<in> set campaign_job_types \<and> j_status j \<in> {''queued'', ''running''}"

text \<open>Ordered by creation time, then id.\<close>

definition live_jobs :: "string \<Rightarrow> db \<Rightarrow> (string \<times> job) list" where
  "live_jobs pid d = sort_key (\<lambda>(k, j). (j_created_at j, k)) (filter (\<lambda>(_, j). is_live pid j) (db_jobs d))"

definition count_step :: "string list \<Rightarrow> active_counts \<Rightarrow> string \<times> job \<Rightarrow> active_counts" where
  "count_step excluded c kj = (case kj of (k, j) \<Rightarrow>
     if k \<in> set excluded then c
     else if j_status j = ''running'' then c\<lparr>ct_running := Suc (ct_running c)\<rparr>
     else if is_deferred j then c\<lparr>ct_deferred := Suc (ct_deferred c), ct_ids := ct_ids c @ [k]\<rparr>
     else c\<lparr>ct_dispatched := Suc (ct_dispatched c)\<rparr>)"

definition count_active :: "string list \<Rightarrow> string \<Rightarrow> db \<Rightarrow> active_counts" where
  "count_active excluded pid d =
     foldl (count_step excluded) \<lparr>ct_running = 0, ct_dispatched = 0, ct_deferred = 0, ct_ids = []\<rparr> (live_jobs pid d)"

definition used_today :: "int \<Rightarrow> string \<Rightarrow> db \<Rightarrow> int" where
  "used_today now pid d = int (count_if (\<lambda>(_, j). j_project j = pid \<and> j_type j \<in> set admission_job_types \<and>
     utc_midnight now \<le> j_created_at j) (db_jobs d))"

subsection \<open>Admission\<close>

record decision =
  dc_project :: string
  dc_kind :: string
  dc_job_type :: string
  dc_deferred :: bool
  dc_active :: nat
  dc_max :: int
  dc_used :: int
  dc_budget :: "int option"
  dc_requested :: int
  dc_resets_at :: string
  dc_reason :: "string option"

datatype capacity_error =
    UnknownKind string
  | BudgetExceeded api_refusal
  | CapacityAudit audit_error
  | CapacityCode code_error

definition jint_opt :: "int option \<Rightarrow> json" where
  "jint_opt n = (case n of None \<Rightarrow> JNull | Some i \<Rightarrow> JInt i)"

definition decision_marker :: "decision \<Rightarrow> (code_error, jdict) result" where
  "decision_marker c =
     (if \<not> dc_deferred c then Inr []
      else error_detail ''capacity_deferred''
        (Some (''admitted; '' @ dec (int (dc_active c)) @ '' of '' @ dec (dc_max c) @
               '' concurrent ML runs are in use, dispatch waits for a free slot''))
        [(''active_runs'', JInt (int (dc_active c))), (''max_concurrent_runs'', JInt (dc_max c))])"

definition response_fields :: "decision \<Rightarrow> (code_error, jdict) result" where
  "response_fields c = rbind (decision_marker c) (\<lambda>m.
     Inr ([(''deferred'', JBool (dc_deferred c))] @ (if m = [] then [] else [(''capacity'', JObj m)])))"

definition stamp :: "int \<Rightarrow> decision \<Rightarrow> jdict" where
  "stamp now c = [(''deferred'', JBool (dc_deferred c)), (''reason'', jopt (dc_reason c)),
     (''active_runs'', JInt (int (dc_active c))), (''max_concurrent_runs'', JInt (dc_max c)),
     (''used_today'', JInt (dc_used c)), (''daily_run_budget'', jint_opt (dc_budget c)),
     (''decided_at'', JStr (iso_z now))]"

definition budget_refusal :: "int \<Rightarrow> int \<Rightarrow> int \<Rightarrow> int \<Rightarrow> (code_error, api_refusal) result" where
  "budget_refusal budget used requested now =
     (let resets = budget_resets_at now;
          retry_after = max ((resets - now) div 1000000) 1
      in api_error_of ''daily_budget_exceeded''
           (Some (''the project'' @ [CHR 0x27] @ ''s daily ML run budget of '' @ dec budget @
                  '' admission(s) is spent ('' @ dec used @ '' used today, '' @ dec requested @
                  '' requested); it resets at '' @ iso_z resets))
           [(''budget'', JInt budget), (''used'', JInt used), (''requested'', JInt requested),
            (''resets_at'', JStr (iso_z resets)), (''retry_after'', JInt retry_after)])"

text \<open>The audit row of a refused admission, on the project chain.\<close>

definition refusal_call :: "api_refusal \<Rightarrow> string \<Rightarrow> string \<Rightarrow> int \<Rightarrow> int \<Rightarrow> int \<Rightarrow> string \<Rightarrow> caps \<Rightarrow>
    string option \<Rightarrow> string option \<Rightarrow> (string \<times> json) list \<Rightarrow> string \<Rightarrow> audit_call" where
  "refusal_call exc kind job_type budget used requested resets cps actor action context pid =
     (let detail0 = [(''refused'', JBool True), (''code'', JStr (ar_code exc)), (''http_status'', JInt (ar_status exc)),
            (''reason'', jget (ar_detail exc) ''message''), (''kind'', JStr kind), (''job_type'', JStr job_type),
            (''budget'', JInt budget), (''used_today'', JInt used), (''requested'', JInt requested),
            (''resets_at'', JStr resets), (''budget_source'', JStr (cap_budget_source cps))];
          detail1 = (case actor of None \<Rightarrow> detail0 | Some a \<Rightarrow> dset ''actor'' (JStr a) detail0);
          detail2 = dict_update detail1 (filter (\<lambda>(_, v). v \<noteq> JNull) context)
      in \<lparr>ac_action = (if truthy action then the action else job_type),
          ac_actor = (if truthy actor then the actor else ''system:capacity''), ac_target = None,
          ac_check = ''n/a'', ac_override = False, ac_success = False, ac_detail = detail2,
          ac_run = None, ac_project = Some pid\<rparr>)"

record 'w admit_args =
  aa_env :: "(string, string) dict"
  aa_append :: "audit_call \<Rightarrow> int \<Rightarrow> 'w \<Rightarrow> (audit_error, 'w \<times> jdict) result"
  aa_actor :: "string option"
  aa_action :: "string option"
  aa_exclude :: "string list"
  aa_context :: "(string \<times> json) list"

text \<open>The writer is optional; the decision leaves the database as it is.\<close>

definition admit_or_defer :: "'w admit_args \<Rightarrow> string \<Rightarrow> project option \<Rightarrow> string \<Rightarrow> int \<Rightarrow> int \<Rightarrow> db \<Rightarrow> 'w option
    \<Rightarrow> (capacity_error, decision) result \<times> 'w option" where
  "admit_or_defer a pid p kind requested now d w = (case dget admission_kinds kind of
      None \<Rightarrow> (Inl (UnknownKind kind), w)
    | Some job_type \<Rightarrow>
        let cps = effective_caps (aa_env a) p;
            counted = job_type \<in> set admission_job_types;
            used = (if counted then used_today now pid d else 0);
            resets = iso_z (budget_resets_at now);
            over = (case cap_budget cps of None \<Rightarrow> False | Some b \<Rightarrow> counted \<and> b < used + max requested 1)
        in if over then
             (let b = the (cap_budget cps) in
              case budget_refusal b used requested now of
                Inl e \<Rightarrow> (Inl (CapacityCode e), w)
              | Inr exc \<Rightarrow> (case w of
                    None \<Rightarrow> (Inl (BudgetExceeded exc), None)
                  | Some v \<Rightarrow> (case aa_append a (refusal_call exc kind job_type b used requested resets cps
                                  (aa_actor a) (aa_action a) (aa_context a) pid) now v of
                        Inl e \<Rightarrow> (Inl (CapacityAudit e), w)
                      | Inr (v', _) \<Rightarrow> (Inl (BudgetExceeded exc), Some v'))))
           else
             let counts = count_active (aa_exclude a) pid d;
                 deferred = cap_max cps \<le> int (ct_active counts)
             in (Inr \<lparr>dc_project = pid, dc_kind = kind, dc_job_type = job_type, dc_deferred = deferred,
                      dc_active = ct_active counts, dc_max = cap_max cps, dc_used = used,
                      dc_budget = cap_budget cps, dc_requested = max requested 1, dc_resets_at = resets,
                      dc_reason = (if deferred then Some (dec (int (ct_active counts)) @ '' of '' @
                        dec (cap_max cps) @ '' concurrent ML runs in use'') else None)\<rparr>, w))"

definition mark_deferred :: "int \<Rightarrow> string \<Rightarrow> string \<Rightarrow> decision \<Rightarrow> db \<Rightarrow> db" where
  "mark_deferred now rid jid c d =
     (let st = stamp now c;
          put = (\<lambda>t. dset ''capacity'' (JObj st) (dset ''deferred'' (JBool True) t));
          d1 = (case dget (db_jobs d) jid of None \<Rightarrow> d
                | Some j \<Rightarrow> put_job jid (j\<lparr>j_detail := put (j_detail j)\<rparr>) d)
      in case dget (db_runs d1) rid of None \<Rightarrow> d1
         | Some r \<Rightarrow> put_run rid (r\<lparr>r_stage := put (r_stage r)\<rparr>) d1)"

subsection \<open>The dispatcher\<close>

text \<open>\<open>dict(t.get("capacity") or {})\<close> with the two fields of a dispatched admission, and the two
  fields of one whose broker call failed.\<close>

definition cleared :: "int \<Rightarrow> jdict \<Rightarrow> jdict" where
  "cleared now t = dset ''capacity'' (JObj (dset ''dispatched_at'' (JStr (iso_z now))
      (dset ''deferred'' (JBool False) (sub_dict t ''capacity'')))) (dset ''deferred'' (JBool False) t)"

definition clear_deferred :: "int \<Rightarrow> string \<Rightarrow> job \<Rightarrow> db \<Rightarrow> db" where
  "clear_deferred now jid j d =
     (let d1 = put_job jid (j\<lparr>j_detail := cleared now (j_detail j)\<rparr>) d
      in case dget (db_runs d1) (j_run j) of None \<Rightarrow> d1
         | Some r \<Rightarrow> put_run (j_run j) (r\<lparr>r_stage := cleared now (r_stage r)\<rparr>) d1)"

definition restored :: "string \<Rightarrow> jdict \<Rightarrow> jdict" where
  "restored err t = dset ''capacity'' (JObj (dset ''last_dispatch_error'' (JStr (take 200 err))
      (ddel ''dispatched_at'' (dset ''deferred'' (JBool True) (sub_dict t ''capacity'')))))
      (dset ''deferred'' (JBool True) t)"

definition restore_deferred :: "string \<Rightarrow> string \<Rightarrow> db \<Rightarrow> db" where
  "restore_deferred jid err d = (case dget (db_jobs d) jid of None \<Rightarrow> d
     | Some j \<Rightarrow>
         let d1 = put_job jid (j\<lparr>j_detail := restored err (j_detail j)\<rparr>) d
         in case dget (db_runs d1) (j_run j) of None \<Rightarrow> d1
            | Some r \<Rightarrow> put_run (j_run j) (r\<lparr>r_stage := dset ''deferred'' (JBool True) (r_stage r)\<rparr>) d1)"

text \<open>
  \<open>send\<close> is the enqueue callable: from the job id and the committed database to the task id or
  the formatted exception, and the database when the call returns.
\<close>

type_synonym broker = "string \<Rightarrow> db \<Rightarrow> (string, string option) result \<times> db"

record 'w dispatch_env =
  de_append :: "audit_call \<Rightarrow> int \<Rightarrow> 'w \<Rightarrow> (audit_error, 'w \<times> jdict) result"
  de_send :: broker
  de_vars :: "(string, string) dict"
  de_exclude :: "string list"
  de_actor :: string

record 'w dispatch_state =
  ds_db :: db
  ds_audit :: "'w option"
  ds_active :: nat
  ds_dispatched :: "string list"
  ds_failed :: "string list"

definition dispatch_call :: "string \<Rightarrow> int \<Rightarrow> string \<Rightarrow> int \<Rightarrow> nat \<Rightarrow> string \<Rightarrow> job \<Rightarrow> audit_call" where
  "dispatch_call actor now pid cap active jid j =
     \<lparr>ac_action = ''batch.dispatch'', ac_actor = actor, ac_target = None, ac_check = ''n/a'',
      ac_override = False, ac_success = True,
      ac_detail = [(''actor'', JStr actor), (''job_id'', JStr jid), (''run_id'', JStr (j_run j)),
        (''job_type'', JStr (j_type j)), (''active_runs'', JInt (int active)),
        (''max_concurrent_runs'', JInt cap), (''dispatched_at'', JStr (iso_z now))],
      ac_run = Some (j_run j), ac_project = Some pid\<rparr>"

definition audit_opt :: "'w dispatch_env \<Rightarrow> audit_call \<Rightarrow> int \<Rightarrow> 'w option \<Rightarrow> (audit_error, 'w option) result" where
  "audit_opt e c now w = (case w of None \<Rightarrow> Inr None
     | Some v \<Rightarrow> rbind (de_append e c now v) (\<lambda>(v', _). Inr (Some v')))"

definition set_task_id :: "string \<Rightarrow> string option \<Rightarrow> db \<Rightarrow> db" where
  "set_task_id jid t d = (case t of None \<Rightarrow> d
     | Some i \<Rightarrow> (case dget (db_jobs d) jid of None \<Rightarrow> d | Some j \<Rightarrow> put_job jid (j\<lparr>j_celery := Some i\<rparr>) d))"

text \<open>A raising audit writer ends the pass; the cleared flag of that job is not committed.\<close>

fun dispatch_loop :: "'w dispatch_env \<Rightarrow> int \<Rightarrow> string \<Rightarrow> int \<Rightarrow> string list \<Rightarrow> 'w dispatch_state
    \<Rightarrow> audit_error option \<times> 'w dispatch_state" where
  "dispatch_loop e now pid cap [] s = (None, s)"
| "dispatch_loop e now pid cap (jid # ids) s =
     (if cap \<le> int (ds_active s) then (None, s)
      else case dget (db_jobs (ds_db s)) jid of
        None \<Rightarrow> dispatch_loop e now pid cap ids s
      | Some j \<Rightarrow>
          if \<not> is_deferred j then dispatch_loop e now pid cap ids s
          else (case audit_opt e (dispatch_call (de_actor e) now pid cap (ds_active s) jid j) now (ds_audit s) of
              Inl x \<Rightarrow> (Some x, s)
            | Inr w \<Rightarrow> (case de_send e jid (clear_deferred now jid j (ds_db s)) of
                (Inl err, d2) \<Rightarrow> dispatch_loop e now pid cap ids
                   (s\<lparr>ds_db := restore_deferred jid err d2, ds_audit := w, ds_failed := ds_failed s @ [jid]\<rparr>)
              | (Inr t, d2) \<Rightarrow> dispatch_loop e now pid cap ids
                   (s\<lparr>ds_db := set_task_id jid t d2, ds_audit := w, ds_active := Suc (ds_active s),
                      ds_dispatched := ds_dispatched s @ [jid]\<rparr>))))"

record dispatch_report =
  rp_dispatched :: "(string, string list) dict"
  rp_still :: "(string, nat) dict"
  rp_failed :: "(string, string list) dict"
  rp_active :: "(string, nat) dict"

definition empty_report :: dispatch_report where
  "empty_report = \<lparr>rp_dispatched = [], rp_still = [], rp_failed = [], rp_active = []\<rparr>"

definition n_dispatched :: "dispatch_report \<Rightarrow> nat" where
  "n_dispatched r = sum_list (map (\<lambda>(_, ids). length ids) (rp_dispatched r))"

definition projects_with_deferred_jobs :: "db \<Rightarrow> string list" where
  "projects_with_deferred_jobs d = sort (dedup (map (\<lambda>(_, j). j_project j)
     (filter (\<lambda>(_, j). j_type j \<in> set campaign_job_types \<and> j_status j = ''queued'' \<and> is_deferred j) (db_jobs d))))"

text \<open>The project rows do not change during a pass.\<close>

definition dispatch_project :: "'w dispatch_env \<Rightarrow> int \<Rightarrow> (string, project) dict \<Rightarrow> string \<Rightarrow> db \<Rightarrow> 'w option
    \<Rightarrow> dispatch_report \<Rightarrow> (audit_error, dispatch_report) result \<times> db \<times> 'w option" where
  "dispatch_project e now projects pid d w rp =
     (let cps = effective_caps (de_vars e) (dget projects pid);
          counts = count_active (de_exclude e) pid d
      in case dispatch_loop e now pid (cap_max cps) (ct_ids counts)
            \<lparr>ds_db = d, ds_audit = w, ds_active = ct_active counts, ds_dispatched = [], ds_failed = []\<rparr> of
          (Some x, s) \<Rightarrow> (Inl x, ds_db s, ds_audit s)
        | (None, s) \<Rightarrow>
            let rest = count_active (de_exclude e) pid (ds_db s);
                rp1 = (if ds_dispatched s = [] then rp else rp\<lparr>rp_dispatched := dset pid (ds_dispatched s) (rp_dispatched rp)\<rparr>);
                rp2 = (if ds_failed s = [] then rp1 else rp1\<lparr>rp_failed := dset pid (ds_failed s) (rp_failed rp1)\<rparr>)
            in (Inr (rp2\<lparr>rp_still := dset pid (ct_deferred rest) (rp_still rp2),
                         rp_active := dset pid (ct_active rest) (rp_active rp2)\<rparr>), ds_db s, ds_audit s))"

fun dispatch_targets :: "'w dispatch_env \<Rightarrow> int \<Rightarrow> (string, project) dict \<Rightarrow> string list \<Rightarrow> db \<Rightarrow> 'w option
    \<Rightarrow> dispatch_report \<Rightarrow> (audit_error, dispatch_report) result \<times> db \<times> 'w option" where
  "dispatch_targets e now projects [] d w rp = (Inr rp, d, w)"
| "dispatch_targets e now projects (pid # pids) d w rp = (case dispatch_project e now projects pid d w rp of
      (Inl x, d', w') \<Rightarrow> (Inl x, d', w')
    | (Inr rp', d', w') \<Rightarrow> dispatch_targets e now projects pids d' w' rp')"

definition dispatch_deferred :: "'w dispatch_env \<Rightarrow> int \<Rightarrow> (string, project) dict \<Rightarrow> string option \<Rightarrow> db \<Rightarrow> 'w option
    \<Rightarrow> (audit_error, dispatch_report) result \<times> db \<times> 'w option" where
  "dispatch_deferred e now projects pid d w =
     dispatch_targets e now projects (case pid of Some p \<Rightarrow> [p] | None \<Rightarrow> projects_with_deferred_jobs d) d w empty_report"

subsection \<open>The read side\<close>

definition caps_dict :: "caps \<Rightarrow> jdict" where
  "caps_dict c = [(''max_concurrent_runs'', JInt (cap_max c)), (''daily_run_budget'', jint_opt (cap_budget c)),
     (''sources'', JObj [(''max_concurrent_runs'', JStr (cap_max_source c)), (''daily_run_budget'', JStr (cap_budget_source c))])]"

definition counts_dict :: "active_counts \<Rightarrow> jdict" where
  "counts_dict c = [(''running_jobs'', JInt (int (ct_running c))),
     (''queued_jobs'', JInt (int (ct_dispatched c + ct_deferred c))),
     (''deferred_runs'', JInt (int (ct_deferred c))), (''active_runs'', JInt (int (ct_active c)))]"

definition project_capacity :: "(string, string) dict \<Rightarrow> string \<Rightarrow> project option \<Rightarrow> int \<Rightarrow> db \<Rightarrow> jdict" where
  "project_capacity env pid p now d =
     (let cps = effective_caps env p; counts = count_active [] pid d; used = used_today now pid d
      in [(''project_id'', JStr pid)] @ caps_dict cps @ counts_dict counts @
         [(''slots_free'', JInt (max (cap_max cps - int (ct_active counts)) 0)),
          (''used_today'', JInt used),
          (''budget_remaining'', jint_opt (case cap_budget cps of None \<Rightarrow> None | Some b \<Rightarrow> Some (max (b - used) 0))),
          (''resets_at'', JStr (iso_z (budget_resets_at now))),
          (''budget_window'', JStr ''admissions (attack.run jobs) since 00:00 UTC; cancelled runs count'')])"

definition global_capacity :: "db \<Rightarrow> jdict" where
  "global_capacity d =
     (let js = map snd (db_jobs d);
          ml = filter (\<lambda>j. j_type j \<in> set campaign_job_types) js;
          n = (\<lambda>P xs. JInt (int (count_if P xs)))
      in [(''running_jobs'', n (\<lambda>j. j_status j = ''running'') js),
          (''queued_jobs'', n (\<lambda>j. j_status j = ''queued'') js),
          (''ml_running_jobs'', n (\<lambda>j. j_status j = ''running'') ml),
          (''ml_queued_jobs'', n (\<lambda>j. j_status j = ''queued'') ml),
          (''ml_deferred_runs'', n is_deferred (filter (\<lambda>j. j_status j = ''queued'') ml)),
          (''workers_hint'', JStr ''worker pool sizes are not read from the broker; see /metrics and REDSIM_WORKER_CONCURRENCY'')])"

record gauge_sample =
  gs_active :: nat
  gs_deferred :: "(string, nat) dict"
  gs_used :: "(string, int) dict"

definition sample_gauges :: "int \<Rightarrow> db \<Rightarrow> gauge_sample" where
  "sample_gauges now d =
     (let pids = sort (dedup (map (\<lambda>(_, j). j_project j) (filter (\<lambda>(_, j). j_type j \<in> set campaign_job_types \<and>
            (j_status j \<in> {''queued'', ''running''} \<or> utc_midnight now \<le> j_created_at j)) (db_jobs d))))
      in \<lparr>gs_active = count_if (\<lambda>(_, j). j_status j = ''running'') (db_jobs d),
          gs_deferred = map (\<lambda>pid. (pid, ct_deferred (count_active [] pid d))) pids,
          gs_used = map (\<lambda>pid. (pid, used_today now pid d)) pids\<rparr>)"

subsection \<open>Counting in closed form\<close>

definition live_kept :: "string list \<Rightarrow> string \<Rightarrow> db \<Rightarrow> (string \<times> job) list" where
  "live_kept ex pid d = filter (\<lambda>(k, _). k \<notin> set ex) (live_jobs pid d)"

lemma count_fold:
  "foldl (count_step ex) c ls =
     c\<lparr>ct_running := ct_running c + count_if (\<lambda>(k, j). k \<notin> set ex \<and> j_status j = ''running'') ls,
       ct_dispatched := ct_dispatched c + count_if (\<lambda>(k, j). k \<notin> set ex \<and> j_status j \<noteq> ''running'' \<and> \<not> is_deferred j) ls,
       ct_deferred := ct_deferred c + count_if (\<lambda>(k, j). k \<notin> set ex \<and> is_deferred j) ls,
       ct_ids := ct_ids c @ map fst (filter (\<lambda>(k, j). k \<notin> set ex \<and> is_deferred j) ls)\<rparr>"
proof (induction ls arbitrary: c)
  case (Cons kj ls)
  obtain k j where kj: "kj = (k, j)" by fastforce
  have "j_status j = ''running'' \<Longrightarrow> \<not> is_deferred j" by (simp add: is_deferred_def)
  then show ?case
    unfolding foldl.simps Cons.IH kj by (cases "k \<in> set ex"; cases "j_status j = ''running''"; cases "is_deferred j") (simp_all add: count_step_def)
qed simp

lemma count_active_eq:
  "count_active ex pid d =
     \<lparr>ct_running = count_if (\<lambda>(k, j). j_status j = ''running'') (live_kept ex pid d),
      ct_dispatched = count_if (\<lambda>(k, j). j_status j \<noteq> ''running'' \<and> \<not> is_deferred j) (live_kept ex pid d),
      ct_deferred = count_if (\<lambda>(k, j). is_deferred j) (live_kept ex pid d),
      ct_ids = map fst (filter (\<lambda>(k, j). is_deferred j) (live_kept ex pid d))\<rparr>"
  by (simp add: count_active_def count_fold live_kept_def count_if_def case_prod_beta')

lemma ct_deferred_ids: "ct_deferred (count_active ex pid d) = length (ct_ids (count_active ex pid d))"
  by (simp add: count_active_eq count_if_def)

lemma count_three: "ct_running c + ct_dispatched c + ct_deferred c = length (live_kept ex pid d)"
  if "c = count_active ex pid d"
proof -
  have "count_if (\<lambda>(k, j). j_status j = ''running'') ls + count_if (\<lambda>(k, j). j_status j \<noteq> ''running'' \<and> \<not> is_deferred j) ls
      + count_if (\<lambda>(k, j). is_deferred j) ls = length ls" for ls :: "(string \<times> job) list"
    by (induction ls) (auto simp: is_deferred_def)
  then show ?thesis using that by (simp add: count_active_eq)
qed

subsection \<open>Rewriting the details of the jobs\<close>

text \<open>\<open>retouched D d d'\<close>: \<open>d'\<close> holds the jobs of \<open>d\<close> up to detail and task id, and a job is deferred
  in \<open>d'\<close> when it was in \<open>d\<close> and is not one of \<open>D\<close>.\<close>

definition core_eq :: "job \<Rightarrow> job \<Rightarrow> bool" where
  "core_eq j j' \<longleftrightarrow> j_run j' = j_run j \<and> j_project j' = j_project j \<and> j_type j' = j_type j \<and>
     j_status j' = j_status j \<and> j_created_at j' = j_created_at j"

definition retouched :: "string set \<Rightarrow> db \<Rightarrow> db \<Rightarrow> bool" where
  "retouched D d d' \<longleftrightarrow> (\<exists>h. db_jobs d' = map (\<lambda>(k, j). (k, h k j)) (db_jobs d) \<and>
     (\<forall>(k, j) \<in> set (db_jobs d). core_eq j (h k j) \<and> is_deferred (h k j) = (is_deferred j \<and> k \<notin> D)))"

lemma retouched_refl: "retouched {} d d"
proof -
  have "map (\<lambda>(k, j). (k, j)) (db_jobs d) = db_jobs d" by (simp add: case_prod_beta')
  then show ?thesis unfolding retouched_def core_eq_def by (intro exI [of _ "\<lambda>k j. j"]) auto
qed

lemma update_map: "distinct (map fst xs) \<Longrightarrow> k \<in> fst ` set xs \<Longrightarrow>
    AList.update k v xs = map (\<lambda>(k', x). (k', if k' = k then v else x)) xs"
proof (induction xs)
  case (Cons p xs)
  obtain a b where p: "p = (a, b)" by fastforce
  have "map (\<lambda>(k', x). (k', if k' = a then v else x)) xs = xs" if "a \<notin> fst ` set xs"
    using that by (intro map_idI) force
  then show ?case using Cons by (auto simp: p)
qed simp

lemma retouched_put:
  assumes d: "distinct (map fst (db_jobs d))" and r: "retouched D d d'" and j: "dget (db_jobs d') k = Some j"
    and c: "core_eq j j'" and dj: "dget (db_jobs d) k = Some j0" "is_deferred j' = (is_deferred j0 \<and> k \<notin> E)"
    and E: "E - {k} = D - {k}" and x: "db_jobs d'' = dset k j' (db_jobs d')"
  shows "retouched E d d''"
proof -
  obtain h where h: "db_jobs d' = map (\<lambda>(k, j). (k, h k j)) (db_jobs d)"
    and hp: "\<And>a b. (a, b) \<in> set (db_jobs d) \<Longrightarrow> core_eq b (h a b) \<and> is_deferred (h a b) = (is_deferred b \<and> a \<notin> D)"
    using r unfolding retouched_def by fast
  let ?g = "\<lambda>a b. if a = k then j' else h a b"
  have m: "map_of (map (\<lambda>(k, j). (k, h k j)) xs) k = map_option (h k) (map_of xs k)" for xs
    by (induction xs) auto
  have "j = h k j0" using j dj(1) by (simp add: h m)
  moreover have mem: "(k, j0) \<in> set (db_jobs d)" using dj(1) by (rule map_of_SomeD)
  ultimately have "core_eq j0 j'" using hp [OF mem] c by (simp add: core_eq_def)
  moreover have "b = j0" if "(k, b) \<in> set (db_jobs d)" for b
    using map_of_is_SomeI [OF d that] dj(1) by simp
  moreover have "a \<notin> E \<longleftrightarrow> a \<notin> D" if "a \<noteq> k" for a using E that by auto
  ultimately have p: "core_eq b (?g a b) \<and> is_deferred (?g a b) = (is_deferred b \<and> a \<notin> E)"
    if "(a, b) \<in> set (db_jobs d)" for a b
    using hp [OF that] that dj(2) by auto
  have "distinct (map fst (db_jobs d'))" using d by (simp add: h case_prod_beta' comp_def)
  moreover have "k \<in> fst ` set (db_jobs d')" using map_of_SomeD [OF j] by force
  ultimately have "db_jobs d'' = map (\<lambda>(a, b). (a, if a = k then j' else b)) (db_jobs d')"
    by (simp add: x update_map)
  then have "db_jobs d'' = map (\<lambda>(a, b). (a, ?g a b)) (db_jobs d)" by (simp add: h case_prod_beta' comp_def)
  moreover have "\<forall>(a, b) \<in> set (db_jobs d). core_eq b (?g a b) \<and> is_deferred (?g a b) = (is_deferred b \<and> a \<notin> E)"
    unfolding Ball_def split_paired_All prod.case using p by blast
  ultimately show ?thesis unfolding retouched_def by (intro exI [of _ ?g] conjI)
qed

lemma sort_key_map: "sort_key f (map g xs) = map g (sort_key (f \<circ> g) xs)"
proof -
  have i: "insort_key f (g x) (map g ys) = map g (insort_key (f \<circ> g) x ys)" for x ys by (induction ys) auto
  show ?thesis by (induction xs) (auto simp: i [unfolded comp_def] comp_def)
qed

lemma insort_key_cong: "(\<And>y. y \<in> insert x (set ys) \<Longrightarrow> f y = g y) \<Longrightarrow> insort_key f x ys = insort_key g x ys"
  by (induction ys) auto

lemma sort_key_same: "(\<And>x. x \<in> set xs \<Longrightarrow> f x = g x) \<Longrightarrow> sort_key f xs = sort_key g xs"
proof (induction xs)
  case (Cons x xs)
  have "insort_key f x (sort_key g xs) = insort_key g x (sort_key g xs)"
    by (rule insort_key_cong) (use Cons.prems in auto)
  then show ?case using Cons by simp
qed simp

lemma live_retouched:
  assumes "retouched D d d'"
  shows "\<exists>h. live_kept ex pid d' = map (\<lambda>(k, j). (k, h k j)) (live_kept ex pid d) \<and>
     (\<forall>(k, j) \<in> set (live_kept ex pid d). core_eq j (h k j) \<and> is_deferred (h k j) = (is_deferred j \<and> k \<notin> D))"
proof -
  obtain h where h: "db_jobs d' = map (\<lambda>(k, j). (k, h k j)) (db_jobs d)"
    and hp: "\<And>a b. (a, b) \<in> set (db_jobs d) \<Longrightarrow> core_eq b (h a b) \<and> is_deferred (h a b) = (is_deferred b \<and> a \<notin> D)"
    using assms unfolding retouched_def by fast
  let ?h = "\<lambda>(k, j). (k, h k j)"
  have "filter ((\<lambda>(_, j). is_live pid j) \<circ> ?h) (db_jobs d) = filter (\<lambda>(_, j). is_live pid j) (db_jobs d)"
    using hp by (intro filter_cong) (auto simp: is_live_def core_eq_def)
  then have 1: "filter (\<lambda>(_, j). is_live pid j) (db_jobs d') = map ?h (filter (\<lambda>(_, j). is_live pid j) (db_jobs d))"
    by (simp add: h filter_map)
  have 2: "live_jobs pid d' = map ?h (live_jobs pid d)"
    unfolding live_jobs_def 1 sort_key_map
    by (rule arg_cong [of _ _ "map ?h"], rule sort_key_same) (use hp in \<open>auto simp: core_eq_def\<close>)
  have "filter ((\<lambda>(k, _). k \<notin> set ex) \<circ> ?h) (live_jobs pid d) = filter (\<lambda>(k, _). k \<notin> set ex) (live_jobs pid d)"
    by (intro filter_cong) auto
  then have "live_kept ex pid d' = map ?h (live_kept ex pid d)" by (simp add: live_kept_def 2 filter_map)
  moreover have "set (live_kept ex pid d) \<subseteq> set (db_jobs d)" by (auto simp: live_kept_def live_jobs_def)
  ultimately show ?thesis using hp by (intro exI [of _ h]) auto
qed

lemma count_retouched:
  assumes "retouched D d d'"
  shows "ct_ids (count_active ex pid d') = filter (\<lambda>k. k \<notin> D) (ct_ids (count_active ex pid d))"
    "ct_running (count_active ex pid d') = ct_running (count_active ex pid d)"
    "length (live_kept ex pid d') = length (live_kept ex pid d)"
proof -
  obtain h where h: "live_kept ex pid d' = map (\<lambda>(k, j). (k, h k j)) (live_kept ex pid d)"
    and hp: "\<And>k j. (k, j) \<in> set (live_kept ex pid d) \<Longrightarrow> core_eq j (h k j) \<and> is_deferred (h k j) = (is_deferred j \<and> k \<notin> D)"
    using live_retouched [OF assms, of ex pid] by fast
  have 1: "map fst (filter (\<lambda>(k, j). is_deferred j) (map (\<lambda>(k, j). (k, h k j)) ls))
      = filter (\<lambda>k. k \<notin> D) (map fst (filter (\<lambda>(k, j). is_deferred j) ls))"
    if "\<And>k j. (k, j) \<in> set ls \<Longrightarrow> is_deferred (h k j) = (is_deferred j \<and> k \<notin> D)" for ls
    using that by (induction ls) auto
  have 2: "count_if (\<lambda>(k, j). j_status j = ''running'') (map (\<lambda>(k, j). (k, h k j)) ls)
      = count_if (\<lambda>(k, j). j_status j = ''running'') ls"
    if "\<And>k j. (k, j) \<in> set ls \<Longrightarrow> core_eq j (h k j)" for ls
    using that by (induction ls) (auto simp: core_eq_def)
  show "ct_ids (count_active ex pid d') = filter (\<lambda>k. k \<notin> D) (ct_ids (count_active ex pid d))"
    "ct_running (count_active ex pid d') = ct_running (count_active ex pid d)"
    "length (live_kept ex pid d') = length (live_kept ex pid d)"
    using 1 [of "live_kept ex pid d"] 2 [of "live_kept ex pid d"] hp by (simp_all add: count_active_eq h)
qed

lemma live_kept_distinct: "distinct (map fst (db_jobs d)) \<Longrightarrow> distinct (map fst (live_kept ex pid d))"
  by (simp add: live_kept_def live_jobs_def distinct_map_filter distinct_map inj_on_def)

lemma ct_ids_distinct: "distinct (map fst (db_jobs d)) \<Longrightarrow> distinct (ct_ids (count_active ex pid d))"
  using live_kept_distinct [of d ex pid] by (simp add: count_active_eq distinct_map_filter)

lemma ct_ids_deferred:
  assumes "k \<in> set (ct_ids (count_active ex pid d))" "distinct (map fst (db_jobs d))"
  shows "\<exists>j. dget (db_jobs d) k = Some j \<and> is_deferred j"
proof -
  obtain j where "(k, j) \<in> set (db_jobs d)" "is_deferred j"
    using assms(1) by (auto simp: count_active_eq live_kept_def live_jobs_def)
  then show ?thesis using map_of_is_SomeI [OF assms(2)] by blast
qed

subsection \<open>The dispatcher loop\<close>

lemma dget_retouched: "retouched D d d' \<Longrightarrow> dget (db_jobs d) k = Some j0 \<Longrightarrow>
    \<exists>j. dget (db_jobs d') k = Some j \<and> core_eq j0 j \<and> is_deferred j = (is_deferred j0 \<and> k \<notin> D)"
proof -
  assume r: "retouched D d d'" and j: "dget (db_jobs d) k = Some j0"
  then obtain h where h: "db_jobs d' = map (\<lambda>(k, j). (k, h k j)) (db_jobs d)"
    and hp: "\<And>a b. (a, b) \<in> set (db_jobs d) \<Longrightarrow> core_eq b (h a b) \<and> is_deferred (h a b) = (is_deferred b \<and> a \<notin> D)"
    unfolding retouched_def by fast
  have "map_of (map (\<lambda>(k, j). (k, h k j)) xs) k = map_option (h k) (map_of xs k)" for xs by (induction xs) auto
  then show ?thesis using j hp [OF map_of_SomeD [OF j]] by (simp add: h)
qed

lemma db_jobs_put [simp]: "db_jobs (put_run r x d) = db_jobs d" "db_jobs (put_job k j d) = dset k j (db_jobs d)"
  by (simp_all add: put_run_def put_job_def)

lemma clear_jobs: "db_jobs (clear_deferred now k j d) = dset k (j\<lparr>j_detail := cleared now (j_detail j)\<rparr>) (db_jobs d)"
  by (simp add: clear_deferred_def Let_def split: option.split)

lemma restore_jobs: "dget (db_jobs d) k = Some j \<Longrightarrow>
    db_jobs (restore_deferred k err d) = dset k (j\<lparr>j_detail := restored err (j_detail j)\<rparr>) (db_jobs d)"
  by (simp add: restore_deferred_def Let_def split: option.split)

lemma not_deferred_cleared [simp]: "\<not> is_deferred (j\<lparr>j_detail := cleared now t\<rparr>)"
  by (simp add: is_deferred_def cleared_def jget_def json_truthy_def)

lemma deferred_restored [simp]: "is_deferred (j\<lparr>j_detail := restored err t\<rparr>) \<longleftrightarrow> j_status j = ''queued''"
  by (simp add: is_deferred_def restored_def jget_def json_truthy_def)

lemma retouched_clear:
  assumes "distinct (map fst (db_jobs d))" "retouched D d d'" "dget (db_jobs d) k = Some j0" "dget (db_jobs d') k = Some j"
  shows "retouched (insert k D) d (clear_deferred now k j d')"
  by (rule retouched_put [OF assms(1,2,4) _ assms(3) _ _ clear_jobs]) (simp_all add: core_eq_def)

lemma retouched_task_id:
  assumes d: "distinct (map fst (db_jobs d))" and r: "retouched D d d'" and j: "dget (db_jobs d) k = Some j0" and k: "k \<in> D"
  shows "retouched D d (set_task_id k t d')"
proof (cases t)
  case (Some i)
  obtain j' where j': "dget (db_jobs d') k = Some j'" "\<not> is_deferred j'" using dget_retouched [OF r j] k by blast
  show ?thesis
    by (rule retouched_put [OF d r j'(1) _ j, of "j'\<lparr>j_celery := Some i\<rparr>"])
      (use j' k Some in \<open>simp_all add: core_eq_def set_task_id_def is_deferred_def\<close>)
qed (simp add: set_task_id_def r)

lemma retouched_restore:
  assumes d: "distinct (map fst (db_jobs d))" and r: "retouched (insert k D) d d'" and j: "dget (db_jobs d) k = Some j0"
    and x: "is_deferred j0" "k \<notin> D"
  shows "retouched D d (restore_deferred k err d')"
proof -
  obtain j' where j': "dget (db_jobs d') k = Some j'" "core_eq j0 j'" using dget_retouched [OF r j] by blast
  then have "j_status j' = ''queued''" using x by (simp add: core_eq_def is_deferred_def)
  then show ?thesis
    by (intro retouched_put [OF d r j'(1) _ j _ _ restore_jobs [OF j'(1)]]) (use x in \<open>simp_all add: core_eq_def\<close>)
qed

lemma dispatch_loop_inv:
  assumes d: "distinct (map fst (db_jobs d))" and send: "de_send e = (\<lambda>k x. (f k, x))"
  shows "retouched (set (ds_dispatched s)) d (ds_db s) \<Longrightarrow> distinct ids \<Longrightarrow> set ids \<inter> set (ds_dispatched s) = {} \<Longrightarrow>
    (\<And>k. k \<in> set ids \<Longrightarrow> \<exists>j. dget (db_jobs d) k = Some j \<and> is_deferred j) \<Longrightarrow>
    dispatch_loop e now pid cap ids s = (x, s') \<Longrightarrow>
    \<exists>n. ds_dispatched s' = ds_dispatched s @ filter (\<lambda>k. is_ok (f k)) (take n ids) \<and>
        ds_failed s' = ds_failed s @ filter (\<lambda>k. \<not> is_ok (f k)) (take n ids) \<and>
        retouched (set (ds_dispatched s')) d (ds_db s') \<and>
        ds_active s' = ds_active s + length (filter (\<lambda>k. is_ok (f k)) (take n ids)) \<and>
        int (ds_active s') \<le> max (int (ds_active s)) cap \<and>
        (x = None \<longrightarrow> n = length ids \<or> cap \<le> int (ds_active s'))"
proof (induction ids arbitrary: s)
  case Nil
  then show ?case by (intro exI [of _ 0]) simp
next
  case (Cons k ids)
  show ?case
  proof (cases "cap \<le> int (ds_active s)")
    case True
    then show ?thesis using Cons.prems(1,5) by (intro exI [of _ 0]) simp
  next
    case free: False
    obtain j0 where j0: "dget (db_jobs d) k = Some j0" "is_deferred j0" using Cons.prems(4) [of k] by auto
    have kn: "k \<notin> set (ds_dispatched s)" using Cons.prems(3) by simp
    obtain j where j: "dget (db_jobs (ds_db s)) k = Some j" "is_deferred j"
      using dget_retouched [OF Cons.prems(1) j0(1)] j0(2) kn by blast
    let ?d1 = "clear_deferred now k j (ds_db s)"
    have r1: "retouched (insert k (set (ds_dispatched s))) d ?d1"
      by (rule retouched_clear [OF d Cons.prems(1) j0(1) j(1)])
    let ?a = "audit_opt e (dispatch_call (de_actor e) now pid cap (ds_active s) k j) now (ds_audit s)"
    have step: "dispatch_loop e now pid cap (k # ids) s = (case ?a of Inl y \<Rightarrow> (Some y, s)
       | Inr w \<Rightarrow> (case f k of
            Inl err \<Rightarrow> dispatch_loop e now pid cap ids
               (s\<lparr>ds_db := restore_deferred k err ?d1, ds_audit := w, ds_failed := ds_failed s @ [k]\<rparr>)
          | Inr t \<Rightarrow> dispatch_loop e now pid cap ids
               (s\<lparr>ds_db := set_task_id k t ?d1, ds_audit := w, ds_active := Suc (ds_active s),
                  ds_dispatched := ds_dispatched s @ [k]\<rparr>)))"
      using free j by (simp add: send split: sum.split)
    show ?thesis
    proof (cases ?a)
      case (Inl y)
      then have "x = Some y" "s' = s" using Cons.prems(5) unfolding step by auto
      then show ?thesis using Cons.prems(1) by (intro exI [of _ 0]) simp
    next
      case (Inr w)
      show ?thesis
      proof (cases "f k")
        case (Inl err)
        let ?s = "s\<lparr>ds_db := restore_deferred k err ?d1, ds_audit := w, ds_failed := ds_failed s @ [k]\<rparr>"
        have "dispatch_loop e now pid cap ids ?s = (x, s')" using Cons.prems(5) unfolding step using Inl \<open>?a = Inr w\<close> by simp
        moreover have "retouched (set (ds_dispatched ?s)) d (ds_db ?s)"
          using retouched_restore [OF d r1 j0 kn] by simp
        ultimately obtain n where "ds_dispatched s' = ds_dispatched s @ filter (\<lambda>k. is_ok (f k)) (take n ids) \<and>
            ds_failed s' = (ds_failed s @ [k]) @ filter (\<lambda>k. \<not> is_ok (f k)) (take n ids) \<and>
            retouched (set (ds_dispatched s')) d (ds_db s') \<and>
            ds_active s' = ds_active s + length (filter (\<lambda>k. is_ok (f k)) (take n ids)) \<and>
            int (ds_active s') \<le> max (int (ds_active s)) cap \<and> (x = None \<longrightarrow> n = length ids \<or> cap \<le> int (ds_active s'))"
          using Cons.IH [of ?s] Cons.prems(2-4) by auto
        then show ?thesis using Inl by (intro exI [of _ "Suc n"]) auto
      next
        case (Inr t)
        let ?s = "s\<lparr>ds_db := set_task_id k t ?d1, ds_audit := w, ds_active := Suc (ds_active s),
                  ds_dispatched := ds_dispatched s @ [k]\<rparr>"
        have "dispatch_loop e now pid cap ids ?s = (x, s')" using Cons.prems(5) unfolding step using Inr \<open>?a = Inr w\<close> by simp
        moreover have "retouched (set (ds_dispatched ?s)) d (ds_db ?s)"
          using retouched_task_id [OF d r1 j0(1)] by simp
        ultimately obtain n where "ds_dispatched s' = (ds_dispatched s @ [k]) @ filter (\<lambda>k. is_ok (f k)) (take n ids) \<and>
            ds_failed s' = ds_failed s @ filter (\<lambda>k. \<not> is_ok (f k)) (take n ids) \<and>
            retouched (set (ds_dispatched s')) d (ds_db s') \<and>
            ds_active s' = Suc (ds_active s) + length (filter (\<lambda>k. is_ok (f k)) (take n ids)) \<and>
            int (ds_active s') \<le> max (int (Suc (ds_active s))) cap \<and> (x = None \<longrightarrow> n = length ids \<or> cap \<le> int (ds_active s'))"
          using Cons.IH [of ?s] Cons.prems(2-4) by auto
        moreover have "max (int (Suc (ds_active s))) cap = cap" "max (int (ds_active s)) cap = cap" using free by auto
        ultimately show ?thesis using Inr by (intro exI [of _ "Suc n"]) auto
      qed
    qed
  qed
qed

subsection \<open>Properties\<close>

lemma active_retouched:
  assumes "distinct (map fst (db_jobs d))" "retouched (set go) d d'" "set go \<subseteq> set (ct_ids (count_active ex pid d))" "distinct go"
  shows "ct_active (count_active ex pid d') = ct_active (count_active ex pid d) + length go"
proof -
  let ?c = "count_active ex pid d" let ?c' = "count_active ex pid d'"
  have "length (filter (\<lambda>k. k \<notin> set go) (ct_ids ?c)) = card (set (ct_ids ?c) - set go)"
    using ct_ids_distinct [OF assms(1), of ex pid] by (simp add: distinct_card [symmetric] set_diff_eq)
  also have "\<dots> = length (ct_ids ?c) - length go"
    using assms(3,4) ct_ids_distinct [OF assms(1), of ex pid] by (simp add: card_Diff_subset distinct_card)
  finally have l: "ct_deferred ?c' = ct_deferred ?c - length go"
    by (simp add: ct_deferred_ids count_retouched(1) [OF assms(2)])
  have "length go \<le> ct_deferred ?c"
    using card_mono [OF _ assms(3)] assms(4) ct_ids_distinct [OF assms(1), of ex pid] by (simp add: distinct_card ct_deferred_ids)
  then show ?thesis
    using l count_three [of ?c ex pid d] count_three [of ?c' ex pid d'] count_retouched(2,3) [OF assms(2), of ex pid]
    by (simp add: ct_active_def)
qed

lemma loop_start:
  assumes "distinct (map fst (db_jobs d))" "de_send e = (\<lambda>k x. (f k, x))"
    "dispatch_loop e now pid cap (ct_ids c) \<lparr>ds_db = d, ds_audit = w, ds_active = ct_active c, ds_dispatched = [], ds_failed = []\<rparr> = (x, s)"
    "c = count_active ex p d"
  shows "\<exists>n. ds_dispatched s = filter (\<lambda>k. is_ok (f k)) (take n (ct_ids c)) \<and>
        ds_failed s = filter (\<lambda>k. \<not> is_ok (f k)) (take n (ct_ids c)) \<and>
        retouched (set (ds_dispatched s)) d (ds_db s) \<and> ds_active s = ct_active c + length (ds_dispatched s) \<and>
        int (ds_active s) \<le> max (int (ct_active c)) cap \<and> (x = None \<longrightarrow> n = length (ct_ids c) \<or> cap \<le> int (ds_active s))"
proof -
  have k: "\<And>k. k \<in> set (ct_ids c) \<Longrightarrow> \<exists>j. dget (db_jobs d) k = Some j \<and> is_deferred j"
    using ct_ids_deferred assms(1,4) by blast
  obtain n where "ds_dispatched s = [] @ filter (\<lambda>k. is_ok (f k)) (take n (ct_ids c)) \<and>
        ds_failed s = [] @ filter (\<lambda>k. \<not> is_ok (f k)) (take n (ct_ids c)) \<and>
        retouched (set (ds_dispatched s)) d (ds_db s) \<and>
        ds_active s = ct_active c + length (filter (\<lambda>k. is_ok (f k)) (take n (ct_ids c))) \<and>
        int (ds_active s) \<le> max (int (ct_active c)) cap \<and> (x = None \<longrightarrow> n = length (ct_ids c) \<or> cap \<le> int (ds_active s))"
    using dispatch_loop_inv [OF assms(1,2) _ _ _ k assms(3)] ct_ids_distinct [OF assms(1)] assms(4)
    by (simp only: dispatch_state.simps retouched_refl list.set inf_bot_right) blast
  then show ?thesis by (intro exI [of _ n]) auto
qed

lemma pass_effect:
  assumes "distinct (map fst (db_jobs d))" "de_send e = (\<lambda>k x. (f k, x))"
    "dispatch_project e now projects pid d w rp = (res, d', w')"
  shows "\<exists>n. let cap = cap_max (effective_caps (de_vars e) (dget projects pid));
      c = count_active (de_exclude e) pid d; c' = count_active (de_exclude e) pid d';
      tried = take n (ct_ids c); sent = filter (\<lambda>k. is_ok (f k)) tried; lost = filter (\<lambda>k. \<not> is_ok (f k)) tried
    in ct_ids c' = filter (\<lambda>k. k \<notin> set sent) (ct_ids c) \<and>
       ct_active c' = ct_active c + length sent \<and>
       int (ct_active c') \<le> max (int (ct_active c)) cap \<and>
       (case res of Inl x \<Rightarrow> w \<noteq> None
        | Inr rp' \<Rightarrow> (n = length (ct_ids c) \<or> cap \<le> int (ct_active c')) \<and>
            rp_dispatched rp' = (if sent = [] then rp_dispatched rp else dset pid sent (rp_dispatched rp)) \<and>
            rp_failed rp' = (if lost = [] then rp_failed rp else dset pid lost (rp_failed rp)) \<and>
            dget (rp_still rp') pid = Some (ct_deferred c') \<and> dget (rp_active rp') pid = Some (ct_active c'))"
proof -
  let ?cap = "cap_max (effective_caps (de_vars e) (dget projects pid))"
  let ?c = "count_active (de_exclude e) pid d"
  let ?s = "\<lparr>ds_db = d, ds_audit = w, ds_active = ct_active ?c, ds_dispatched = [], ds_failed = []\<rparr>"
  obtain x s where loop: "dispatch_loop e now pid ?cap (ct_ids ?c) ?s = (x, s)" by fastforce
  obtain n where n: "ds_dispatched s = filter (\<lambda>k. is_ok (f k)) (take n (ct_ids ?c))"
      "ds_failed s = filter (\<lambda>k. \<not> is_ok (f k)) (take n (ct_ids ?c))"
      "retouched (set (ds_dispatched s)) d (ds_db s)"
      "ds_active s = ct_active ?c + length (ds_dispatched s)"
      "int (ds_active s) \<le> max (int (ct_active ?c)) ?cap"
      "x = None \<longrightarrow> n = length (ct_ids ?c) \<or> ?cap \<le> int (ds_active s)"
    using loop_start [OF assms(1,2) loop refl] by blast
  have sub: "set (ds_dispatched s) \<subseteq> set (ct_ids ?c)" "distinct (ds_dispatched s)"
    unfolding n(1) using ct_ids_distinct [OF assms(1), of "de_exclude e" pid] by (auto dest: in_set_takeD)
  note a = active_retouched [OF assms(1) n(3) sub] and i = count_retouched(1) [OF n(3), of "de_exclude e" pid]
  have d': "d' = ds_db s" using assms(3) loop by (auto simp: dispatch_project_def Let_def split: option.splits)
  have none: "audit_opt e y t None = Inr None" for y t by (simp add: audit_opt_def)
  have W: "x = None \<and> ds_audit s = None" if "dispatch_loop e now pid cap ids t = (x, s)" "ds_audit t = None" for cap ids t
    using that
    by (induction ids arbitrary: t) (auto simp: none split: if_splits option.splits sum.splits prod.splits)
  have R: "case res of Inl y \<Rightarrow> w \<noteq> None
        | Inr rp' \<Rightarrow> x = None \<and>
            rp_dispatched rp' = (if ds_dispatched s = [] then rp_dispatched rp else dset pid (ds_dispatched s) (rp_dispatched rp)) \<and>
            rp_failed rp' = (if ds_failed s = [] then rp_failed rp else dset pid (ds_failed s) (rp_failed rp)) \<and>
            dget (rp_still rp') pid = Some (ct_deferred (count_active (de_exclude e) pid (ds_db s))) \<and>
            dget (rp_active rp') pid = Some (ct_active (count_active (de_exclude e) pid (ds_db s)))"
    using assms(3) loop W [OF loop] by (cases x; cases w) (auto simp: dispatch_project_def Let_def)
  show ?thesis
    unfolding Let_def d' using n(4-6) a i R by (intro exI [of _ n]) (auto simp flip: n(1,2) split: sum.splits)
qed


definition ex_queued :: "int \<Rightarrow> bool \<Rightarrow> job" where
  "ex_queued t b = (ex_job ''queued'' None)\<lparr>j_created_at := t, j_detail := [(''deferred'', JBool b)]\<rparr>"

definition ex_broker :: "string \<Rightarrow> (string, string option) result" where
  "ex_broker k = (if k = ''a'' then Inl ''down'' else Inr None)"

definition ex_dispatch :: "unit dispatch_env" where
  "ex_dispatch = \<lparr>de_append = (\<lambda>_ _ w. Inr (w, [])), de_send = (\<lambda>k x. (ex_broker k, x)),
     de_vars = [], de_exclude = [], de_actor = ''system:capacity''\<rparr>"

definition ex_jobs :: db where
  "ex_jobs = \<lparr>db_jobs = [(''c'', ex_queued 3 True), (''a'', ex_queued 1 True), (''b'', ex_queued 2 True),
      (''z'', ex_queued 0 False)], db_runs = []\<rparr>"


lemma budget_refusal_ok: "\<exists>r. budget_refusal b u q now = Inr r \<and> ar_status r = 429 \<and> ar_code r = ''daily_budget_exceeded''"
proof -
  have "dget http_status_table ''daily_budget_exceeded'' = Some 429" by code_simp
  moreover have "''daily_budget_exceeded'' \<notin> set marker_codes" by code_simp
  ultimately show ?thesis
    by (simp add: budget_refusal_def api_error_of_def refuse_marker_def error_detail_def http_status_def Let_def)
qed

text \<open>C24. An admission is decided by the counts alone: an unknown kind is an error; a campaign is
  refused with 429 exactly when the requested admissions do not fit the daily budget, and with
  a writer only after an unsuccessful event is on the project's chain; every other admission is
  accepted, deferred exactly when the slots in use reach the cap, and writes no event.\<close>

theorem admission_decision:
  "let cps = effective_caps (aa_env a) p; n = max requested 1;
       over = (dget admission_kinds kind = Some ''attack.run'' \<and>
         (case cap_budget cps of None \<Rightarrow> False | Some b \<Rightarrow> b < used_today now pid d + n))
   in case admit_or_defer a pid p kind requested now d w of
     (Inr c, w') \<Rightarrow> \<not> over \<and> w' = w \<and> dget admission_kinds kind = Some (dc_job_type c) \<and> dc_project c = pid \<and>
        dc_deferred c = (cap_max cps \<le> int (ct_active (count_active (aa_exclude a) pid d)))
   | (Inl e, w') \<Rightarrow> (case e of
        UnknownKind k \<Rightarrow> k = kind \<and> dget admission_kinds kind = None \<and> w' = w
      | BudgetExceeded r \<Rightarrow> over \<and> ar_status r = 429 \<and> ar_code r = ''daily_budget_exceeded'' \<and>
          (case w of None \<Rightarrow> w' = None
           | Some v \<Rightarrow> \<exists>c v' ev. aa_append a c now v = Inr (v', ev) \<and> w' = Some v' \<and> \<not> ac_success c \<and> ac_project c = Some pid)
      | CapacityAudit x \<Rightarrow> over \<and> w' = w
      | CapacityCode x \<Rightarrow> False)"
proof (cases "dget admission_kinds kind")
  case None
  then show ?thesis by (simp add: admit_or_defer_def)
next
  case (Some ty)
  let ?cps = "effective_caps (aa_env a) p" and ?n = "max requested 1"
  let ?over = "ty = ''attack.run'' \<and> (case cap_budget ?cps of None \<Rightarrow> False | Some b \<Rightarrow> b < used_today now pid d + ?n)"
  have eq: "(case cap_budget ?cps of None \<Rightarrow> False
      | Some b \<Rightarrow> ty \<in> set admission_job_types \<and> b < (if ty \<in> set admission_job_types then used_today now pid d else 0) + ?n) = ?over"
    by (auto simp: admission_job_types_def split: option.splits)
  show ?thesis
  proof (cases ?over)
    case False
    then show ?thesis unfolding admit_or_defer_def Some Let_def option.case eq if_not_P [OF False] by simp
  next
    case True
    then obtain b where b: "cap_budget ?cps = Some b" by (auto split: option.splits)
    have u: "(if ty \<in> set admission_job_types then used_today now pid d else 0) = used_today now pid d"
      using True by (simp add: admission_job_types_def)
    have over: "ty \<in> set admission_job_types \<and> b < used_today now pid d + ?n"
      using True b by (simp add: admission_job_types_def)
    obtain r where r: "budget_refusal b (used_today now pid d) requested now = Inr r" "ar_status r = 429"
        "ar_code r = ''daily_budget_exceeded''"
      using budget_refusal_ok by blast
    let ?call = "refusal_call r kind ty b (used_today now pid d) requested (iso_z (budget_resets_at now)) ?cps
       (aa_actor a) (aa_action a) (aa_context a) pid"
    have run: "admit_or_defer a pid p kind requested now d w = (case w of
          None \<Rightarrow> (Inl (BudgetExceeded r), None)
        | Some v \<Rightarrow> (case aa_append a ?call now v of Inl e \<Rightarrow> (Inl (CapacityAudit e), w)
            | Inr (v', _) \<Rightarrow> (Inl (BudgetExceeded r), Some v')))"
      unfolding admit_or_defer_def Some Let_def option.case u b if_P [OF over] option.sel r(1) sum.case by (rule refl)
    have c: "\<not> ac_success ?call" "ac_project ?call = Some pid" by (simp_all add: refusal_call_def Let_def)
    show ?thesis
    proof (cases w)
      case None
      then show ?thesis using True r unfolding run Let_def \<open>dget admission_kinds kind = Some ty\<close> by (simp add: b)
    next
      case (Some v)
      then show ?thesis using True r c unfolding run Let_def \<open>dget admission_kinds kind = Some ty\<close>
        by (cases "aa_append a ?call now v") (auto simp: b intro!: exI [of _ ?call])
    qed
  qed
qed

text \<open>The budget holds after the rows are written: once a campaign admission of \<open>requested\<close>
  members is accepted and at most that many new jobs are added, the admissions counted at any
  time of the same UTC day do not exceed the budget.\<close>

theorem budget_kept:
  assumes "admit_or_defer a pid p ''campaign'' requested now d w = (Inr c, w')"
    "cap_budget (effective_caps (aa_env a) p) = Some b"
    "int (length js) \<le> dc_requested c" "utc_midnight t = utc_midnight now"
  shows "used_today t pid (d\<lparr>db_jobs := db_jobs d @ js\<rparr>) \<le> b"
proof -
  have k: "dget admission_kinds ''campaign'' = Some ''attack.run''" by code_simp
  have m: "''attack.run'' \<in> set admission_job_types" by (simp add: admission_job_types_def)
  have "\<not> b < used_today now pid d + max requested 1 \<and> dc_requested c = max requested 1"
    using assms(1) unfolding admit_or_defer_def k option.case Let_def assms(2)
    by (auto simp: m split: if_splits option.splits sum.splits prod.splits)
  moreover have "used_today t pid (d\<lparr>db_jobs := db_jobs d @ js\<rparr>) \<le> used_today now pid d + int (length js)"
    using count_if_le [of _ js] by (simp add: used_today_def assms(4))
  ultimately show ?thesis using assms(3) by linarith
qed

definition ex_admit :: "(string, string) dict \<Rightarrow> unit admit_args" where
  "ex_admit env = \<lparr>aa_env = env, aa_append = (\<lambda>_ _ w. Inr (w, [])), aa_actor = None, aa_action = None,
     aa_exclude = [], aa_context = []\<rparr>"

theorem budget_kept_witness:
  "used_today 5 ''p'' (ex_jobs\<lparr>db_jobs := db_jobs ex_jobs @ [(''n'', ex_queued 5 False)]\<rparr>) \<le> 5"
proof -
  have "case admit_or_defer (ex_admit []) ''p'' (Some \<lparr>p_max_concurrent = None, p_daily_budget = Some 5\<rparr>) ''campaign'' 1 5 ex_jobs None of
      (Inr c, _) \<Rightarrow> dc_requested c = 1 | (Inl _, _) \<Rightarrow> False" by code_simp
  moreover have "cap_budget (effective_caps (aa_env (ex_admit [])) (Some \<lparr>p_max_concurrent = None, p_daily_budget = Some 5\<rparr>)) = Some 5"
    by code_simp
  ultimately show ?thesis
    using budget_kept [of "ex_admit []" "''p''" "Some \<lparr>p_max_concurrent = None, p_daily_budget = Some 5\<rparr>" 1 5 ex_jobs None
        _ _ 5 "[(''n'', ex_queued 5 False)]" 5] by (auto split: prod.splits sum.splits)
qed

end
