(* ===== verification/Idempotency.thy ===== *)
theory Idempotency
  imports ApiErrors Sha256 "HOL-Library.Multiset"
begin

text \<open>
  \<open>api/middleware/idempotency.py\<close>: the identity of a request with an \<open>Idempotency-Key\<close>, the
  reservation of a row before the route runs, the replay of a stored response and the release or
  storage afterwards. The route is a function on the application state and the table, so that
  other requests may change the table while it runs. Times are microseconds. Database failures
  and the race of two reservations are flags of the request. \<open>json.loads\<close> (with the UTF-8 decoding
  before it), the resolution of credentials and the row lookups are fields of the environment.
\<close>

subsection \<open>Requests\<close>

datatype body_msg = HttpRequest string bool | HttpDisconnect

record http_req =
  hr_http :: bool
  hr_method :: string
  hr_path :: string
  hr_query :: string
  hr_headers :: "(string, string) dict"     \<comment> \<open>names in lower case\<close>
  hr_cookies :: "(string, string) dict"
  hr_project :: "string option"             \<comment> \<open>the query parameter \<open>project\<close>\<close>
  hr_messages :: "body_msg list"

fun read_body :: "body_msg list \<Rightarrow> string" where
  "read_body [] = []"
| "read_body (HttpDisconnect # ms) = []"
| "read_body (HttpRequest b cont # ms) = b @ (if cont then read_body ms else [])"

definition mutating_methods :: "string list" where
  "mutating_methods = [''POST'', ''PUT'', ''PATCH'', ''DELETE'']"

text \<open>\<open>(/|$)\<close>: the end, a final line break, or a slash.\<close>

definition at_boundary :: "string \<Rightarrow> bool" where
  "at_boundary r \<longleftrightarrow> r = [] \<or> r = [CHR 0x0A] \<or> (\<exists>t. r = CHR ''/'' # t)"

lemma at_boundary_code [code]:
  "at_boundary r = (case r of [] \<Rightarrow> True | c # t \<Rightarrow> c = CHR ''/'' \<or> (c = CHR 0x0A \<and> t = []))"
  by (auto simp: at_boundary_def split: list.split)

definition covered_path :: "string \<Rightarrow> bool" where
  "covered_path path = list_ex (\<lambda>w. starts_with (''/v1/'' @ w) path \<and> at_boundary (drop (4 + length w) path))
     [''models'', ''findings'', ''runs'', ''campaigns'', ''datasets'']"

definition is_covered :: "string \<Rightarrow> string \<Rightarrow> bool" where
  "is_covered method path \<longleftrightarrow> upper method \<in> set mutating_methods \<and> covered_path path"

definition path_project :: "(string \<times> string) list" where
  "path_project = [(''/v1/models/'', ''Target''), (''/v1/findings/'', ''Finding''), (''/v1/runs/'', ''Run''),
     (''/v1/campaigns/batch/'', ''MlBatch'')]"

text \<open>The group \<open>id\<close> of a pattern: the segment after the prefix, not empty.\<close>

definition path_id :: "string \<Rightarrow> string \<Rightarrow> string option" where
  "path_id prefix path =
     (if starts_with prefix path
      then (let i = takeWhile (\<lambda>c. c \<noteq> CHR ''/'') (drop (length prefix) path) in if i = [] then None else Some i)
      else None)"

datatype strategy = ByBody | ByBodyRun | ByRow string

definition rstrip_slash :: "string \<Rightarrow> string" where
  "rstrip_slash p = (let c = rev (dropWhile (\<lambda>c. c = CHR ''/'') (rev p)) in if c = [] then ''/'' else c)"

definition body_project_paths :: "string list" where
  "body_project_paths = [''/v1/models'', ''/v1/models/bulk'', ''/v1/campaigns/batch'', ''/v1/datasets'']"

definition body_run_paths :: "string list" where
  "body_run_paths = [''/v1/findings'']"

definition resolution_strategy :: "string \<Rightarrow> strategy option" where
  "resolution_strategy path =
     (let clean = rstrip_slash path in
      if clean \<in> set body_project_paths then Some ByBody
      else if clean \<in> set body_run_paths then Some ByBodyRun
      else map_option (\<lambda>(_, name). ByRow name) (find (\<lambda>(prefix, _). path_id prefix path \<noteq> None) path_project))"

definition stored_key :: "string \<Rightarrow> string \<Rightarrow> string" where
  "stored_key who raw = sha256 (who @ [CHR 0x0A] @ raw)"

text \<open>The white space \<open>bytes.strip\<close> removes.\<close>

definition blank :: "string \<Rightarrow> bool" where
  "blank b = list_all (\<lambda>c. let n = of_char c :: nat in n = 32 \<or> (9 \<le> n \<and> n \<le> 13)) b"

definition canonical_query :: "string \<Rightarrow> string" where
  "canonical_query q = join ''&'' (sort (filter (\<lambda>p. p \<noteq> []) (split_on CHR ''&'' q)))"

definition canonical_body :: "(string \<Rightarrow> json option) \<Rightarrow> string \<Rightarrow> string" where
  "canonical_body loads b =
     (if blank b then [] else case loads b of None \<Rightarrow> b | Some v \<Rightarrow> json_dumps_sorted v)"

definition digest_input :: "(string \<Rightarrow> json option) \<Rightarrow> string \<Rightarrow> string \<Rightarrow> string \<Rightarrow> string \<Rightarrow> string" where
  "digest_input loads method path query body =
     concat (map (\<lambda>p. p @ [CHR 0x00]) [upper method, path, canonical_query query, canonical_body loads body])"

definition request_digest :: "(string \<Rightarrow> json option) \<Rightarrow> string \<Rightarrow> string \<Rightarrow> string \<Rightarrow> string \<Rightarrow> string" where
  "request_digest loads method path query body = sha256 (digest_input loads method path query body)"

subsection \<open>The environment\<close>

type_synonym identity = "string \<times> string"

record idem_row =
  ik_route :: string
  ik_digest :: string
  ik_status :: int
  ik_body :: json
  ik_created :: int

type_synonym idem_table = "(identity, idem_row) dict"

record captured =
  cp_status :: "int option"
  cp_headers :: "(string \<times> string) list"
  cp_chunks :: "string list"

record idem_settings =
  is_cookie_name :: string
  is_token :: "string \<Rightarrow> string option"
  is_cookie :: "string \<Rightarrow> string option"

record 's idem_env =
  ie_loads :: "string \<Rightarrow> json option"
  ie_settings :: "idem_settings option"
  ie_override :: "string option"
  ie_row_project :: "string \<Rightarrow> string \<Rightarrow> string option"
  ie_app :: "http_req \<Rightarrow> 's \<times> idem_table \<Rightarrow> captured \<times> bool \<times> 's \<times> idem_table"   \<comment> \<open>response, raised\<close>

record idem_faults =
  ft_reserve :: bool
  ft_race :: "idem_table option"     \<comment> \<open>the table after a concurrent insert of the same key\<close>
  ft_release :: bool
  ft_store :: bool

definition credential_user :: "idem_settings option \<Rightarrow> http_req \<Rightarrow> string option" where
  "credential_user settings r = (case settings of None \<Rightarrow> None
     | Some st \<Rightarrow>
         let auth = dget_or [] (hr_headers r) ''authorization'' in
         if auth \<noteq> [] \<and> starts_with ''bearer '' (lower auth)
         then is_token st (strip (tl (dropWhile (\<lambda>c. c \<noteq> CHR '' '') auth)))
         else (let c = dget_or [] (hr_cookies r) (is_cookie_name st) in if c = [] then None else is_cookie st c))"

definition principal_of :: "'s idem_env \<Rightarrow> http_req \<Rightarrow> string" where
  "principal_of e r =
     (case (case ie_override e of None \<Rightarrow> credential_user (ie_settings e) r | Some s \<Rightarrow> Some s) of
        None \<Rightarrow> ''anonymous'' | Some s \<Rightarrow> ''sub:'' @ s)"

definition body_field :: "(string \<Rightarrow> json option) \<Rightarrow> string \<Rightarrow> string \<Rightarrow> string option" where
  "body_field loads body key =
     (if blank body then None
      else case loads body of
          Some (JObj d) \<Rightarrow> (case jget d key of JStr s \<Rightarrow> if s = [] then None else Some s | _ \<Rightarrow> None)
        | _ \<Rightarrow> None)"

definition project_of :: "'s idem_env \<Rightarrow> http_req \<Rightarrow> string \<Rightarrow> string option" where
  "project_of e r body = (case resolution_strategy (hr_path r) of
      None \<Rightarrow> None
    | Some ByBody \<Rightarrow>
        if truthy (hr_project r) then hr_project r else body_field (ie_loads e) body ''project_id''
    | Some ByBodyRun \<Rightarrow>
        (case body_field (ie_loads e) body ''run_id'' of None \<Rightarrow> None | Some i \<Rightarrow> ie_row_project e ''Run'' i)
    | Some (ByRow name) \<Rightarrow>
        (case find (\<lambda>(prefix, m). path_id prefix (hr_path r) \<noteq> None \<and> m = name) path_project of
           None \<Rightarrow> None
         | Some (prefix, m) \<Rightarrow> (case path_id prefix (hr_path r) of None \<Rightarrow> None | Some i \<Rightarrow> ie_row_project e m i)))"

subsection \<open>The table\<close>

definition idempotency_ttl :: int where "idempotency_ttl = 24 * 3600 * 1000000"

definition reserved_status :: int where "reserved_status = 0"

definition row_expired :: "int \<Rightarrow> idem_row \<Rightarrow> bool" where
  "row_expired now r \<longleftrightarrow> idempotency_ttl < now - ik_created r"

datatype verdict = VReused | VInFlight | VReplay int json | VReserved

definition new_row :: "int \<Rightarrow> string \<Rightarrow> string \<Rightarrow> idem_row" where
  "new_row now route digest =
     \<lparr>ik_route = route, ik_digest = digest, ik_status = reserved_status, ik_body = JNull, ik_created = now\<rparr>"

definition live_row :: "int \<Rightarrow> idem_table \<Rightarrow> identity \<Rightarrow> idem_row option" where
  "live_row now t k = (case dget t k of None \<Rightarrow> None | Some r \<Rightarrow> if row_expired now r then None else Some r)"

definition reserve :: "idem_faults \<Rightarrow> int \<Rightarrow> identity \<Rightarrow> string \<Rightarrow> string \<Rightarrow> idem_table \<Rightarrow> (verdict \<times> idem_table) option" where
  "reserve ft now k route digest t =
     (if ft_reserve ft then None
      else case live_row now t k of
        Some r \<Rightarrow>
          if ik_route r \<noteq> route \<or> ik_digest r \<noteq> digest then Some (VReused, t)
          else if ik_status r = reserved_status then Some (VInFlight, t)
          else Some (VReplay (ik_status r) (ik_body r), t)
      | None \<Rightarrow> (case ft_race ft of
            Some t' \<Rightarrow> Some (VInFlight, t')
          | None \<Rightarrow> Some (VReserved, dset k (new_row now route digest) (ddel k t))))"

definition release :: "idem_faults \<Rightarrow> identity \<Rightarrow> idem_table \<Rightarrow> idem_table" where
  "release ft k t =
     (if ft_release ft then t
      else case dget t k of None \<Rightarrow> t | Some r \<Rightarrow> if ik_status r = reserved_status then ddel k t else t)"

definition max_stored_body_bytes :: int where "max_stored_body_bytes = 64 * 1024"

definition content_type_of :: "(string \<times> string) list \<Rightarrow> string" where
  "content_type_of hs = foldl (\<lambda>acc (n, v). if lower n = ''content-type'' then lower v else acc) [] hs"

text \<open>The status and the payload to store, when there are.\<close>

definition storable :: "(string \<Rightarrow> json option) \<Rightarrow> captured \<Rightarrow> (int \<times> json) option" where
  "storable loads c =
     (let body = concat (cp_chunks c) in
      case cp_status c of
        None \<Rightarrow> None
      | Some s \<Rightarrow>
          if 200 \<le> s \<and> s < 300 \<and> starts_with ''application/json'' (content_type_of (cp_headers c))
             \<and> int (length body) \<le> max_stored_body_bytes
          then map_option (\<lambda>v. (s, v)) (loads body) else None)"

definition finish :: "idem_faults \<Rightarrow> (string \<Rightarrow> json option) \<Rightarrow> identity \<Rightarrow> captured \<Rightarrow> idem_table \<Rightarrow> idem_table" where
  "finish ft loads k c t = (case storable loads c of
      None \<Rightarrow> release ft k t
    | Some (s, v) \<Rightarrow>
        if ft_store ft then t
        else (case dget t k of None \<Rightarrow> t | Some r \<Rightarrow> dset k (r\<lparr>ik_status := s, ik_body := v\<rparr>) t))"

subsection \<open>The middleware\<close>

datatype reply = Sent captured bool | Answer int json "(string \<times> string) list"

text \<open>A code outside the table is answered with 409; the inner error branch is not reachable.\<close>

definition refusal :: "string \<Rightarrow> string \<Rightarrow> jdict \<Rightarrow> reply" where
  "refusal code message extra = (case dget http_status_table code of
      Some s \<Rightarrow> (case error_detail code (Some message) extra of
          Inr d \<Rightarrow> Answer s (JObj [(''detail'', JObj d)]) [] | Inl _ \<Rightarrow> Answer s JNull [])
    | None \<Rightarrow> Answer 409 (JObj [(''detail'',
        JObj (dict_update [(''code'', JStr code), (''message'', JStr message)] extra))]) [])"

definition pass_on :: "'s idem_env \<Rightarrow> http_req \<Rightarrow> 's \<times> idem_table \<Rightarrow> reply \<times> 's \<times> idem_table" where
  "pass_on e r st = (case ie_app e r st of (c, raised, st') \<Rightarrow> (Sent c raised, st'))"

definition key_field :: jdict where "key_field = [(''field'', JStr ''Idempotency-Key'')]"

text \<open>Row identity, route and digest of a request that reaches the table.\<close>

definition keyed :: "'s idem_env \<Rightarrow> http_req \<Rightarrow> string \<Rightarrow> (identity \<times> string \<times> string) option" where
  "keyed e r raw =
     (let body = read_body (hr_messages r) in
      map_option (\<lambda>pid. ((pid, stored_key (principal_of e r) raw), upper (hr_method r) @ '' '' @ hr_path r,
          request_digest (ie_loads e) (hr_method r) (hr_path r) (hr_query r) body))
        (project_of e r body))"

definition replayed_req :: "http_req \<Rightarrow> http_req" where
  "replayed_req r = r\<lparr>hr_messages := [HttpRequest (read_body (hr_messages r)) False]\<rparr>"

definition run_reserved :: "'s idem_env \<Rightarrow> idem_faults \<Rightarrow> http_req \<Rightarrow> identity \<Rightarrow> 's \<times> idem_table \<Rightarrow> reply \<times> 's \<times> idem_table" where
  "run_reserved e ft r k st = (case ie_app e (replayed_req r) st of
      (c, raised, s', t') \<Rightarrow> (Sent c raised, s', if raised then release ft k t' else finish ft (ie_loads e) k c t'))"

definition handle :: "'s idem_env \<Rightarrow> idem_faults \<Rightarrow> int \<Rightarrow> http_req \<Rightarrow> 's \<times> idem_table \<Rightarrow> reply \<times> 's \<times> idem_table" where
  "handle e ft now r st =
     (let raw = dget_or [] (hr_headers r) ''idempotency-key'' in
      if \<not> hr_http r \<or> raw = [] \<or> \<not> is_covered (hr_method r) (hr_path r) then pass_on e r st
      else if 255 < length raw then
        (refusal ''params_out_of_range'' ''Idempotency-Key must be 1 to 255 characters'' key_field, st)
      else case keyed e r raw of
        None \<Rightarrow> pass_on e (replayed_req r) st
      | Some (k, route, digest) \<Rightarrow>
          (case reserve ft now k route digest (snd st) of
             None \<Rightarrow> pass_on e (replayed_req r) st
           | Some (VReplay s b, t) \<Rightarrow> (Answer s b [(''Idempotency-Replayed'', ''true'')], fst st, t)
           | Some (VReused, t) \<Rightarrow> (refusal ''idempotency_key_reused''
               ''Idempotency-Key was already used for a different request in this project'' key_field, fst st, t)
           | Some (VInFlight, t) \<Rightarrow> (refusal ''idempotency_conflict''
               ''a request with this Idempotency-Key is still in flight'' key_field, fst st, t)
           | Some (VReserved, t) \<Rightarrow> run_reserved e ft r k (fst st, t)))"

subsection \<open>The digest\<close>

lemma nul_split:
  assumes "CHR 0x00 \<notin> set a" "CHR 0x00 \<notin> set b" "a @ CHR 0x00 # x = b @ CHR 0x00 # y"
  shows "a = b \<and> x = y"
  using assms by (induction a arbitrary: b) (auto simp: Cons_eq_append_conv append_eq_Cons_conv)

lemma set_split_on: "x \<in> set (split_on c s) \<Longrightarrow> set x \<subseteq> set s"
proof (induction s arbitrary: x)
  case (Cons a s)
  have ih: "\<And>x. x \<in> set (split_on c s) \<Longrightarrow> set x \<subseteq> set s" by (rule Cons.IH)
  show ?case
  proof (cases "split_on c s")
    case Nil
    then show ?thesis using Cons.prems by (auto split: if_splits)
  next
    case (Cons y ys)
    then have "set y \<subseteq> set s" "\<And>z. z \<in> set ys \<Longrightarrow> set z \<subseteq> set s" using ih by auto
    then show ?thesis using Cons.prems Cons by (auto split: if_splits)
  qed
qed simp

lemma canonical_query_chars: "set (canonical_query q) \<subseteq> insert CHR ''&'' (set q)"
  using set_join [of "''&''" "sort (filter (\<lambda>p. p \<noteq> []) (split_on CHR ''&'' q))"] set_split_on [of _ "CHR ''&''" q]
  by (fastforce simp: canonical_query_def)

lemma upper_no_nul: "CHR 0x00 \<notin> set m \<Longrightarrow> CHR 0x00 \<notin> set (upper m)"
proof -
  have "upper_char c \<noteq> CHR 0x00" if "c \<noteq> CHR 0x00" for c
  proof
    assume u: "upper_char c = CHR 0x00"
    show False
    proof (cases "97 \<le> (of_char c :: nat) \<and> (of_char c :: nat) \<le> 122")
      case True
      then have "char_of ((of_char c :: nat) - 32) = CHR 0x00" using u by (simp add: upper_char_def Let_def)
      then have "of_char (char_of ((of_char c :: nat) - 32) :: char) = (of_char (CHR 0x00) :: nat)" by simp
      then show False using True by simp presburger
    next
      case False
      then show False using u that by (auto simp: upper_char_def Let_def)
    qed
  qed
  note u = this
  assume m: "CHR 0x00 \<notin> set m"
  show ?thesis
  proof
    assume "CHR 0x00 \<in> set (upper m)"
    then obtain c where "c \<in> set m" "upper_char c = CHR 0x00" unfolding upper_def set_map by force
    then show False using u [of c] m by blast
  qed
qed


subsection \<open>The life of a reservation\<close>

definition idem_key :: "'s idem_env \<Rightarrow> http_req \<Rightarrow> (identity \<times> string \<times> string) option" where
  "idem_key e r =
     (let raw = dget_or [] (hr_headers r) ''idempotency-key'' in
      if \<not> hr_http r \<or> raw = [] \<or> \<not> is_covered (hr_method r) (hr_path r) \<or> 255 < length raw then None
      else keyed e r raw)"

lemma handle_keyed:
  assumes "idem_key e r = Some (k, route, dg)" "\<not> ft_reserve ft"
  shows "handle e ft now r st = (case live_row now (snd st) k of
      Some row \<Rightarrow>
        if ik_route row \<noteq> route \<or> ik_digest row \<noteq> dg then (refusal ''idempotency_key_reused''
             ''Idempotency-Key was already used for a different request in this project'' key_field, st)
        else if ik_status row = reserved_status then (refusal ''idempotency_conflict''
             ''a request with this Idempotency-Key is still in flight'' key_field, st)
        else (Answer (ik_status row) (ik_body row) [(''Idempotency-Replayed'', ''true'')], st)
    | None \<Rightarrow> (case ft_race ft of
        Some t' \<Rightarrow> (refusal ''idempotency_conflict''
             ''a request with this Idempotency-Key is still in flight'' key_field, fst st, t')
      | None \<Rightarrow> run_reserved e ft r k (fst st, dset k (new_row now route dg) (ddel k (snd st)))))"
  using assms by (auto simp: idem_key_def handle_def Let_def reserve_def split: if_splits option.splits)

lemma live_row_new: "live_row now (dset k r t) k = (if row_expired now r then None else Some r)"
  by (simp add: live_row_def)

lemma refusal_409:
  "code = ''idempotency_key_reused'' \<or> code = ''idempotency_conflict'' \<Longrightarrow> \<exists>b. refusal code m key_field = Answer 409 b []"
proof -
  assume "code = ''idempotency_key_reused'' \<or> code = ''idempotency_conflict''"
  moreover have "dget http_status_table ''idempotency_key_reused'' = Some 409" "dget http_status_table ''idempotency_conflict'' = Some 409"
    by code_simp+
  ultimately show ?thesis by (auto simp: refusal_def error_detail_def Let_def)
qed



subsection \<open>Witnesses\<close>

definition ex_loads :: "string \<Rightarrow> json option" where
  "ex_loads b = (if b = ''1'' then Some (JInt 1) else None)"

definition ex_idem :: "nat idem_env" where
  "ex_idem = \<lparr>ie_loads = ex_loads, ie_settings = None, ie_override = Some ''u'', ie_row_project = (\<lambda>_ _. Some ''p''),
     ie_app = (\<lambda>_ (n, t). (\<lparr>cp_status = Some 202, cp_headers = [(''Content-Type'', ''application/json'')], cp_chunks = [''1'']\<rparr>,
                False, Suc n, t))\<rparr>"

definition ex_request :: http_req where
  "ex_request = \<lparr>hr_http = True, hr_method = ''POST'', hr_path = ''/v1/models/m/attacks'', hr_query = [],
     hr_headers = [(''idempotency-key'', ''k'')], hr_cookies = [], hr_project = None, hr_messages = []\<rparr>"

definition no_faults :: idem_faults where
  "no_faults = \<lparr>ft_reserve = False, ft_race = None, ft_release = False, ft_store = False\<rparr>"

lemma ex_idem_key: "\<exists>k route dg. idem_key ex_idem ex_request = Some (k, route, dg)"
proof -
  have "project_of ex_idem ex_request [] = Some ''p''" by code_simp
  moreover have "is_covered (hr_method ex_request) (hr_path ex_request)" by code_simp
  ultimately show ?thesis
    by (simp add: idem_key_def keyed_def Let_def dget_or_def) (simp add: ex_request_def)
qed




end
