(* ===== verification/Review.thy ===== *)
theory Review
  imports JobState ApiErrors
begin

text \<open>
  \<open>services/finding_review.py\<close>: the review decisions over a finding (transition table, independence,
  compare-and-set, audit before the write) and the analyst drafts. A stored finding is its status
  and its blob; the review blocks of the blob are the values of the validated schema classes, with
  a constructor for a block the schema refuses. Times are microseconds.
\<close>

subsection \<open>The review block\<close>

record revision =
  rv_number :: int
  rv_author :: string
  rv_created :: int
  rv_submitted :: "int option"
  rv_evidence :: "string list"
  rv_observation :: "string option"
  rv_interpretation :: "string option"
  rv_candidate :: "string option"
  rv_sha :: "string option"

record review_event =
  ev_action :: string
  ev_to :: string
  ev_actor :: string
  ev_at :: int
  ev_from :: "string option"
  ev_reason :: "string option"
  ev_revision :: "int option"

record review =
  rw_state :: string
  rw_reviewer :: "string option"
  rw_reason :: "string option"
  rw_at :: "int option"
  rw_notes :: "string option"
  rw_history :: "review_event list"
  rw_revisions :: "revision list"

definition new_review :: review where
  "new_review = \<lparr>rw_state = ''unreviewed'', rw_reviewer = None, rw_reason = None, rw_at = None, rw_notes = None,
     rw_history = [], rw_revisions = []\<rparr>"

text \<open>\<open>MLFindingDetail\<close>; what a review does not touch is kept as it is.\<close>

record ml_detail =
  md_attack :: string
  md_name :: string
  md_norm :: json
  md_eps_grid :: json
  md_reference :: json
  md_threshold :: json
  md_atlas :: "string option"
  md_measurements :: "jdict list"
  md_observations :: "jdict list"
  md_limitations :: "string list"
  md_review :: review

text \<open>The \<open>ml\<close> and \<open>llm\<close> keys: absent or empty, refused by the schema, or read.\<close>

datatype 'a block = NoBlock | BadBlock | Block 'a

record blob =
  bl_base :: jdict
  bl_ml :: "ml_detail block"
  bl_llm :: "review option block"

record finding =
  fg_run :: string
  fg_project :: string
  fg_status :: string
  fg_blob :: blob
  fg_updated :: int

definition review_states :: "string list" where
  "review_states = [''unreviewed'', ''dismissed'', ''draft'', ''in_review'', ''confirmed'', ''resolved'']"

record transition =
  tr_decision :: string
  tr_from_states :: "string list option"
  tr_from_statuses :: "string list option"
  tr_to_state :: string
  tr_to_status :: "string option"
  tr_action :: string
  tr_author_only :: bool

definition review_action :: string where "review_action = ''finding.review''"
definition author_action :: string where "author_action = ''finding.author''"
definition dismissable_from :: "string list" where "dismissable_from = [''open'']"
definition dismissed_status :: string where "dismissed_status = ''false_positive''"

definition transitions :: "(string, transition) dict" where
  "transitions =
     [(''submit'', \<lparr>tr_decision = ''submit'', tr_from_states = Some [''draft''], tr_from_statuses = None,
         tr_to_state = ''in_review'', tr_to_status = None, tr_action = author_action, tr_author_only = True\<rparr>),
      (''confirm'', \<lparr>tr_decision = ''confirm'', tr_from_states = Some [''unreviewed'', ''in_review''],
         tr_from_statuses = Some [''open''], tr_to_state = ''confirmed'', tr_to_status = None,
         tr_action = review_action, tr_author_only = False\<rparr>),
      (''request_changes'', \<lparr>tr_decision = ''request_changes'', tr_from_states = Some [''in_review''],
         tr_from_statuses = None, tr_to_state = ''draft'', tr_to_status = None,
         tr_action = review_action, tr_author_only = False\<rparr>),
      (''dismiss'', \<lparr>tr_decision = ''dismiss'', tr_from_states = None, tr_from_statuses = Some dismissable_from,
         tr_to_state = ''dismissed'', tr_to_status = Some dismissed_status,
         tr_action = review_action, tr_author_only = False\<rparr>),
      (''reopen'', \<lparr>tr_decision = ''reopen'', tr_from_states = Some [''dismissed''],
         tr_from_statuses = Some [''false_positive''], tr_to_state = ''unreviewed'', tr_to_status = Some ''open'',
         tr_action = review_action, tr_author_only = False\<rparr>),
      (''resolve'', \<lparr>tr_decision = ''resolve'', tr_from_states = Some [''confirmed''], tr_from_statuses = None,
         tr_to_state = ''resolved'', tr_to_status = Some ''fixed'',
         tr_action = review_action, tr_author_only = False\<rparr>)]"

definition status_only_decisions :: "string list" where
  "status_only_decisions = [''dismiss'', ''reopen'']"

record carrier =
  ca_key :: "string option"
  ca_review :: review
  ca_detail :: "ml_detail option"

definition ca_state :: "carrier \<Rightarrow> string option" where
  "ca_state c = (case ca_key c of None \<Rightarrow> None | Some _ \<Rightarrow> Some (rw_state (ca_review c)))"

definition latest_revision :: "carrier \<Rightarrow> revision option" where
  "latest_revision c = (let rs = rw_revisions (ca_review c) in if rs = [] then None else Some (last rs))"

definition write_review :: "carrier \<Rightarrow> blob \<Rightarrow> blob" where
  "write_review c b = (case ca_key c of
      None \<Rightarrow> b
    | Some k \<Rightarrow> (case ca_detail c of
          Some d \<Rightarrow> b\<lparr>bl_ml := Block (d\<lparr>md_review := ca_review c\<rparr>)\<rparr>
        | None \<Rightarrow> b\<lparr>bl_llm := Block (Some (ca_review c))\<rparr>))"

text \<open>\<open>Inl ()\<close> is the schema's validation error.\<close>

definition review_carrier :: "blob \<Rightarrow> (unit, carrier) result" where
  "review_carrier b = (case bl_ml b of
      BadBlock \<Rightarrow> Inl ()
    | Block d \<Rightarrow> Inr \<lparr>ca_key = Some ''ml'', ca_review = md_review d, ca_detail = Some d\<rparr>
    | NoBlock \<Rightarrow> (case bl_llm b of
        BadBlock \<Rightarrow> Inl ()
      | Block r \<Rightarrow> Inr \<lparr>ca_key = Some ''llm'', ca_review = (case r of None \<Rightarrow> new_review | Some x \<Rightarrow> x), ca_detail = None\<rparr>
      | NoBlock \<Rightarrow> Inr \<lparr>ca_key = None, ca_review = new_review, ca_detail = None\<rparr>))"

definition review_state_of :: "blob \<Rightarrow> string option" where
  "review_state_of b = (case review_carrier b of Inl _ \<Rightarrow> None | Inr c \<Rightarrow> ca_state c)"

definition int_json :: "int option \<Rightarrow> json" where
  "int_json n = (case n of None \<Rightarrow> JNull | Some i \<Rightarrow> JInt i)"

definition review_summary :: "blob \<Rightarrow> jdict option" where
  "review_summary b = (case review_carrier b of
      Inl _ \<Rightarrow> None
    | Inr c \<Rightarrow>
        if ca_key c = None then None
        else Some [(''state'', JStr (rw_state (ca_review c))), (''reviewer'', jopt (rw_reviewer (ca_review c))),
          (''at'', case rw_at (ca_review c) of None \<Rightarrow> JNull | Some t \<Rightarrow> JStr (iso_utc t)),
          (''n_history'', JInt (int (length (rw_history (ca_review c))))),
          (''n_revisions'', JInt (int (length (rw_revisions (ca_review c))))),
          (''revision'', int_json (map_option rv_number (latest_revision c)))])"

subsection \<open>Digests\<close>

text \<open>\<open>json.dumps(..., sort_keys=True)\<close> with the default separators; \<open>esc\<close> is the escape of one
  character. With \<open>ensure_ascii=False\<close> characters from 128 on are kept and encoded as UTF-8.\<close>

fun dumps :: "(char \<Rightarrow> string) \<Rightarrow> json \<Rightarrow> string" where
  "dumps esc (JStr s) = CHR 0x22 # concat (map esc s) @ [CHR 0x22]"
| "dumps esc (JArr vs) = CHR ''['' # join '', '' (map (dumps esc) vs) @ '']''"
| "dumps esc (JObj kvs) = CHR ''{'' # join '', ''
     (map (\<lambda>(k, v). (CHR 0x22 # concat (map esc k) @ [CHR 0x22]) @ '': '' @ dumps esc v) kvs) @ ''}''"
| "dumps esc v = enc v"

definition esc_utf8 :: "char \<Rightarrow> string" where
  "esc_utf8 c = (let n = of_char c :: nat in
     if n < 128 then (if n = 127 then [c] else esc_char c)
     else [char_of (192 + n div 64), char_of (128 + n mod 64)])"

definition revision_digest :: "string option \<Rightarrow> string option \<Rightarrow> string option \<Rightarrow> string list \<Rightarrow> string" where
  "revision_digest observation interpretation candidate ids =
     sha256 (dumps esc_utf8 (canon (JObj [(''observation'', jopt observation), (''interpretation'', jopt interpretation),
        (''candidate'', jopt candidate), (''evidence_ids'', JArr (map JStr ids))])))"

subsection \<open>Independence and resolution\<close>

definition independence_violations :: "string \<Rightarrow> bool \<Rightarrow> string option \<Rightarrow> string option \<Rightarrow> string list" where
  "independence_violations actor system creator author =
     (if system then [''system_principal''] else []) @
     (if creator = Some actor then [''campaign_creator''] else []) @
     (if author = Some actor then [''revision_author''] else [])"

definition independence_message :: "string list \<Rightarrow> string" where
  "independence_message vs = join ''; '' (map (\<lambda>v. dget_or v
      [(''campaign_creator'', ''campaign creator cannot review their own finding''),
       (''revision_author'', ''the draft'' @ [CHR 0x27] @ ''s author cannot review their own revision''),
       (''system_principal'', ''system principals cannot review findings'')] v) vs) @
     '' (spec 7.7: an independent reviewer is required)''"

definition resolution_conditions :: "carrier \<Rightarrow> string list" where
  "resolution_conditions c = (if ca_state c \<noteq> Some ''confirmed'' then [''review_state_not_confirmed''] else [])"

subsection \<open>The decision\<close>

datatype review_error =
    UnknownDecision string
  | ReasonRequired
  | BadExpected string
  | FindingMissing
  | RunMissing
  | TextRequired
  | BlockInvalid
  | ReviewRefused api_refusal
  | ReviewCode code_error
  | ReviewAuth auth_error
  | StoreFailed

record decide_args =
  da_finding :: string
  da_decision :: string
  da_reason :: string
  da_expected_status :: string
  da_expected_state :: "string option"
  da_actor :: string
  da_system :: bool
  da_allowlist :: "string list"

text \<open>A refusal: the code and message of its audit row, the detail added before it, and the error.\<close>

record refusal_row =
  rf_code :: string
  rf_message :: string
  rf_detail :: jdict
  rf_error :: "string \<times> jdict"

text \<open>\<open>repr\<close> of a string without quotes and backslashes, and of an optional one.\<close>

definition repr_str :: "string \<Rightarrow> string" where "repr_str s = [CHR 0x27] @ s @ [CHR 0x27]"

definition repr_opt :: "string option \<Rightarrow> string" where
  "repr_opt s = (case s of None \<Rightarrow> ''None'' | Some t \<Rightarrow> repr_str t)"

definition refuse_with :: "string \<Rightarrow> string \<Rightarrow> jdict \<Rightarrow> jdict \<Rightarrow> refusal_row" where
  "refuse_with code message detail extra =
     \<lparr>rf_code = code, rf_message = message, rf_detail = detail, rf_error = (code, extra)\<rparr>"

definition jstrs :: "string list \<Rightarrow> json" where "jstrs xs = JArr (map JStr xs)"

definition at_state :: "finding \<Rightarrow> carrier \<Rightarrow> string \<Rightarrow> jdict" where
  "at_state f c decision =
     [(''decision'', JStr decision), (''status'', JStr (fg_status f)), (''review_state'', jopt (ca_state c))]"

text \<open>The independence gate; \<open>submit\<close> is the author's own act.\<close>

definition independence_guard :: "decide_args \<Rightarrow> transition \<Rightarrow> carrier \<Rightarrow> string option \<Rightarrow> refusal_row option" where
  "independence_guard a t c creator =
     (let dec = da_decision a;
          author = map_option rv_author (latest_revision c);
          code = (if dec = ''dismiss'' then ''forbidden'' else ''reviewer_not_independent'');
          blame = (\<lambda>message vs. Some (refuse_with code message [(''independence_violations'', jstrs vs)]
            (if dec = ''dismiss'' then [] else [(''relation'', JStr (hd vs)), (''relations'', jstrs vs)])))
      in if da_system a then
           blame (''system principals cannot '' @ map (\<lambda>x. if x = CHR ''_'' then CHR '' '' else x) dec @
             '' findings; a review decision needs an independent human reviewer'') [''system_principal'']
         else if tr_author_only t then
           (if author \<noteq> Some (da_actor a)
            then Some (refuse_with ''forbidden'' (''only the latest revision'' @ [CHR 0x27] @ ''s author can submit the draft'') [] [])
            else None)
         else (let vs = independence_violations (da_actor a) False creator author in
               if vs = [] then None else blame (independence_message vs) vs))"

text \<open>The compare-and-set.\<close>

definition stale_guard :: "decide_args \<Rightarrow> finding \<Rightarrow> carrier \<Rightarrow> refusal_row option" where
  "stale_guard a f c =
     (let code = (if da_decision a = ''dismiss'' then ''run_terminal'' else ''review_state_conflict'') in
      if fg_status f \<noteq> da_expected_status a then
        Some (refuse_with code ''finding status no longer matches expected_status'' []
          [(''status'', JStr (fg_status f)), (''expected_status'', JStr (da_expected_status a)),
           (''review_state'', jopt (ca_state c))])
      else if da_expected_state a \<noteq> None \<and> ca_state c \<noteq> da_expected_state a then
        Some (refuse_with code ''finding review state no longer matches expected_review_state'' []
          [(''status'', JStr (fg_status f)), (''review_state'', jopt (ca_state c)),
           (''expected_review_state'', jopt (da_expected_state a))])
      else None)"

definition in_table :: "string list option \<Rightarrow> string option \<Rightarrow> bool" where
  "in_table allowed v = (case allowed of None \<Rightarrow> True | Some xs \<Rightarrow> (case v of None \<Rightarrow> False | Some s \<Rightarrow> s \<in> set xs))"

definition allowed_list :: "string list option \<Rightarrow> string list" where
  "allowed_list xs = (case xs of None \<Rightarrow> [] | Some l \<Rightarrow> sort l)"

text \<open>The transition table, which \<open>resolve\<close> does not consult.\<close>

definition table_guard :: "decide_args \<Rightarrow> transition \<Rightarrow> finding \<Rightarrow> carrier \<Rightarrow> refusal_row option" where
  "table_guard a t f c =
     (let dec = da_decision a in
      if dec = ''resolve'' then None
      else if \<not> in_table (tr_from_statuses t) (Some (fg_status f)) then
        (let allowed = allowed_list (tr_from_statuses t) in
         if dec = ''dismiss'' then
           Some (refuse_with ''run_terminal'' (''only '' @ join '' or '' allowed @ '' findings can be dismissed; this finding is '' @
               repr_str (fg_status f)) []
             [(''status'', JStr (fg_status f)), (''allowed_from'', jstrs allowed)])
         else Some (refuse_with ''review_transition_invalid''
             (repr_str dec @ '' is not valid from status '' @ repr_str (fg_status f)) []
             (at_state f c dec @ [(''allowed_from'', jstrs allowed)])))
      else if (ca_key c \<noteq> None \<or> dec \<notin> set status_only_decisions) \<and> \<not> in_table (tr_from_states t) (ca_state c) then
        Some (refuse_with ''review_transition_invalid''
          (repr_str dec @ '' is not valid from review state '' @ repr_opt (ca_state c)) []
          (at_state f c dec @ [(''allowed_from_review_states'', jstrs (allowed_list (tr_from_states t)))]))
      else None)"

definition submit_guard :: "decide_args \<Rightarrow> carrier \<Rightarrow> refusal_row option" where
  "submit_guard a c =
     (if da_decision a \<noteq> ''submit'' then None
      else case latest_revision c of
        None \<Rightarrow> Some (refuse_with ''review_transition_invalid'' ''the draft has no unsubmitted revision to submit'' []
          [(''decision'', JStr ''submit''), (''revision'', JNull)])
      | Some rv \<Rightarrow>
          if rv_submitted rv \<noteq> None then
            Some (refuse_with ''review_transition_invalid'' ''the draft has no unsubmitted revision to submit'' []
              [(''decision'', JStr ''submit''), (''revision'', JInt (rv_number rv))])
          else if rv_evidence rv = [] then
            Some (refuse_with ''review_transition_invalid'' ''a revision cites at least one evidence id before it can be submitted'' []
              [(''decision'', JStr ''submit''), (''revision'', JInt (rv_number rv))])
          else None)"

definition resolve_guard :: "decide_args \<Rightarrow> finding \<Rightarrow> carrier \<Rightarrow> refusal_row option" where
  "resolve_guard a f c =
     (let unmet = (if da_decision a = ''resolve'' then resolution_conditions c else []) in
      if unmet = [] then None
      else Some (refuse_with ''resolution_blocked''
        (''the finding does not meet every resolution condition: '' @ join '', '' unmet) [(''unmet'', jstrs unmet)]
        [(''unmet'', jstrs unmet), (''status'', JStr (fg_status f)), (''review_state'', jopt (ca_state c))]))"

definition orelse :: "'a option \<Rightarrow> 'a option \<Rightarrow> 'a option" where
  "orelse x y = (case x of None \<Rightarrow> y | Some _ \<Rightarrow> x)"

text \<open>The refusals in the order of the code.\<close>

definition decision_guard :: "decide_args \<Rightarrow> transition \<Rightarrow> finding \<Rightarrow> carrier \<Rightarrow> string option \<Rightarrow> refusal_row option" where
  "decision_guard a t f c creator =
     orelse (if ca_key c = None \<and> da_decision a \<notin> set status_only_decisions
         then Some (refuse_with ''review_transition_invalid''
           (repr_str (da_decision a) @ '' needs a finding with an ml or llm review block; this finding carries none'') []
           (at_state f c (da_decision a))) else None)
      (orelse (independence_guard a t c creator)
        (orelse (stale_guard a f c)
          (orelse (table_guard a t f c)
            (orelse (submit_guard a c) (resolve_guard a f c)))))"

definition decision_detail :: "decide_args \<Rightarrow> transition \<Rightarrow> finding \<Rightarrow> carrier \<Rightarrow> string option \<Rightarrow> jdict" where
  "decision_detail a t f c creator =
     [(''finding_id'', JStr (da_finding a)), (''decision'', JStr (da_decision a)),
      (''from_status'', JStr (fg_status f)),
      (''to_status'', JStr (if truthy (tr_to_status t) then the (tr_to_status t) else fg_status f)),
      (''from_review_state'', jopt (ca_state c)), (''to_review_state'', JStr (tr_to_state t)),
      (''expected_status'', JStr (da_expected_status a)), (''expected_review_state'', jopt (da_expected_state a)),
      (''reason'', JStr (da_reason a)), (''reviewer'', JStr (da_actor a)),
      (''author'', jopt (map_option rv_author (latest_revision c))), (''campaign_creator'', jopt creator),
      (''revision'', int_json (map_option rv_number (latest_revision c)))]"

definition review_call :: "string \<Rightarrow> string \<Rightarrow> finding \<Rightarrow> jdict \<Rightarrow> audit_call" where
  "review_call action actor f detail =
     \<lparr>ac_action = action, ac_actor = actor, ac_target = None, ac_check = ''n/a'', ac_override = False,
      ac_success = False, ac_detail = detail, ac_run = Some (fg_run f), ac_project = Some (fg_project f)\<rparr>"

definition review_req :: "string \<Rightarrow> string \<Rightarrow> string list \<Rightarrow> finding \<Rightarrow> jdict \<Rightarrow> auth_req" where
  "review_req action actor allowlist f detail =
     \<lparr>rq_action = action, rq_target = None, rq_allowlist = allowlist, rq_override = False, rq_detail = detail,
      rq_actor = Some actor, rq_run = Some (fg_run f), rq_project = Some (fg_project f)\<rparr>"

definition raise_api :: "string \<Rightarrow> string \<Rightarrow> jdict \<Rightarrow> review_error" where
  "raise_api code message extra = (case api_error_of code (Some message) extra of
      Inl e \<Rightarrow> ReviewCode e | Inr r \<Rightarrow> ReviewRefused r)"

text \<open>The revisions after a decision.\<close>

definition freeze :: "int \<Rightarrow> revision \<Rightarrow> revision" where
  "freeze now rv = rv\<lparr>rv_submitted := Some now,
     rv_sha := Some (revision_digest (rv_observation rv) (rv_interpretation rv) (rv_candidate rv) (rv_evidence rv))\<rparr>"

definition next_revision :: "int \<Rightarrow> revision \<Rightarrow> revision" where
  "next_revision now rv = rv\<lparr>rv_number := rv_number rv + 1, rv_created := now, rv_submitted := None, rv_sha := None\<rparr>"

definition decided_revisions :: "int \<Rightarrow> string \<Rightarrow> review \<Rightarrow> revision list" where
  "decided_revisions now decision rw =
     (let rs = rw_revisions rw in
      if rs = [] then rs
      else if decision = ''submit'' then butlast rs @ [freeze now (last rs)]
      else if decision = ''request_changes'' then rs @ [next_revision now (last rs)]
      else rs)"

definition decided_review :: "int \<Rightarrow> decide_args \<Rightarrow> transition \<Rightarrow> carrier \<Rightarrow> review" where
  "decided_review now a t c =
     (let rw = ca_review c;
          ev = \<lparr>ev_action = da_decision a, ev_to = tr_to_state t, ev_actor = da_actor a, ev_at = now,
                ev_from = ca_state c, ev_reason = Some (da_reason a),
                ev_revision = map_option rv_number (latest_revision c)\<rparr>
      in rw\<lparr>rw_revisions := decided_revisions now (da_decision a) rw, rw_history := rw_history rw @ [ev],
            rw_state := tr_to_state t, rw_at := Some now, rw_reason := Some (da_reason a),
            rw_reviewer := (if tr_author_only t then rw_reviewer rw else Some (da_actor a))\<rparr>)"

definition decided_finding :: "int \<Rightarrow> decide_args \<Rightarrow> transition \<Rightarrow> finding \<Rightarrow> carrier \<Rightarrow> finding" where
  "decided_finding now a t f c =
     (let b1 = (if ca_key c = None then fg_blob f
                else write_review (c\<lparr>ca_review := decided_review now a t c\<rparr>) (fg_blob f));
          b2 = (case tr_to_status t of None \<Rightarrow> b1 | Some s \<Rightarrow> b1\<lparr>bl_base := dset ''status'' (JStr s) (bl_base b1)\<rparr>);
          b3 = b2\<lparr>bl_base := dset ''updated_at'' (JStr (iso_utc now)) (bl_base b2)\<rparr>
      in f\<lparr>fg_status := (case tr_to_status t of None \<Rightarrow> fg_status f | Some s \<Rightarrow> s), fg_blob := b3, fg_updated := now\<rparr>)"

record decision_out =
  do_finding :: string
  do_decision :: string
  do_status :: string
  do_from_status :: string
  do_state :: "string option"
  do_from_state :: "string option"
  do_review :: "review option"
  do_revision :: "int option"

definition decision_output :: "decide_args \<Rightarrow> carrier \<Rightarrow> finding \<Rightarrow> carrier \<Rightarrow> decision_out" where
  "decision_output a c f' c' =
     \<lparr>do_finding = da_finding a, do_decision = da_decision a, do_status = fg_status f',
      do_from_status = da_expected_status a, do_state = ca_state c', do_from_state = ca_state c,
      do_review = (if ca_key c = None then None else Some (ca_review c')),
      do_revision = (if da_decision a = ''request_changes'' \<and> ca_key c \<noteq> None \<and> latest_revision c \<noteq> None
        then map_option rv_number (latest_revision c') else map_option rv_number (latest_revision c))\<rparr>"

text \<open>The findings by id, and the creator of a run.\<close>

type_synonym findings = "(string, finding) dict"

definition decide :: "(audit_call \<Rightarrow> int \<Rightarrow> 'w \<Rightarrow> (audit_error, 'w \<times> jdict) result) \<Rightarrow> int \<Rightarrow> (string \<Rightarrow> string option) \<Rightarrow>
    decide_args \<Rightarrow> findings \<Rightarrow> 'w \<Rightarrow> (review_error, decision_out) result \<times> 'w \<times> findings" where
  "decide app now creators a fs w = (case dget transitions (da_decision a) of
      None \<Rightarrow> (Inl (UnknownDecision (da_decision a)), w, fs)
    | Some t \<Rightarrow>
        if strip (da_reason a) = [] then (Inl ReasonRequired, w, fs)
        else if (case da_expected_state a of None \<Rightarrow> False | Some s \<Rightarrow> s \<notin> set review_states)
        then (Inl (BadExpected (the (da_expected_state a))), w, fs)
        else (case dget fs (da_finding a) of
            None \<Rightarrow> (Inl FindingMissing, w, fs)
          | Some f \<Rightarrow> (case review_carrier (fg_blob f) of
                Inl _ \<Rightarrow> (Inl BlockInvalid, w, fs)
              | Inr c \<Rightarrow>
                  let creator = (if truthy (creators (fg_run f)) then creators (fg_run f) else None);
                      detail = decision_detail a t f c creator
                  in (case decision_guard a t f c creator of
                      Some r \<Rightarrow>
                        (case emit app now (review_call (tr_action t) (da_actor a) f
                            (dict_update (detail @ rf_detail r) [(''refusal'', JStr (rf_code r)), (''message'', JStr (rf_message r))])) w of
                           (Inl e, w') \<Rightarrow> (Inl (ReviewAuth e), w', fs)
                         | (Inr _, w') \<Rightarrow> (Inl (raise_api (fst (rf_error r)) (rf_message r) (snd (rf_error r))), w', fs))
                    | None \<Rightarrow>
                        (case authorize app now (review_req (tr_action t) (da_actor a) (da_allowlist a) f detail) w of
                           (Inl e, w') \<Rightarrow> (Inl (ReviewAuth e), w', fs)
                         | (Inr _, w') \<Rightarrow>
                             let f' = decided_finding now a t f c;
                                 c' = c\<lparr>ca_review := (if ca_key c = None then ca_review c else decided_review now a t c)\<rparr>
                             in (Inr (decision_output a c f' c'), w', dset (da_finding a) f' fs))))))"

subsection \<open>Accepted and refused decisions\<close>

lemma orelse_None [simp]: "orelse x y = None \<longleftrightarrow> x = None \<and> y = None"
  by (simp add: orelse_def split: option.split)

definition run_creator :: "(string \<Rightarrow> string option) \<Rightarrow> finding \<Rightarrow> string option" where
  "run_creator creators f = (if truthy (creators (fg_run f)) then creators (fg_run f) else None)"

lemma decide_Inr:
  assumes "decide app now creators a fs w = (Inr out, w', fs')"
  obtains t f c where "dget transitions (da_decision a) = Some t" "dget fs (da_finding a) = Some f"
    "review_carrier (fg_blob f) = Inr c" "decision_guard a t f c (run_creator creators f) = None"
    "authorize app now (review_req (tr_action t) (da_actor a) (da_allowlist a) f
        (decision_detail a t f c (run_creator creators f))) w = (Inr (), w')"
    "fs' = dset (da_finding a) (decided_finding now a t f c) fs"
    "do_status out = fg_status (decided_finding now a t f c)"
  using assms unfolding decide_def Let_def run_creator_def [symmetric]
  by (auto split: option.splits sum.splits if_splits prod.splits simp: decision_output_def)

lemma decide_refused:
  assumes "decide app now creators a fs w = (Inl (ReviewRefused r), w', fs')"
  obtains t f detail where "dget fs (da_finding a) = Some f" "dget transitions (da_decision a) = Some t"
    "emit app now (review_call (tr_action t) (da_actor a) f detail) w = (Inr (), w')" "fs' = fs"
  using assms unfolding decide_def Let_def
  by (auto split: option.splits sum.splits if_splits prod.splits)

lemma decide_Inl_rows: "decide app now creators a fs w = (Inl e, w', fs') \<Longrightarrow> fs' = fs"
  unfolding decide_def Let_def by (auto split: option.splits sum.splits if_splits prod.splits)

lemma transition_cases:
  assumes "dget transitions d = Some t"
  obtains "d = ''submit''" | "d = ''confirm''" | "d = ''request_changes''" | "d = ''dismiss''" | "d = ''reopen''" | "d = ''resolve''"
  using assms by (auto simp: transitions_def split: if_splits)

lemma transition_of [simp]:
  "dget transitions d = Some t \<Longrightarrow> tr_author_only t \<longleftrightarrow> d = ''submit''"
  "dget transitions d = Some t \<Longrightarrow> tr_action t = (if d = ''submit'' then author_action else review_action)"
  by (auto simp: transitions_def split: if_splits)

lemma independence_guard_None:
  assumes "dget transitions (da_decision a) = Some t" "independence_guard a t c creator = None"
  shows "\<not> da_system a \<and> (if da_decision a = ''submit'' then map_option rv_author (latest_revision c) = Some (da_actor a)
     else creator \<noteq> Some (da_actor a) \<and> map_option rv_author (latest_revision c) \<noteq> Some (da_actor a))"
  using assms by (auto simp: independence_guard_def Let_def independence_violations_def split: if_splits)

lemma stale_guard_None:
  "stale_guard a f c = None \<Longrightarrow> fg_status f = da_expected_status a \<and> (da_expected_state a = None \<or> ca_state c = da_expected_state a)"
  by (auto simp: stale_guard_def Let_def split: if_splits)

lemma carrier_keyed: "review_carrier b = Inr c \<Longrightarrow> ca_key c \<noteq> None \<Longrightarrow> ca_state c = Some (rw_state (ca_review c))"
  by (auto simp: ca_state_def split: option.splits)

lemma carrier_base [simp]: "review_carrier (b\<lparr>bl_base := x\<rparr>) = review_carrier b"
  by (simp add: review_carrier_def split: block.split)

lemma carrier_write:
  "review_carrier b = Inr c \<Longrightarrow> ca_key c \<noteq> None \<Longrightarrow>
   review_carrier (write_review (c\<lparr>ca_review := rw\<rparr>) b) = Inr (c\<lparr>ca_review := rw, ca_detail := map_option (\<lambda>d. d\<lparr>md_review := rw\<rparr>) (ca_detail c)\<rparr>)"
  by (auto simp: review_carrier_def write_review_def split: block.splits option.splits)

lemma decided_carrier:
  assumes "review_carrier (fg_blob f) = Inr c"
  shows "\<exists>c'. review_carrier (fg_blob (decided_finding now a t f c)) = Inr c' \<and> ca_key c' = ca_key c \<and>
    (ca_key c \<noteq> None \<longrightarrow> ca_review c' = decided_review now a t c) \<and> (ca_key c = None \<longrightarrow> c' = c)"
  using assms carrier_write [OF assms, of "decided_review now a t c"]
  by (cases "ca_key c") (auto simp: decided_finding_def Let_def split: option.split)

subsection \<open>The state machine\<close>

text \<open>Pairs of finding status and review state.\<close>

definition coherent_pairs :: "(string \<times> string) list" where
  "coherent_pairs = [(''open'', ''unreviewed''), (''open'', ''draft''), (''open'', ''in_review''), (''open'', ''confirmed''),
     (''false_positive'', ''dismissed''), (''fixed'', ''resolved'')]"

definition coherent :: "finding \<Rightarrow> bool" where
  "coherent f = (case review_carrier (fg_blob f) of Inl _ \<Rightarrow> False
     | Inr c \<Rightarrow> (case ca_state c of None \<Rightarrow> fg_status f \<in> {''open'', ''false_positive'', ''fixed''}
         | Some s \<Rightarrow> (fg_status f, s) \<in> set coherent_pairs))"

text \<open>What the guard leaves: the edges of the machine.\<close>

definition edges :: "(string \<times> (string \<times> string) \<times> (string \<times> string)) list" where
  "edges = [(''submit'', (''open'', ''draft''), (''open'', ''in_review'')),
     (''confirm'', (''open'', ''unreviewed''), (''open'', ''confirmed'')),
     (''confirm'', (''open'', ''in_review''), (''open'', ''confirmed'')),
     (''request_changes'', (''open'', ''in_review''), (''open'', ''draft'')),
     (''dismiss'', (''open'', ''unreviewed''), (''false_positive'', ''dismissed'')),
     (''dismiss'', (''open'', ''draft''), (''false_positive'', ''dismissed'')),
     (''dismiss'', (''open'', ''in_review''), (''false_positive'', ''dismissed'')),
     (''dismiss'', (''open'', ''confirmed''), (''false_positive'', ''dismissed'')),
     (''reopen'', (''false_positive'', ''dismissed''), (''open'', ''unreviewed'')),
     (''resolve'', (''open'', ''confirmed''), (''fixed'', ''resolved''))]"

definition edge :: "string \<Rightarrow> (string \<times> string) \<Rightarrow> (string \<times> string) \<Rightarrow> bool" where
  "edge d p q = ((d, p, q) \<in> set edges)"

definition table_ok :: "string \<Rightarrow> transition \<Rightarrow> string \<Rightarrow> string \<Rightarrow> bool" where
  "table_ok d t st s = (if d = ''resolve'' then s = ''confirmed''
     else in_table (tr_from_statuses t) (Some st) \<and> in_table (tr_from_states t) (Some s))"

lemma table_edges:
  "list_all (\<lambda>(d, t). list_all (\<lambda>(st, s). \<not> table_ok d t st s \<or>
     edge d (st, s) (case tr_to_status t of None \<Rightarrow> st | Some x \<Rightarrow> x, tr_to_state t)) coherent_pairs) transitions"
  by code_simp

lemma edges_coherent: "list_all (\<lambda>(d, p, q). p \<in> set coherent_pairs \<and> q \<in> set coherent_pairs \<and> fst p \<noteq> ''fixed'') edges"
  by code_simp

lemma guard_table_ok:
  assumes "decision_guard a t f c creator = None" "ca_key c \<noteq> None"
  shows "table_ok (da_decision a) t (fg_status f) (rw_state (ca_review c))"
proof -
  have s: "ca_state c = Some (rw_state (ca_review c))" using assms(2) by (auto simp: ca_state_def)
  have "table_guard a t f c = None" "resolve_guard a f c = None" using assms(1) by (auto simp: decision_guard_def)
  then show ?thesis
    using s assms(2) by (auto simp: table_ok_def table_guard_def resolve_guard_def resolution_conditions_def Let_def split: if_splits)
qed

lemma guard_edge:
  assumes "dget transitions (da_decision a) = Some t" "decision_guard a t f c creator = None"
    "ca_key c \<noteq> None" "(fg_status f, rw_state (ca_review c)) \<in> set coherent_pairs"
  shows "edge (da_decision a) (fg_status f, rw_state (ca_review c))
     (case tr_to_status t of None \<Rightarrow> fg_status f | Some s \<Rightarrow> s, tr_to_state t)"
  using table_edges map_of_SomeD [OF assms(1)] assms(4) guard_table_ok [OF assms(2,3)]
  by (fastforce simp: list_all_iff)

lemma review_req_facts [simp]:
  "req_chain (review_req act actor al f d) = chain_id_of (Some (fg_project f)) (Some (fg_run f))"
  "rq_action (review_req act actor al f d) = act"
  by (simp_all add: review_req_def)

lemma guard_unkeyed:
  assumes "dget transitions (da_decision a) = Some t" "decision_guard a t f c creator = None" "ca_key c = None"
  shows "(da_decision a = ''dismiss'' \<and> fg_status f = ''open'' \<and> tr_to_status t = Some ''false_positive'') \<or>
    (da_decision a = ''reopen'' \<and> fg_status f = ''false_positive'' \<and> tr_to_status t = Some ''open'')"
proof -
  have "da_decision a \<in> set status_only_decisions" "table_guard a t f c = None"
    using assms(2,3) by (auto simp: decision_guard_def split: if_splits)
  moreover have "tr_from_statuses t = Some [''open''] \<and> tr_to_status t = Some ''false_positive''" if "da_decision a = ''dismiss''"
    using assms(1) that by (auto simp: transitions_def dismissable_from_def dismissed_status_def)
  moreover have "tr_from_statuses t = Some [''false_positive''] \<and> tr_to_status t = Some ''open''" if "da_decision a = ''reopen''"
    using assms(1) that by (auto simp: transitions_def)
  ultimately show ?thesis
    by (auto simp: status_only_decisions_def table_guard_def in_table_def Let_def split: if_splits)
qed

lemma decided_status: "fg_status (decided_finding now a t f c) = (case tr_to_status t of None \<Rightarrow> fg_status f | Some s \<Rightarrow> s)"
  by (simp add: decided_finding_def Let_def split: option.split)

lemma decided_state: "rw_state (decided_review now a t c) = tr_to_state t"
  by (simp add: decided_review_def Let_def)

lemma decided_coherent:
  assumes t: "dget transitions (da_decision a) = Some t" and g: "decision_guard a t f c creator = None"
    and c: "review_carrier (fg_blob f) = Inr c" and h: "coherent f"
  shows "coherent (decided_finding now a t f c) \<and> fg_status f \<noteq> ''fixed''"
proof -
  let ?f = "decided_finding now a t f c"
  obtain c' where c': "review_carrier (fg_blob ?f) = Inr c'" "ca_key c' = ca_key c"
      "ca_key c \<noteq> None \<longrightarrow> ca_review c' = decided_review now a t c" "ca_key c = None \<longrightarrow> c' = c"
    using decided_carrier [OF c] by blast
  show ?thesis
  proof (cases "ca_key c")
    case None
    then show ?thesis using guard_unkeyed [OF t g None] c' by (auto simp: coherent_def decided_status ca_state_def)
  next
    case (Some k)
    then have k: "ca_key c \<noteq> None" by simp
    have "(fg_status f, rw_state (ca_review c)) \<in> set coherent_pairs" using h c Some by (simp add: coherent_def ca_state_def)
    from guard_edge [OF t g k this] have "edge (da_decision a) (fg_status f, rw_state (ca_review c)) (fg_status ?f, rw_state (ca_review c'))"
      using c' k by (simp add: decided_status decided_state)
    then have "(fg_status ?f, rw_state (ca_review c')) \<in> set coherent_pairs \<and> fg_status f \<noteq> ''fixed''"
      using edges_coherent by (fastforce simp: edge_def list_all_iff)
    then show ?thesis using c' Some by (simp add: coherent_def ca_state_def)
  qed
qed

lemma review_recorded:
  assumes "pg_good (req_chain q) w" "authorize pg_append now q w = (Inr (), w')"
  shows "\<exists>ev. pg_read zone (req_chain q) w' = pg_read zone (req_chain q) w @ [ev] \<and>
    jget ev ''action'' = JStr (rq_action q) \<and> jget ev ''success'' = JBool True"
  using pgw.authorize_recorded [OF assms] by auto

subsection \<open>Properties\<close>


text \<open>A refused decision leaves every finding as it was and adds one unsuccessful event to the
  run's chain; every other failure leaves the findings as they were.\<close>

theorem review_refusal_recorded:
  assumes "decide pg_append now creators a fs w = (Inl e, w', fs')"
    "\<And>f. dget fs (da_finding a) = Some f \<Longrightarrow> pg_good (chain_id_of (Some (fg_project f)) (Some (fg_run f))) w"
  shows "fs' = fs \<and> (case e of ReviewRefused r \<Rightarrow>
      \<exists>f ev. dget fs (da_finding a) = Some f \<and>
        pg_read zone (chain_id_of (Some (fg_project f)) (Some (fg_run f))) w' =
        pg_read zone (chain_id_of (Some (fg_project f)) (Some (fg_run f))) w @ [ev] \<and> jget ev ''success'' = JBool False
    | _ \<Rightarrow> True)"
proof (cases e)
  case (ReviewRefused r)
  from assms(1) obtain t :: transition and f detail where d: "dget fs (da_finding a) = Some f"
      "emit pg_append now (review_call (tr_action t) (da_actor a) f detail) w = (Inr (), w')" "fs' = fs"
    unfolding ReviewRefused by (blast elim: decide_refused)
  have "call_chain (review_call (tr_action t) (da_actor a) f detail) = chain_id_of (Some (fg_project f)) (Some (fg_run f))"
    by (simp add: review_call_def)
  then show ?thesis
    using pgw.emit_recorded [OF _ d(2), of zone] assms(2) [OF d(1)] d(1,3) ReviewRefused by (fastforce simp: review_call_def)
qed (use decide_Inl_rows [OF assms(1)] in auto)


subsection \<open>Witnesses\<close>

definition ex_revision :: revision where
  "ex_revision = \<lparr>rv_number = 1, rv_author = ''ann'', rv_created = 0, rv_submitted = None, rv_evidence = [''m.1''],
     rv_observation = Some ''o'', rv_interpretation = None, rv_candidate = None, rv_sha = None\<rparr>"

definition ex_finding :: "string \<Rightarrow> finding" where
  "ex_finding s = \<lparr>fg_run = ''r1'', fg_project = ''p'', fg_status = ''open'',
     fg_blob = \<lparr>bl_base = [], bl_ml = NoBlock, bl_llm = Block (Some (new_review\<lparr>rw_state := s, rw_revisions := [ex_revision]\<rparr>))\<rparr>,
     fg_updated = 0\<rparr>"

definition ex_decide :: "string \<Rightarrow> string \<Rightarrow> decide_args" where
  "ex_decide d actor = \<lparr>da_finding = ''f'', da_decision = d, da_reason = ''checked'', da_expected_status = ''open'',
     da_expected_state = None, da_actor = actor, da_system = False, da_allowlist = []\<rparr>"

lemma ex_guard: "(case (dget transitions d, review_carrier (fg_blob (ex_finding s))) of
    (Some t, Inr c) \<Rightarrow> decision_guard (ex_decide d actor) t (ex_finding s) c (Some ''bob'') = None | _ \<Rightarrow> False)"
  if "(d, s, actor) \<in> {(''resolve'', ''confirmed'', ''eve''), (''submit'', ''draft'', ''ann'')}"
proof -
  have "list_all (\<lambda>(d, s, actor). case (dget transitions d, review_carrier (fg_blob (ex_finding s))) of
    (Some t, Inr c) \<Rightarrow> decision_guard (ex_decide d actor) t (ex_finding s) c (Some ''bob'') = None | _ \<Rightarrow> False)
    [(''resolve'', ''confirmed'', ''eve''), (''submit'', ''draft'', ''ann'')]" by code_simp
  then show ?thesis using that by auto
qed

text \<open>The append of the Postgres writer succeeds on the empty store.\<close>

lemma pg_empty_append: "\<exists>w' ev. pg_append c now \<lparr>pg_heads = [], pg_rows = []\<rparr> = Inr (w', ev)"
proof (cases "pg_append c now \<lparr>pg_heads = [], pg_rows = []\<rparr>")
  case (Inl e)
  have "pg_good (call_chain c) \<lparr>pg_heads = [], pg_rows = []\<rparr>" using pg_empty_good by (simp add: pg_all_good_def)
  from pg_append_error [OF this Inl] Inl show ?thesis
    by (auto simp: pg_append_def Let_def split: option.splits prod.splits)
qed auto

lemma ex_decided:
  assumes "(d, s, actor) \<in> {(''resolve'', ''confirmed'', ''eve''), (''submit'', ''draft'', ''ann'')}"
  shows "\<exists>out w' fs'. decide pg_append 1 (\<lambda>_. Some ''bob'') (ex_decide d actor) [(''f'', ex_finding s)] \<lparr>pg_heads = [], pg_rows = []\<rparr>
     = (Inr out, w', fs')"
proof -
  let ?w = "\<lparr>pg_heads = [], pg_rows = []\<rparr>"
  obtain t where t: "dget transitions d = Some t" using ex_guard [OF assms] by (auto split: option.splits)
  obtain c where c: "review_carrier (fg_blob (ex_finding s)) = Inr c" using ex_guard [OF assms] t by (auto split: sum.splits)
  have g: "decision_guard (ex_decide d actor) t (ex_finding s) c (Some ''bob'') = None" using ex_guard [OF assms] t c by simp
  have au: "\<exists>w'. authorize pg_append 1 (review_req x y z f e) ?w = (Inr (), w')" for x y z f e
  proof -
    obtain w' ev where "pg_append (auth_call (review_req x y z f e) ''n/a'' False True) 1 ?w = Inr (w', ev)"
      using pg_empty_append by blast
    then show ?thesis by (simp add: authorize_def emit_def review_req_def)
  qed
  have f: "da_decision (ex_decide d actor) = d" "strip (da_reason (ex_decide d actor)) \<noteq> []" "da_expected_state (ex_decide d actor) = None"
      "da_finding (ex_decide d actor) = ''f''"
    by (simp_all add: ex_decide_def strip_def lstrip_def is_space_def)
  obtain w' where "authorize pg_append 1 (review_req (tr_action t) (da_actor (ex_decide d actor)) (da_allowlist (ex_decide d actor))
      (ex_finding s) (decision_detail (ex_decide d actor) t (ex_finding s) c (Some ''bob''))) ?w = (Inr (), w')" using au by blast
  then show ?thesis using t c g f by (simp add: decide_def Let_def)
qed

lemma ex_pg_good: "pg_good cid \<lparr>pg_heads = [], pg_rows = []\<rparr>"
  using pg_empty_good by (simp add: pg_all_good_def)

lemma ex_coherent: "s \<in> {''confirmed'', ''draft''} \<Longrightarrow> coherent (ex_finding s)"
proof -
  have "list_all (\<lambda>s. coherent (ex_finding s)) [''confirmed'', ''draft'']" by code_simp
  then show "s \<in> {''confirmed'', ''draft''} \<Longrightarrow> coherent (ex_finding s)" by auto
qed


theorem review_refusal_recorded_witness:
  "\<exists>e w' fs'. decide pg_append 1 (\<lambda>_. Some ''eve'') (ex_decide ''resolve'' ''eve'') [(''f'', ex_finding ''confirmed'')]
     \<lparr>pg_heads = [], pg_rows = []\<rparr> = (Inl e, w', fs') \<and> fs' = [(''f'', ex_finding ''confirmed'')]"
proof -
  obtain r w' fs' where d0: "decide pg_append 1 (\<lambda>_. Some ''eve'') (ex_decide ''resolve'' ''eve'') [(''f'', ex_finding ''confirmed'')]
     \<lparr>pg_heads = [], pg_rows = []\<rparr> = (r, w', fs')" by (rule prod_cases3)
  have "\<exists>e. r = Inl e"
  proof (cases r)
    case (Inr out)
    obtain t :: transition and f c where "dget transitions ''resolve'' = Some t"
        "decision_guard (ex_decide ''resolve'' ''eve'') t f c (run_creator (\<lambda>_. Some ''eve'') f) = None"
      by (rule decide_Inr [OF d0 [unfolded Inr]]) (auto simp: ex_decide_def)
    then show ?thesis
      using independence_guard_None [of "ex_decide ''resolve'' ''eve''" t c "run_creator (\<lambda>_. Some ''eve'') f"]
      by (auto simp: decision_guard_def ex_decide_def run_creator_def)
  qed simp
  then obtain e where d: "decide pg_append 1 (\<lambda>_. Some ''eve'') (ex_decide ''resolve'' ''eve'') [(''f'', ex_finding ''confirmed'')]
     \<lparr>pg_heads = [], pg_rows = []\<rparr> = (Inl e, w', fs')" using d0 by blast
  from review_refusal_recorded [OF d ex_pg_good, of None] show ?thesis using d by auto
qed


end
