(* ===== verification/Drafts.thy ===== *)
theory Drafts
  imports Review "HOL-Library.Product_Lexorder"
begin

text \<open>
  The analyst drafts of \<open>services/finding_review.py\<close> with the record they cite:
  \<open>services/reports.py\<close> \<open>load_run_record\<close> and the technique stamp of \<open>ml/atlas.py\<close>. The blob store and
  \<open>json.loads\<close> are fields of the environment; the lists of a run record are lists of objects, as
  the record schema dumps them, and their rows validate to themselves.
\<close>

subsection \<open>The run record\<close>

record artifact =
  af_id :: string
  af_run :: string
  af_kind :: string
  af_created :: int
  af_location :: string
  af_sha :: string

definition newest_artifact :: "string \<Rightarrow> string \<Rightarrow> artifact list \<Rightarrow> artifact option" where
  "newest_artifact kind rid arts =
     (let xs = sort_key (\<lambda>a. (af_created a, af_id a)) (filter (\<lambda>a. af_run a = rid \<and> af_kind a = kind) arts)
      in if xs = [] then None else Some (last xs))"

datatype load_error = LoadMissing | LoadMismatch | LoadStore

definition load_run_record :: "(string \<Rightarrow> string option) \<Rightarrow> (string \<Rightarrow> json option) \<Rightarrow> artifact list \<Rightarrow> string
    \<Rightarrow> (load_error, jdict \<times> string) result" where
  "load_run_record store loads arts rid = (case newest_artifact ''ml.run_record'' rid arts of
      None \<Rightarrow> Inl LoadMissing
    | Some a \<Rightarrow> (case store (af_location a) of
        None \<Rightarrow> Inl LoadStore
      | Some raw \<Rightarrow>
          if sha256 raw \<noteq> af_sha a then Inl LoadMismatch
          else (case loads raw of Some (JObj d) \<Rightarrow> Inr (d, sha256 raw) | _ \<Rightarrow> Inl LoadMismatch)))"

definition record_rows :: "jdict \<Rightarrow> string \<Rightarrow> jdict list" where
  "record_rows r key = (case jget r key of
     JArr vs \<Rightarrow> concat (map (\<lambda>v. case v of JObj d \<Rightarrow> [d] | _ \<Rightarrow> []) vs) | _ \<Rightarrow> [])"

record run_evidence =
  re_record :: jdict
  re_artifact :: "string option"
  re_known :: "string list"

definition rows_named :: "jdict \<Rightarrow> string \<Rightarrow> string list \<Rightarrow> jdict list" where
  "rows_named r key ids = filter (\<lambda>m. \<exists>i \<in> set ids. jget m ''id'' = JStr i) (record_rows r key)"

definition ev_measurements :: "run_evidence \<Rightarrow> string list \<Rightarrow> jdict list" where
  "ev_measurements e ids = rows_named (re_record e) ''measurements'' ids"

definition ev_observations :: "run_evidence \<Rightarrow> string list \<Rightarrow> jdict list" where
  "ev_observations e ids = rows_named (re_record e) ''observations'' ids"

definition ev_attack_name :: "run_evidence \<Rightarrow> string \<Rightarrow> string" where
  "ev_attack_name e attack = (case find (\<lambda>a. jget a ''id'' = JStr attack) (record_rows (re_record e) ''attacks'') of
      None \<Rightarrow> attack
    | Some a \<Rightarrow> if json_truthy (jget a ''name'') then py_str (jget a ''name'') else attack)"

definition row_ids :: "jdict \<Rightarrow> string \<Rightarrow> string list" where
  "row_ids r key = map (\<lambda>m. py_str (jget m ''id'')) (record_rows r key)"

record draft_env =
  de_runs :: "(string, run) dict"
  de_run_target :: "string \<Rightarrow> string option"
  de_target_value :: "string \<Rightarrow> string option"
  de_artifacts :: "artifact list"
  de_store :: "string \<Rightarrow> string option"
  de_loads :: "string \<Rightarrow> json option"
  de_allowlist :: "string list"
  de_scanner_uuid :: string     \<comment> \<open>\<open>uuid4().hex[:8]\<close>\<close>
  de_uuid :: string

definition load_run_evidence :: "draft_env \<Rightarrow> string \<Rightarrow> (review_error, run_evidence) result" where
  "load_run_evidence e rid = (case load_run_record (de_store e) (de_loads e) (de_artifacts e) rid of
      Inl LoadMissing \<Rightarrow> Inl (raise_api ''not_found'' (''run '' @ rid @ '' has no ml.run_record to cite'') [])
    | Inl LoadMismatch \<Rightarrow> Inl (raise_api ''score_unavailable''
        ''run record digest mismatch: the recorded ml.run_record does not match its sha256''
        [(''reasons'', jstrs [''artifact_digest_mismatch''])])
    | Inl LoadStore \<Rightarrow> Inl StoreFailed
    | Inr (r, _) \<Rightarrow> Inr \<lparr>re_record = r,
        re_artifact = map_option af_id (newest_artifact ''ml.run_record'' rid (de_artifacts e)),
        re_known = row_ids r ''measurements'' @ row_ids r ''observations'' @ row_ids r ''interpretation''\<rparr>)"

definition check_evidence_ids :: "run_evidence \<Rightarrow> string list \<Rightarrow> (review_error, string list) result" where
  "check_evidence_ids e evidence_ids =
     (let ids = dedup evidence_ids; unknown = filter (\<lambda>i. i \<notin> set (re_known e)) ids in
      if ids = [] then Inl (raise_api ''params_out_of_range'' ''a draft cites at least one measurement or observation id''
        [(''field'', JStr ''evidence_ids'')])
      else if unknown \<noteq> [] then Inl (raise_api ''params_out_of_range''
        (''evidence_ids must name measurement, observation or interpretation ids of the run'' @ [CHR 0x27] @ ''s immutable record'')
        [(''field'', JStr ''evidence_ids''), (''reasons'', jstrs unknown)])
      else Inr ids)"

subsection \<open>Technique stamps\<close>

definition stamp_technique_ids :: "(string, string) dict" where
  "stamp_technique_ids = [(''fgsm'', ''AML.T0043''), (''pgd'', ''AML.T0043''), (''cw_l2'', ''AML.T0043''),
     (''deepfool'', ''AML.T0043''), (''surrogate_transfer_pgd'', ''AML.T0043''), (''hopskipjump'', ''AML.T0040''),
     (''zoo'', ''AML.T0040''), (''word_substitution'', ''AML.T0043''), (''dpatch'', ''AML.T0043''),
     (''label_flip_poisoning'', ''AML.T0020''), (''backdoor_poisoning'', ''AML.T0020'')]"

text \<open>The tag is named by its id.\<close>

definition technique_for_attack :: "string \<Rightarrow> string option" where
  "technique_for_attack attack = dget stamp_technique_ids attack"

subsection \<open>Descriptions\<close>

definition manual_finding_type :: string where "manual_finding_type = ''adversarial_ml_manual''"

definition labelled :: "string \<Rightarrow> string option \<Rightarrow> string list" where
  "labelled l t = (if truthy t then [l @ '': '' @ the t] else [])"

definition draft_description :: "revision \<Rightarrow> string \<Rightarrow> string \<Rightarrow> string" where
  "draft_description rv attack_name rid = join '' ''
     ([''Analyst-authored draft (revision '' @ dec (rv_number rv) @ '', author '' @ rv_author rv @ '') on '' @ attack_name @
       '' from run '' @ rid @ ''; severity declared by the author, not derived from measurements.''] @
      labelled ''Observation'' (rv_observation rv) @ labelled ''Interpretation'' (rv_interpretation rv) @
      labelled ''Candidate'' (rv_candidate rv) @
      [''Cites: '' @ join '', '' (map (\<lambda>i. CHR ''['' # i @ '']'') (rv_evidence rv)) @ ''.''])"

text \<open>\<open>json.dumps(evidence_json, sort_keys=True)\<close>.\<close>

definition evidence_text :: "jdict list \<Rightarrow> jdict list \<Rightarrow> string list \<Rightarrow> string" where
  "evidence_text ms os ids = dumps esc_char (canon (JObj
     [(''measurements'', JArr (map (\<lambda>m. jget m ''id'') ms)), (''observations'', JArr (map (\<lambda>m. jget m ''id'') os)),
      (''interpretation'', jstrs (filter (starts_with ''i.'') ids))]))"

subsection \<open>Creation\<close>

record campaign_cfg =
  cc_target :: string
  cc_attacks :: "string list"
  cc_norm :: json
  cc_eps_grid :: json
  cc_reference :: json
  cc_threshold :: json

record draft_args =
  dr_run :: string
  dr_attack :: string
  dr_title :: string
  dr_severity :: string
  dr_observation :: string
  dr_interpretation :: "string option"
  dr_candidate :: "string option"
  dr_evidence :: "string list"
  dr_actor :: string
  dr_system :: bool

definition severities :: "string list" where
  "severities = [''critical'', ''high'', ''medium'', ''low'']"

definition author_refusal :: "string \<Rightarrow> string option \<Rightarrow> string option \<Rightarrow> jdict \<Rightarrow> api_refusal \<Rightarrow> audit_call" where
  "author_refusal actor project rid detail r =
     \<lparr>ac_action = author_action, ac_actor = actor, ac_target = None, ac_check = ''n/a'', ac_override = False,
      ac_success = False,
      ac_detail = dict_update detail [(''refusal'', JStr (ar_code r)), (''message'', jget (ar_detail r) ''message'')],
      ac_run = rid, ac_project = project\<rparr>"

text \<open>Only an \<open>ApiError\<close> is recorded before it is raised.\<close>

definition author_refuse :: "(audit_call \<Rightarrow> int \<Rightarrow> 'w \<Rightarrow> (audit_error, 'w \<times> jdict) result) \<Rightarrow> int \<Rightarrow> string \<Rightarrow>
    string option \<Rightarrow> string option \<Rightarrow> jdict \<Rightarrow> review_error \<Rightarrow> 'w \<Rightarrow> review_error \<times> 'w" where
  "author_refuse app now actor project rid detail err w = (case err of
      ReviewRefused r \<Rightarrow> (case emit app now (author_refusal actor project rid detail r) w of
          (Inl e, w') \<Rightarrow> (ReviewAuth e, w') | (Inr _, w') \<Rightarrow> (err, w'))
    | _ \<Rightarrow> (err, w))"

definition draft_checks :: "draft_env \<Rightarrow> (string, campaign_cfg) dict \<Rightarrow> draft_args \<Rightarrow> run
    \<Rightarrow> (review_error, campaign_cfg \<times> run_evidence \<times> string list) result" where
  "draft_checks e campaigns a r =
     (if \<not> is_terminal (r_status r) then
        Inl (raise_api ''campaign_not_terminal'' ''the campaign has not reached a terminal status'' [(''status'', JStr (r_status r))])
      else case dget campaigns (dr_run a) of
        None \<Rightarrow> Inl (raise_api ''not_found'' ''campaign record not found for this run'' [])
      | Some cfg \<Rightarrow>
          if dr_attack a \<notin> set (cc_attacks cfg) then
            Inl (raise_api ''params_out_of_range'' (''attack_id is not in the run'' @ [CHR 0x27] @ ''s attack set'')
              [(''field'', JStr ''attack_id''), (''allowed'', jstrs (cc_attacks cfg))])
          else rbind (load_run_evidence e (dr_run a)) (\<lambda>ev.
            rbind (check_evidence_ids ev (dr_evidence a)) (\<lambda>ids. Inr (cfg, ev, ids))))"

definition manual_note :: string where
  "manual_note = ''analyst-authored draft: severity declared by the author, not derived from measurements; evidence cited by id from the immutable run record''"

definition first_revision :: "int \<Rightarrow> draft_args \<Rightarrow> string list \<Rightarrow> revision" where
  "first_revision now a ids = \<lparr>rv_number = 1, rv_author = dr_actor a, rv_created = now, rv_submitted = None,
     rv_evidence = ids, rv_observation = Some (dr_observation a), rv_interpretation = dr_interpretation a,
     rv_candidate = dr_candidate a, rv_sha = None\<rparr>"

definition draft_detail :: "int \<Rightarrow> draft_args \<Rightarrow> campaign_cfg \<Rightarrow> run_evidence \<Rightarrow> string list \<Rightarrow> ml_detail" where
  "draft_detail now a cfg ev ids =
     \<lparr>md_attack = dr_attack a, md_name = ev_attack_name ev (dr_attack a), md_norm = cc_norm cfg,
      md_eps_grid = cc_eps_grid cfg, md_reference = cc_reference cfg, md_threshold = cc_threshold cfg,
      md_atlas = technique_for_attack (dr_attack a),
      md_measurements = ev_measurements ev ids, md_observations = ev_observations ev ids,
      md_limitations = (case jget (re_record ev) ''limitations'' of JArr vs \<Rightarrow> map py_str vs | _ \<Rightarrow> []) @
        [''Analyst-authored draft: the observation, interpretation and candidate texts are the author'' @ [CHR 0x27] @
         ''s; only the cited ids are measured.''],
      md_review = new_review\<lparr>rw_state := ''draft'', rw_notes := Some manual_note, rw_revisions := [first_revision now a ids]\<rparr>\<rparr>"

text \<open>The dump of \<open>RedsimFinding\<close>, its \<open>ml\<close> key apart.\<close>

definition draft_base :: "draft_env \<Rightarrow> int \<Rightarrow> draft_args \<Rightarrow> campaign_cfg \<Rightarrow> run_evidence \<Rightarrow> ml_detail \<Rightarrow> string list \<Rightarrow> jdict" where
  "draft_base e now a cfg ev md ids =
     (let target = de_run_target e (dr_run a) in
      [(''id'', JStr (''manual.'' @ dr_attack a @ ''.'' @ de_scanner_uuid e)), (''title'', JStr (strip (dr_title a))),
       (''severity'', JStr (dr_severity a)), (''finding_type'', JStr manual_finding_type),
       (''description'', JStr (draft_description (first_revision now a ids) (md_name md) (dr_run a))),
       (''source_tool'', JStr ''manual''), (''source_run_id'', JStr (dr_run a)),
       (''affected_component'', JStr (if truthy target then the target else cc_target cfg)),
       (''confidence'', JStr ''low''), (''status'', JStr ''open''), (''created_at'', JStr (iso_utc now)),
       (''updated_at'', JStr (iso_utc now)), (''cvss'', JNull), (''cve'', JNull), (''cwe'', JNull),
       (''target'', jopt (if truthy target then de_target_value e (the target) else None)),
       (''endpoint'', JNull), (''method'', JNull), (''code_locations'', JNull), (''poc_script_code'', JNull),
       (''remediation_steps'', if truthy (dr_candidate a) then JStr (''CANDIDATE: '' @ the (dr_candidate a)) else JNull),
       (''evidence'', JStr (evidence_text (md_measurements md) (md_observations md) ids)), (''references'', JNull),
       (''artifact_path'', jopt (re_artifact ev)), (''package_name'', JNull), (''installed_version'', JNull),
       (''fixed_version'', JNull), (''impact'', JNull), (''technical_analysis'', JNull), (''poc_description'', JNull),
       (''timestamp'', JNull), (''cvss_breakdown'', JNull)])"

definition author_req :: "draft_env \<Rightarrow> string \<Rightarrow> string \<Rightarrow> string \<Rightarrow> jdict \<Rightarrow> auth_req" where
  "author_req e actor project rid detail =
     \<lparr>rq_action = author_action, rq_target = None, rq_allowlist = de_allowlist e, rq_override = False, rq_detail = detail,
      rq_actor = Some actor, rq_run = Some rid, rq_project = Some project\<rparr>"

definition draft_digest :: "draft_args \<Rightarrow> string list \<Rightarrow> string" where
  "draft_digest a ids = revision_digest (Some (dr_observation a)) (dr_interpretation a) (dr_candidate a) ids"

definition create_draft_finding :: "(audit_call \<Rightarrow> int \<Rightarrow> 'w \<Rightarrow> (audit_error, 'w \<times> jdict) result) \<Rightarrow> int \<Rightarrow> draft_env \<Rightarrow>
    (string, campaign_cfg) dict \<Rightarrow> draft_args \<Rightarrow> findings \<Rightarrow> 'w \<Rightarrow> (review_error, string) result \<times> 'w \<times> findings" where
  "create_draft_finding app now e campaigns a fs w =
     (if dr_system a then (Inl (raise_api ''forbidden'' ''system principals cannot author findings'' []), w, fs)
      else if strip (dr_title a) = [] \<or> strip (dr_observation a) = [] then (Inl TextRequired, w, fs)
      else case dget (de_runs e) (dr_run a) of
        None \<Rightarrow> (Inl RunMissing, w, fs)
      | Some r \<Rightarrow>
          let detail = [(''op'', JStr ''create''), (''run_id'', JStr (dr_run a)), (''attack_id'', JStr (dr_attack a)),
                (''author'', JStr (dr_actor a)), (''n_evidence'', JInt (int (length (dr_evidence a)))),
                (''severity'', JStr (dr_severity a))]
          in (case draft_checks e campaigns a r of
              Inl err \<Rightarrow> (case author_refuse app now (dr_actor a) (Some (r_project r)) (Some (dr_run a)) detail err w of
                  (x, w') \<Rightarrow> (Inl x, w', fs))
            | Inr (cfg, ev, ids) \<Rightarrow>
                if dr_severity a \<notin> set severities then (Inl BlockInvalid, w, fs)
                else let md = draft_detail now a cfg ev ids;
                         digest = draft_digest a ids;
                         detail' = dict_update detail [(''evidence_ids'', jstrs ids), (''revision'', JInt 1),
                           (''revision_sha256'', JStr digest), (''title_sha256'', JStr (sha256 (strip (dr_title a)))),
                           (''finding_type'', JStr manual_finding_type),
                           (''scanner_finding_id'', JStr (''manual.'' @ dr_attack a @ ''.'' @ de_scanner_uuid e))]
                     in (case authorize app now (author_req e (dr_actor a) (r_project r) (dr_run a) detail') w of
                         (Inl x, w') \<Rightarrow> (Inl (ReviewAuth x), w', fs)
                       | (Inr _, w') \<Rightarrow>
                           (Inr (de_uuid e), w', dset (de_uuid e)
                             \<lparr>fg_run = dr_run a, fg_project = r_project r, fg_status = ''open'',
                              fg_blob = \<lparr>bl_base = draft_base e now a cfg ev md ids, bl_ml = Block md, bl_llm = NoBlock\<rparr>,
                              fg_updated = now\<rparr> fs))))"

subsection \<open>Revision\<close>

record revise_args =
  ra_finding :: string
  ra_observation :: "string option"
  ra_interpretation :: "string option"
  ra_candidate :: "string option"
  ra_evidence :: "string list option"
  ra_actor :: string
  ra_system :: bool

definition revise_checks :: "draft_env \<Rightarrow> revise_args \<Rightarrow> finding \<Rightarrow> carrier
    \<Rightarrow> (review_error, ml_detail \<times> revision \<times> string list \<times> run_evidence option) result" where
  "revise_checks e a f c =
     (if ra_system a then Inl (raise_api ''forbidden'' ''system principals cannot author findings'' [])
      else case (ca_detail c, latest_revision c) of
        (Some md, Some rv) \<Rightarrow>
          if rv_author rv \<noteq> ra_actor a then
            Inl (raise_api ''forbidden'' (''only the draft'' @ [CHR 0x27] @ ''s author can revise it'') [])
          else if ca_state c \<noteq> Some ''draft'' then
            Inl (raise_api ''review_transition_invalid''
              (''a revision can be added only in review state '' @ repr_str ''draft'' @ ''; this finding is '' @ repr_opt (ca_state c))
              [(''review_state'', jopt (ca_state c)), (''allowed_from_review_states'', jstrs [''draft''])])
          else (case ra_evidence a of
              None \<Rightarrow> Inr (md, rv, rv_evidence rv, None)
            | Some ids0 \<Rightarrow> rbind (load_run_evidence e (fg_run f)) (\<lambda>ev.
                rbind (check_evidence_ids ev ids0) (\<lambda>ids. Inr (md, rv, ids, Some ev))))
      | _ \<Rightarrow> Inl (raise_api ''review_transition_invalid'' ''only an analyst draft with revisions can be revised''
          [(''review_state'', jopt (ca_state c))]))"

definition or_latest :: "'a option \<Rightarrow> 'a option \<Rightarrow> 'a option" where
  "or_latest x y = (case x of None \<Rightarrow> y | Some _ \<Rightarrow> x)"

definition revised :: "int \<Rightarrow> revise_args \<Rightarrow> revision \<Rightarrow> string list \<Rightarrow> revision" where
  "revised now a rv ids = \<lparr>rv_number = rv_number rv + 1, rv_author = ra_actor a, rv_created = now, rv_submitted = None,
     rv_evidence = ids, rv_observation = or_latest (ra_observation a) (rv_observation rv),
     rv_interpretation = or_latest (ra_interpretation a) (rv_interpretation rv),
     rv_candidate = or_latest (ra_candidate a) (rv_candidate rv), rv_sha = None\<rparr>"

definition revised_detail :: "int \<Rightarrow> ml_detail \<Rightarrow> run_evidence option \<Rightarrow> string list \<Rightarrow> revision \<Rightarrow> ml_detail" where
  "revised_detail now md ev ids new =
     (let md1 = (case ev of None \<Rightarrow> md
           | Some x \<Rightarrow> md\<lparr>md_measurements := ev_measurements x ids, md_observations := ev_observations x ids\<rparr>);
          rw = md_review md1
      in md1\<lparr>md_review := rw\<lparr>rw_revisions := rw_revisions rw @ [new], rw_at := Some now\<rparr>\<rparr>)"

definition revised_finding :: "int \<Rightarrow> finding \<Rightarrow> ml_detail \<Rightarrow> string list \<Rightarrow> revision \<Rightarrow> finding" where
  "revised_finding now f md ids new =
     (let base1 = dset ''evidence'' (JStr (evidence_text (md_measurements md) (md_observations md) ids))
            (dset ''description'' (JStr (draft_description new (md_name md) (fg_run f))) (bl_base (fg_blob f)));
          base2 = (if truthy (rv_candidate new) then dset ''remediation_steps'' (JStr (''CANDIDATE: '' @ the (rv_candidate new))) base1 else base1)
      in f\<lparr>fg_blob := (fg_blob f)\<lparr>bl_base := dset ''updated_at'' (JStr (iso_utc now)) base2, bl_ml := Block md\<rparr>, fg_updated := now\<rparr>)"

definition revise_draft :: "(audit_call \<Rightarrow> int \<Rightarrow> 'w \<Rightarrow> (audit_error, 'w \<times> jdict) result) \<Rightarrow> int \<Rightarrow> draft_env \<Rightarrow>
    revise_args \<Rightarrow> findings \<Rightarrow> 'w \<Rightarrow> (review_error, revision) result \<times> 'w \<times> findings" where
  "revise_draft app now e a fs w = (case dget fs (ra_finding a) of
      None \<Rightarrow> (Inl FindingMissing, w, fs)
    | Some f \<Rightarrow> (case review_carrier (fg_blob f) of
        Inl _ \<Rightarrow> (Inl BlockInvalid, w, fs)
      | Inr c \<Rightarrow>
          let detail = [(''op'', JStr ''revise''), (''finding_id'', JStr (ra_finding a)), (''run_id'', JStr (fg_run f)),
                (''author'', JStr (ra_actor a)), (''revision'', int_json (map_option rv_number (latest_revision c))),
                (''review_state'', jopt (ca_state c))]
          in (case revise_checks e a f c of
              Inl err \<Rightarrow> (case author_refuse app now (ra_actor a) (Some (fg_project f)) (Some (fg_run f)) detail err w of
                  (x, w') \<Rightarrow> (Inl x, w', fs))
            | Inr (md, rv, ids, ev) \<Rightarrow>
                let new = revised now a rv ids;
                    digest = revision_digest (rv_observation new) (rv_interpretation new) (rv_candidate new) ids;
                    detail' = dict_update detail [(''new_revision'', JInt (rv_number new)), (''revision_sha256'', JStr digest),
                      (''n_evidence'', JInt (int (length ids))), (''evidence_ids'', jstrs ids)]
                in (case authorize app now (author_req e (ra_actor a) (fg_project f) (fg_run f) detail') w of
                    (Inl x, w') \<Rightarrow> (Inl (ReviewAuth x), w', fs)
                  | (Inr _, w') \<Rightarrow>
                      (Inr new, w', dset (ra_finding a)
                        (revised_finding now f (revised_detail now md ev ids new) ids new) fs)))))"

subsection \<open>Properties\<close>

lemma raise_api_not_ok: "\<exists>x. raise_api c m ex = ReviewCode x \<or> (\<exists>r. raise_api c m ex = ReviewRefused r)"
  by (auto simp: raise_api_def split: sum.splits)

lemma load_run_evidence_Inr:
  assumes "load_run_evidence e rid = Inr ev"
  obtains art raw d where "newest_artifact ''ml.run_record'' rid (de_artifacts e) = Some art"
    "de_store e (af_location art) = Some raw" "sha256 raw = af_sha art" "de_loads e raw = Some (JObj d)"
    "re_known ev = row_ids d ''measurements'' @ row_ids d ''observations'' @ row_ids d ''interpretation''" "re_record ev = d"
  using assms unfolding load_run_evidence_def load_run_record_def
  by (auto split: option.splits sum.splits if_splits json.splits load_error.splits)

lemma check_evidence_ids_Inr: "check_evidence_ids ev xs = Inr ids \<Longrightarrow> ids = dedup xs \<and> xs \<noteq> [] \<and> set ids \<subseteq> set (re_known ev)"
  by (auto simp: check_evidence_ids_def Let_def filter_empty_conv split: if_splits)


text \<open>A revision is added by the draft's author only, to a finding in review state draft, and only
  adds: the earlier revisions, the history and the review state stay as they were.\<close>

theorem revise_appends:
  assumes "revise_draft app now e a fs w = (Inr new, w', fs')" "dget fs (ra_finding a) = Some f"
    "review_carrier (fg_blob f) = Inr c"
  shows "\<exists>f' c'. fs' = dset (ra_finding a) f' fs \<and> review_carrier (fg_blob f') = Inr c' \<and> fg_status f' = fg_status f \<and>
    ca_state c = Some ''draft'' \<and> ca_state c' = Some ''draft'' \<and> \<not> ra_system a \<and>
    map_option rv_author (latest_revision c) = Some (ra_actor a) \<and>
    rw_revisions (ca_review c') = rw_revisions (ca_review c) @ [new] \<and> rw_history (ca_review c') = rw_history (ca_review c) \<and>
    rv_author new = ra_actor a \<and> rv_submitted new = None"
proof -
  obtain md rv ids ev where r: "revise_checks e a f c = Inr (md, rv, ids, ev)"
    and new: "new = revised now a rv ids"
    and fs': "fs' = dset (ra_finding a) (revised_finding now f (revised_detail now md ev ids new) ids new) fs"
    using assms unfolding revise_draft_def Let_def by (auto split: option.splits sum.splits if_splits prod.splits)
  have md: "ca_detail c = Some md" and rv: "latest_revision c = Some rv" and au: "rv_author rv = ra_actor a"
    and st: "ca_state c = Some ''draft''" and sys: "\<not> ra_system a"
    using r by (auto simp: revise_checks_def split: if_splits option.splits)
  have b: "bl_ml (fg_blob f) = Block md" and c: "c = \<lparr>ca_key = Some ''ml'', ca_review = md_review md, ca_detail = Some md\<rparr>"
    using assms(3) md by (auto simp: review_carrier_def split: block.splits)
  let ?md = "revised_detail now md ev ids new"
  let ?f = "revised_finding now f ?md ids new"
  have rw: "md_review ?md = (md_review md)\<lparr>rw_revisions := rw_revisions (md_review md) @ [new], rw_at := Some now\<rparr>"
    by (cases ev) (simp_all add: revised_detail_def Let_def)
  have "bl_ml (fg_blob ?f) = Block ?md" by (simp add: revised_finding_def Let_def)
  then have c': "review_carrier (fg_blob ?f) = Inr \<lparr>ca_key = Some ''ml'', ca_review = md_review ?md, ca_detail = Some ?md\<rparr>"
    by (simp add: review_carrier_def)
  have nf: "rv_author new = ra_actor a" "rv_submitted new = None" by (simp_all add: new revised_def)
  have sf: "fg_status ?f = fg_status f" by (simp add: revised_finding_def Let_def)
  show ?thesis
    by (rule exI [of _ ?f], rule exI [of _ "\<lparr>ca_key = Some ''ml'', ca_review = md_review ?md, ca_detail = Some ?md\<rparr>"])
      (use st sys rv au c' fs' nf sf in \<open>simp add: rw c ca_state_def\<close>)
qed

subsection \<open>Witnesses\<close>

definition ex_draft_env :: draft_env where
  "ex_draft_env = \<lparr>de_runs = [(''r'', \<lparr>r_project = ''p'', r_status = ''succeeded'', r_completed = None, r_stage = []\<rparr>)],
     de_run_target = (\<lambda>_. None), de_target_value = (\<lambda>_. None),
     de_artifacts = [\<lparr>af_id = ''a'', af_run = ''r'', af_kind = ''ml.run_record'', af_created = 0, af_location = ''l'', af_sha = sha256 ''x''\<rparr>],
     de_store = (\<lambda>_. Some ''x''),
     de_loads = (\<lambda>_. Some (JObj [(''measurements'', JArr [JObj [(''id'', JStr ''m.1'')]])])),
     de_allowlist = [], de_scanner_uuid = ''00'', de_uuid = ''f''\<rparr>"

definition ex_draft :: draft_args where
  "ex_draft = \<lparr>dr_run = ''r'', dr_attack = ''pgd'', dr_title = ''t'', dr_severity = ''low'', dr_observation = ''o'',
     dr_interpretation = None, dr_candidate = None, dr_evidence = [''m.1''], dr_actor = ''ann'', dr_system = False\<rparr>"

definition ex_campaigns :: "(string, campaign_cfg) dict" where
  "ex_campaigns = [(''r'', \<lparr>cc_target = ''t'', cc_attacks = [''pgd''], cc_norm = JNull, cc_eps_grid = JNull,
     cc_reference = JNull, cc_threshold = JNull\<rparr>)]"

definition unit_append :: "audit_call \<Rightarrow> int \<Rightarrow> unit \<Rightarrow> (audit_error, unit \<times> jdict) result" where
  "unit_append c now w = Inr (w, [])"

lemma ex_draft_checks: "\<exists>cfg ev. draft_checks ex_draft_env ex_campaigns ex_draft \<lparr>r_project = ''p'', r_status = ''succeeded'', r_completed = None, r_stage = []\<rparr>
    = Inr (cfg, ev, [''m.1''])"
  by (simp add: draft_checks_def ex_draft_env_def ex_draft_def ex_campaigns_def is_terminal_def terminal_statuses_def
      load_run_evidence_def load_run_record_def newest_artifact_def check_evidence_ids_def dedup_def row_ids_def record_rows_def
      py_str_def Let_def)


definition ex_ml_finding :: finding where
  "ex_ml_finding = \<lparr>fg_run = ''r'', fg_project = ''p'', fg_status = ''open'',
     fg_blob = \<lparr>bl_base = [], bl_ml = Block \<lparr>md_attack = ''pgd'', md_name = ''PGD'', md_norm = JNull, md_eps_grid = JNull,
       md_reference = JNull, md_threshold = JNull, md_atlas = None, md_measurements = [], md_observations = [], md_limitations = [],
       md_review = new_review\<lparr>rw_state := ''draft'', rw_revisions := [ex_revision]\<rparr>\<rparr>, bl_llm = NoBlock\<rparr>, fg_updated = 0\<rparr>"

definition ex_revise :: revise_args where
  "ex_revise = \<lparr>ra_finding = ''f'', ra_observation = Some ''o2'', ra_interpretation = None, ra_candidate = None,
     ra_evidence = None, ra_actor = ''ann'', ra_system = False\<rparr>"

theorem revise_appends_witness:
  "\<exists>new f' c'. dget (snd (snd (revise_draft unit_append 5 ex_draft_env ex_revise [(''f'', ex_ml_finding)] ()))) ''f'' = Some f' \<and>
     review_carrier (fg_blob f') = Inr c' \<and> rw_revisions (ca_review c') = [ex_revision, new]"
proof -
  obtain c where c: "review_carrier (fg_blob ex_ml_finding) = Inr c" by (simp add: review_carrier_def ex_ml_finding_def)
  have cr: "rw_revisions (ca_review c) = [ex_revision]" using c by (auto simp: review_carrier_def ex_ml_finding_def)
  have ck: "\<exists>md. revise_checks ex_draft_env ex_revise ex_ml_finding c = Inr (md, ex_revision, [''m.1''], None)"
    using c by (auto simp: review_carrier_def ex_ml_finding_def revise_checks_def ex_revise_def latest_revision_def ca_state_def ex_revision_def Let_def)
  have au: "authorize unit_append 5 (author_req ex_draft_env x y z d) () = (Inr (), ())" for x y z d
    by (simp add: authorize_def emit_def author_req_def unit_append_def)
  have f: "dget [(''f'', ex_ml_finding)] (ra_finding ex_revise) = Some ex_ml_finding" by (simp add: ex_revise_def)
  obtain md where m: "revise_checks ex_draft_env ex_revise ex_ml_finding c = Inr (md, ex_revision, [''m.1''], None)" using ck by blast
  have "\<exists>new fs'. revise_draft unit_append 5 ex_draft_env ex_revise [(''f'', ex_ml_finding)] () = (Inr new, (), fs')"
    by (simp add: revise_draft_def Let_def f [simplified] c m au)
  then obtain new fs' where d: "revise_draft unit_append 5 ex_draft_env ex_revise [(''f'', ex_ml_finding)] () = (Inr new, (), fs')" by blast
  from revise_appends [OF d f c] cr d show ?thesis by (auto simp: ex_revise_def)
qed

end
