(* ===== verification/Policy.thy ===== *)
theory Policy
  imports ApiErrors
begin

text \<open>
  \<open>api/policy.py\<close> and \<open>policy/engine.py\<close>: the role gate. The tables, the static engine, the two
  engines that ask a service, the selection and caching of the engine, the gates of the API.
  The HTTP client is a function from URL and body to a reply; the rules of
  \<open>deploy/opa/redsim-authz.rego\<close> and \<open>deploy/cedar/redsim-policy.cedar\<close> are modelled beside them.
\<close>

subsection \<open>Tables\<close>

definition actions :: "string list" where
  "actions = [''scan.start'', ''target.manage'', ''auth_profile.manage'', ''audit.verify'', ''run.cancel'',
     ''model.register'', ''attack.run'', ''explain.run'', ''harden.recommend'', ''finding.review'', ''finding.annotate'',
     ''report.export'', ''llm.probe.run'', ''dataset.register'', ''dataset.export'', ''integration.push'', ''batch.run'',
     ''report.render'', ''finding.author'']"

definition role_rank :: "(string, nat) dict" where
  "role_rank = [(''viewer'', 0), (''scanner'', 1), (''remediator'', 2), (''approver'', 3), (''admin'', 4)]"

definition action_min_role :: "(string, string) dict" where
  "action_min_role = [(''scan.start'', ''scanner''), (''target.manage'', ''admin''), (''auth_profile.manage'', ''admin''),
     (''audit.verify'', ''admin''), (''run.cancel'', ''remediator''), (''model.register'', ''remediator''),
     (''attack.run'', ''scanner''), (''explain.run'', ''scanner''), (''harden.recommend'', ''remediator''),
     (''finding.review'', ''approver''), (''finding.annotate'', ''remediator''), (''report.export'', ''scanner''),
     (''llm.probe.run'', ''remediator''), (''dataset.register'', ''remediator''), (''dataset.export'', ''remediator''),
     (''integration.push'', ''admin''), (''batch.run'', ''scanner''), (''report.render'', ''scanner''),
     (''finding.author'', ''remediator'')]"

subsection \<open>Requests and decisions\<close>

record current_user =
  cu_sub :: string
  cu_email :: string
  cu_memberships :: "(string, string) dict"
  cu_system :: bool

record policy_decision =
  pd_allowed :: bool
  pd_reason :: "string option"

record policy_request =
  pq_subject :: jdict
  pq_action :: string
  pq_resource :: jdict
  pq_context :: jdict

definition to_input :: "policy_request \<Rightarrow> json" where
  "to_input q = JObj [(''subject'', JObj (pq_subject q)), (''action'', JStr (pq_action q)),
     (''resource'', JObj (pq_resource q)), (''context'', JObj (pq_context q))]"

definition resource_keys :: "string list" where
  "resource_keys = [''target'', ''run_id'', ''effect_class'']"

definition build_request :: "current_user \<Rightarrow> string \<Rightarrow> string \<Rightarrow> jdict \<Rightarrow> policy_request" where
  "build_request u action pid extra =
     \<lparr>pq_subject = [(''sub'', JStr (cu_sub u)), (''email'', JStr (cu_email u)),
        (''project_memberships'', JObj (map (\<lambda>(p, r). (p, JStr r)) (cu_memberships u))),
        (''is_system'', JBool (cu_system u))],
      pq_action = action,
      pq_resource = dict_update [(''project_id'', JStr pid)] (filter (\<lambda>(k, _). k \<in> set resource_keys) extra),
      pq_context = dict_update [] (filter (\<lambda>(k, _). k \<notin> set resource_keys) extra)\<rparr>"

text \<open>Errors a decision can end in instead: an action outside the vocabulary, a reply without \<open>get\<close>.\<close>

datatype policy_error = UnknownAction string | NotAnObject

definition allow :: policy_decision where "allow = \<lparr>pd_allowed = True, pd_reason = None\<rparr>"

definition deny :: "string \<Rightarrow> policy_decision" where "deny reason = \<lparr>pd_allowed = False, pd_reason = Some reason\<rparr>"

subsection \<open>The static engine\<close>

definition obj_of :: "json \<Rightarrow> jdict" where
  "obj_of v = (case v of JObj d \<Rightarrow> d | _ \<Rightarrow> [])"

definition static_evaluate :: "policy_request \<Rightarrow> (policy_error, policy_decision) result" where
  "static_evaluate q =
     (let pid = (case jget (pq_resource q) ''project_id'' of JStr s \<Rightarrow> s | _ \<Rightarrow> []) in
      if json_truthy (jget (pq_subject q) ''is_system'') then Inr allow
      else case jget (obj_of (jget (pq_subject q) ''project_memberships'')) pid of
        JStr role \<Rightarrow>
          if role = [] then Inr (deny (''user '' @ py_str (jget (pq_subject q) ''email'') @ '' has no membership on project '' @ pid))
          else if pq_action q \<notin> set actions then Inl (UnknownAction (pq_action q))
          else if dget_or 0 role_rank role < dget_or 0 role_rank (dget_or [] action_min_role (pq_action q)) then
            Inr (deny (''role '' @ [CHR 0x27] @ role @ [CHR 0x27] @ '' cannot perform '' @ [CHR 0x27] @ pq_action q @ [CHR 0x27] @
              '' on project '' @ pid))
          else Inr allow
      | _ \<Rightarrow> Inr (deny (''user '' @ py_str (jget (pq_subject q) ''email'') @ '' has no membership on project '' @ pid)))"

subsection \<open>The engines behind a service\<close>

datatype http_reply = TransportError | HttpReply int "json option"   \<comment> \<open>status, parsed body\<close>

text \<open>\<open>None\<close>: no usable answer. A JSON \<open>null\<close> is the same \<open>None\<close>.\<close>

definition post_json :: "(string \<Rightarrow> json \<Rightarrow> http_reply) \<Rightarrow> string \<Rightarrow> json \<Rightarrow> json option" where
  "post_json http url body = (case http url body of
      TransportError \<Rightarrow> None
    | HttpReply s v \<Rightarrow> if 200 \<le> s \<and> s < 300 then (case v of Some JNull \<Rightarrow> None | _ \<Rightarrow> v) else None)"

definition strip_slashes :: "string \<Rightarrow> string \<Rightarrow> string" where
  "strip_slashes base path =
     rev (dropWhile (\<lambda>c. c = CHR ''/'') (rev base)) @ ''/'' @ dropWhile (\<lambda>c. c = CHR ''/'') path"

definition reason_of :: "jdict \<Rightarrow> string option" where
  "reason_of d = (case jget d ''reason'' of JNull \<Rightarrow> None | v \<Rightarrow> Some (py_str v))"

definition opa_evaluate :: "(string \<Rightarrow> json \<Rightarrow> http_reply) \<Rightarrow> string \<Rightarrow> policy_request \<Rightarrow> (policy_error, policy_decision) result" where
  "opa_evaluate http url q = (case post_json http url (JObj [(''input'', to_input q)]) of
      None \<Rightarrow> Inr (deny ''policy engine unavailable: OPA request failed'')
    | Some (JObj payload) \<Rightarrow> (case jget payload ''result'' of
          JObj res \<Rightarrow> (case jget res ''allow'' of
              JBool b \<Rightarrow> Inr \<lparr>pd_allowed = b, pd_reason = reason_of res\<rparr>
            | _ \<Rightarrow> Inr (deny ''policy engine unavailable: malformed OPA result''))
        | _ \<Rightarrow> Inr (deny ''policy engine unavailable: malformed OPA result''))
    | Some _ \<Rightarrow> Inl NotAnObject)"

definition cedar_evaluate :: "(string \<Rightarrow> json \<Rightarrow> http_reply) \<Rightarrow> string \<Rightarrow> policy_request \<Rightarrow> (policy_error, policy_decision) result" where
  "cedar_evaluate http url q = (case post_json http url (JObj [(''principal'', JObj (pq_subject q)),
        (''action'', JStr (pq_action q)), (''resource'', JObj (pq_resource q)), (''context'', JObj (pq_context q))]) of
      None \<Rightarrow> Inr (deny ''policy engine unavailable: Cedar request failed'')
    | Some (JObj payload) \<Rightarrow> (case jget payload ''decision'' of
          JStr s \<Rightarrow> Inr \<lparr>pd_allowed = (lower (strip s) = ''allow''), pd_reason = reason_of payload\<rparr>
        | _ \<Rightarrow> Inr (deny ''policy engine unavailable: malformed Cedar result''))
    | Some _ \<Rightarrow> Inl NotAnObject)"

subsection \<open>Selection\<close>

datatype engine = StaticEngine | OpaEngine string | CedarEngine string

record policy_config =
  pc_engine :: "string option"
  pc_opa_url :: "string option"
  pc_opa_path :: "string option"
  pc_cedar_url :: "string option"

definition first_truthy :: "string option \<Rightarrow> string option \<Rightarrow> string \<Rightarrow> string" where
  "first_truthy a b d = (if truthy a then the a else if truthy b then the b else d)"

definition build_policy_engine :: "(string, string) dict \<Rightarrow> policy_config option \<Rightarrow> engine" where
  "build_policy_engine env config =
     (let cfg = (\<lambda>f. case config of None \<Rightarrow> None | Some c \<Rightarrow> f c);
          chosen = (case dget env ''REDSIM_POLICY_ENGINE'' of Some b \<Rightarrow> Some b | None \<Rightarrow> cfg pc_engine);
          backend = lower (strip (if truthy chosen then the chosen else ''static''))
      in if backend = ''opa'' then
           OpaEngine (strip_slashes (first_truthy (dget env ''REDSIM_OPA_URL'') (cfg pc_opa_url) ''http://localhost:8181'')
             (first_truthy (dget env ''REDSIM_OPA_PATH'') (cfg pc_opa_path) ''/v1/data/redsim/authz''))
         else if backend = ''cedar'' then
           CedarEngine (strip_slashes (first_truthy (dget env ''REDSIM_CEDAR_URL'') (cfg pc_cedar_url) ''http://localhost:8180'')
             ''/v1/is_authorized'')
         else StaticEngine)"

definition evaluate :: "(string \<Rightarrow> json \<Rightarrow> http_reply) \<Rightarrow> engine \<Rightarrow> policy_request \<Rightarrow> (policy_error, policy_decision) result" where
  "evaluate http g q = (case g of StaticEngine \<Rightarrow> static_evaluate q | OpaEngine url \<Rightarrow> opa_evaluate http url q
     | CedarEngine url \<Rightarrow> cedar_evaluate http url q)"

text \<open>The process-wide cache.\<close>

definition resolve_policy_engine :: "(string, string) dict \<Rightarrow> policy_config option \<Rightarrow> engine option \<Rightarrow> engine \<times> engine option" where
  "resolve_policy_engine env config cache = (case cache of
      Some g \<Rightarrow> (g, cache)
    | None \<Rightarrow> (let g = build_policy_engine env config in (g, Some g)))"

definition reset_policy_engine :: "engine option \<Rightarrow> engine option" where
  "reset_policy_engine cache = None"

subsection \<open>The gates\<close>

datatype gate_error = Http int string | EngineError policy_error

definition check :: "(string \<Rightarrow> json \<Rightarrow> http_reply) \<Rightarrow> (string, string) dict \<Rightarrow> engine option \<Rightarrow> current_user \<Rightarrow> string \<Rightarrow> string
    \<Rightarrow> (gate_error, unit) result \<times> engine option" where
  "check http env cache u action pid = (case resolve_policy_engine env None cache of
      (g, cache') \<Rightarrow> (case evaluate http g (build_request u action pid []) of
          Inl e \<Rightarrow> (Inl (EngineError e), cache')
        | Inr d \<Rightarrow> (if pd_allowed d then Inr ()
             else Inl (Http 403 (if truthy (pd_reason d) then the (pd_reason d)
               else ''role check failed for '' @ [CHR 0x27] @ action @ [CHR 0x27] @ '' on project '' @ pid)), cache')))"

definition has_project_access :: "current_user \<Rightarrow> string \<Rightarrow> bool" where
  "has_project_access u pid \<longleftrightarrow> cu_system u \<or> dget (cu_memberships u) pid \<noteq> None"

definition accessible_project_ids :: "current_user \<Rightarrow> string list option" where
  "accessible_project_ids u = (if cu_system u then None else Some (map fst (cu_memberships u)))"

definition ensure_project_access :: "current_user \<Rightarrow> string \<Rightarrow> (gate_error, unit) result" where
  "ensure_project_access u pid = (if has_project_access u pid then Inr ()
     else Inl (Http 403 (''user '' @ cu_email u @ '' has no membership on project '' @ pid)))"

text \<open>\<open>orgs\<close>: the organisation of each project row; \<open>None\<close> when the lookup fails.\<close>

definition has_org_access :: "(string, string option) dict option \<Rightarrow> current_user \<Rightarrow> string \<Rightarrow> bool" where
  "has_org_access orgs u org \<longleftrightarrow> cu_system u \<or>
     (case orgs of None \<Rightarrow> False
      | Some ps \<Rightarrow> list_ex (\<lambda>(p, o'). o' = Some org \<and> p \<in> set (map fst (cu_memberships u))) ps)"

definition ensure_org_access :: "(string, string option) dict option \<Rightarrow> current_user \<Rightarrow> string \<Rightarrow> (gate_error, unit) result" where
  "ensure_org_access orgs u org = (if has_org_access orgs u org then Inr ()
     else Inl (Http 403 (''user '' @ cu_email u @ '' has no access to organization '' @ org)))"

definition ensure_run_access :: "(string, string) dict \<Rightarrow> current_user \<Rightarrow> string \<Rightarrow> (gate_error, string) result" where
  "ensure_run_access runs u rid = (case dget runs rid of
      None \<Rightarrow> Inl (Http 404 ''run not found'')
    | Some pid \<Rightarrow> rbind (ensure_project_access u pid) (\<lambda>_. Inr pid))"

subsection \<open>The deployed rule files\<close>

definition rego_role_rank :: "(string, nat) dict" where
  "rego_role_rank = [(''viewer'', 0), (''scanner'', 1), (''remediator'', 2), (''approver'', 3), (''admin'', 4)]"

definition rego_action_min_role :: "(string, string) dict" where
  "rego_action_min_role = [(''scan.start'', ''scanner''), (''target.manage'', ''admin''), (''auth_profile.manage'', ''admin''),
     (''audit.verify'', ''admin''), (''run.cancel'', ''remediator''), (''model.register'', ''remediator''),
     (''attack.run'', ''scanner''), (''explain.run'', ''scanner''), (''harden.recommend'', ''remediator''),
     (''finding.review'', ''approver''), (''finding.annotate'', ''remediator''), (''report.export'', ''scanner''),
     (''llm.probe.run'', ''remediator''), (''dataset.register'', ''remediator''), (''dataset.export'', ''remediator''),
     (''integration.push'', ''admin''), (''batch.run'', ''scanner''), (''report.render'', ''scanner''),
     (''finding.author'', ''remediator'')]"

text \<open>A rule body with an undefined reference does not hold.\<close>

definition rego_allow :: "current_user \<Rightarrow> string \<Rightarrow> string \<Rightarrow> bool" where
  "rego_allow u action pid \<longleftrightarrow> cu_system u \<or>
     (\<not> cu_system u \<and> (case dget (cu_memberships u) pid of None \<Rightarrow> False | Some role \<Rightarrow>
        (case dget rego_action_min_role action of None \<Rightarrow> False | Some required \<Rightarrow>
          (case (dget rego_role_rank role, dget rego_role_rank required) of
             (Some a, Some b) \<Rightarrow> b \<le> a | _ \<Rightarrow> False))))"

text \<open>The permits of the Cedar file over the role the principal carries.\<close>

definition cedar_allow :: "string option \<Rightarrow> bool \<Rightarrow> string \<Rightarrow> bool" where
  "cedar_allow role system action \<longleftrightarrow>
     (action \<in> set [''scan.start'', ''attack.run'', ''explain.run'', ''report.export'', ''batch.run'', ''report.render''] \<and>
        role \<in> set (map Some [''scanner'', ''remediator'', ''approver'', ''admin''])) \<or>
     (action \<in> set [''run.cancel'', ''model.register'', ''harden.recommend'', ''finding.annotate'', ''llm.probe.run'',
          ''dataset.register'', ''dataset.export'', ''finding.author''] \<and>
        role \<in> set (map Some [''remediator'', ''approver'', ''admin''])) \<or>
     (action = ''finding.review'' \<and> role \<in> set (map Some [''approver'', ''admin''])) \<or>
     (action \<in> set [''target.manage'', ''auth_profile.manage'', ''audit.verify'', ''integration.push''] \<and> role = Some ''admin'') \<or>
     system"

subsection \<open>The static decision\<close>

lemma jget_memberships: "jget (map (\<lambda>(p, r). (p, JStr r)) m) pid = (case dget m pid of None \<Rightarrow> JNull | Some r \<Rightarrow> JStr r)"
  by (induction m) auto

definition rank_ok :: "string \<Rightarrow> string \<Rightarrow> bool" where
  "rank_ok role action \<longleftrightarrow> dget_or 0 role_rank (dget_or [] action_min_role action) \<le> dget_or 0 role_rank role"

lemma static_allowed:
  assumes "action \<in> set actions"
  shows "\<exists>d. static_evaluate (build_request u action pid []) = Inr d \<and>
    pd_allowed d = (cu_system u \<or> (case dget (cu_memberships u) pid of None \<Rightarrow> False | Some r \<Rightarrow> r \<noteq> [] \<and> rank_ok r action))"
  using assms
  by (auto simp: static_evaluate_def build_request_def dict_update_def jget_memberships json_truthy_def obj_of_def
      allow_def deny_def rank_ok_def Let_def split: option.split)

lemma min_rank_pos: "list_all (\<lambda>a. 0 < dget_or 0 role_rank (dget_or [] action_min_role a)) actions"
  by code_simp

lemma tables_mirror: "rego_role_rank = role_rank" "rego_action_min_role = action_min_role"
  "list_all (\<lambda>a. dget action_min_role a \<noteq> None \<and> dget role_rank (dget_or [] action_min_role a) \<noteq> None) actions"
  by (simp_all only: rego_role_rank_def role_rank_def rego_action_min_role_def action_min_role_def) code_simp

lemma rank_ok_rego:
  assumes "action \<in> set actions"
  shows "(case dget rego_action_min_role action of None \<Rightarrow> False | Some required \<Rightarrow>
          (case (dget rego_role_rank role, dget rego_role_rank required) of (Some a, Some b) \<Rightarrow> b \<le> a | _ \<Rightarrow> False))
    \<longleftrightarrow> role \<noteq> [] \<and> rank_ok role action"
proof -
  obtain rq b where m: "dget action_min_role action = Some rq" "dget role_rank rq = Some b" "0 < b"
    using tables_mirror(3) min_rank_pos assms by (fastforce simp: list_all_iff dget_or_def)
  have "dget role_rank [] = None" by code_simp
  then show ?thesis using m by (auto simp: tables_mirror(1,2) rank_ok_def dget_or_def split: option.splits)
qed

lemma cedar_table:
  "list_all (\<lambda>a. list_all (\<lambda>r. cedar_allow (Some r) False a = (r \<noteq> [] \<and> rank_ok r a)) (map fst role_rank)) actions"
  by code_simp

lemma cedar_roles: "cedar_allow role False a \<Longrightarrow> role \<in> Some ` set (map fst role_rank)"
  by (auto simp: cedar_allow_def role_rank_def)

lemma rank_ok_roles: "a \<in> set actions \<Longrightarrow> rank_ok r a \<Longrightarrow> r \<in> set (map fst role_rank)"
proof (rule ccontr)
  assume a: "a \<in> set actions" "rank_ok r a" "r \<notin> set (map fst role_rank)"
  then have "dget role_rank r = None" by (simp add: map_of_eq_None_iff)
  moreover have "0 < dget_or 0 role_rank (dget_or [] action_min_role a)" using min_rank_pos a(1) by (simp add: list_all_iff)
  ultimately show False using a(2) by (simp add: rank_ok_def dget_or_def)
qed

lemma cedar_rank:
  assumes "a \<in> set actions"
  shows "cedar_allow role False a \<longleftrightarrow> (case role of None \<Rightarrow> False | Some r \<Rightarrow> r \<noteq> [] \<and> rank_ok r a)"
proof (cases "role \<in> Some ` set (map fst role_rank)")
  case True
  then obtain r where "role = Some r" "r \<in> set (map fst role_rank)" by blast
  then show ?thesis using cedar_table [unfolded list_all_iff, rule_format, OF assms, of r] by simp
next
  case False
  then have "\<not> cedar_allow role False a" using cedar_roles by blast
  moreover have "\<not> rank_ok r a" if "role = Some r" for r using rank_ok_roles [OF assms, of r] False that by blast
  ultimately show ?thesis by (cases role) simp_all
qed

lemma cedar_system: "cedar_allow role True a" by (simp add: cedar_allow_def)

subsection \<open>Properties\<close>

text \<open>C21. The three policy sources agree: for every action of the vocabulary, every caller and
  project, the built-in engine decides (it never raises), and it allows exactly what the Rego
  file allows, and what the Cedar file permits for the caller's role on the project.\<close>

theorem policies_agree:
  "list_all (\<lambda>action. (case static_evaluate (build_request u action pid []) of Inl e \<Rightarrow> False
     | Inr d \<Rightarrow> pd_allowed d = rego_allow u action pid \<and>
         pd_allowed d = cedar_allow (dget (cu_memberships u) pid) (cu_system u) action)) actions"
proof -
  have "case static_evaluate (build_request u action pid []) of Inl e \<Rightarrow> False
     | Inr d \<Rightarrow> pd_allowed d = rego_allow u action pid \<and>
         pd_allowed d = cedar_allow (dget (cu_memberships u) pid) (cu_system u) action" if a: "action \<in> set actions" for action
  proof -
    obtain d where d: "static_evaluate (build_request u action pid []) = Inr d"
      "pd_allowed d = (cu_system u \<or> (case dget (cu_memberships u) pid of None \<Rightarrow> False | Some r \<Rightarrow> r \<noteq> [] \<and> rank_ok r action))"
      using static_allowed [OF a] by blast
    have "pd_allowed d = rego_allow u action pid"
      using d(2) rank_ok_rego [OF a] by (auto simp: rego_allow_def split: option.split)
    moreover have "pd_allowed d = cedar_allow (dget (cu_memberships u) pid) (cu_system u) action"
      using d(2) cedar_rank [OF a] cedar_system by (cases "cu_system u") auto
    ultimately show ?thesis using d(1) by simp
  qed
  then show ?thesis by (simp add: list_all_iff)
qed

text \<open>C22. The gate fails closed for every engine: whatever a policy service answers, \<open>check\<close> lets a
  caller through only when the static rules allow it, or when the selected service replied with a
  2xx status and an explicit allow; every other outcome is an error.\<close>

theorem check_fails_closed:
  assumes "check http env cache u action pid = (Inr (), cache')"
  shows "\<exists>g. fst (resolve_policy_engine env None cache) = g \<and> cache' = Some g \<and> (case g of
      StaticEngine \<Rightarrow> cu_system u \<or> (\<exists>r. dget (cu_memberships u) pid = Some r \<and> action \<in> set actions \<and> rank_ok r action)
    | OpaEngine url \<Rightarrow> \<exists>s p res. http url (JObj [(''input'', to_input (build_request u action pid []))]) = HttpReply s (Some (JObj p)) \<and>
        200 \<le> s \<and> s < 300 \<and> jget p ''result'' = JObj res \<and> jget res ''allow'' = JBool True
    | CedarEngine url \<Rightarrow> \<exists>body s p t. http url body = HttpReply s (Some (JObj p)) \<and> 200 \<le> s \<and> s < 300 \<and>
        jget p ''decision'' = JStr t \<and> lower (strip t) = ''allow'')"
proof -
  let ?q = "build_request u action pid []"
  obtain g where g: "resolve_policy_engine env None cache = (g, Some g)"
    by (cases cache) (auto simp: resolve_policy_engine_def Let_def)
  obtain d where d: "evaluate http g ?q = Inr d" "pd_allowed d" "cache' = Some g"
    using assms by (auto simp: check_def g split: sum.splits if_splits)
  have post: "\<exists>s. http url b = HttpReply s (Some v) \<and> 200 \<le> s \<and> s < 300" if "post_json http url b = Some v" for url b v
    using that by (auto simp: post_json_def split: http_reply.splits option.splits json.splits if_splits)
  have "case g of
      StaticEngine \<Rightarrow> cu_system u \<or> (\<exists>r. dget (cu_memberships u) pid = Some r \<and> action \<in> set actions \<and> rank_ok r action)
    | OpaEngine url \<Rightarrow> \<exists>s p res. http url (JObj [(''input'', to_input ?q)]) = HttpReply s (Some (JObj p)) \<and>
        200 \<le> s \<and> s < 300 \<and> jget p ''result'' = JObj res \<and> jget res ''allow'' = JBool True
    | CedarEngine url \<Rightarrow> \<exists>body s p t. http url body = HttpReply s (Some (JObj p)) \<and> 200 \<le> s \<and> s < 300 \<and>
        jget p ''decision'' = JStr t \<and> lower (strip t) = ''allow''"
  proof (cases g)
    case StaticEngine
    then show ?thesis
      using d by (auto simp: evaluate_def static_evaluate_def build_request_def dict_update_def jget_memberships json_truthy_def
          obj_of_def allow_def deny_def rank_ok_def Let_def split: option.splits if_splits)
  next
    case (OpaEngine url)
    then obtain p res where "post_json http url (JObj [(''input'', to_input ?q)]) = Some (JObj p)" "jget p ''result'' = JObj res"
        "jget res ''allow'' = JBool True"
      using d by (auto simp: evaluate_def opa_evaluate_def deny_def split: option.splits json.splits)
    then show ?thesis using OpaEngine post by fastforce
  next
    case (CedarEngine url)
    then obtain b p t where "post_json http url b = Some (JObj p)" "jget p ''decision'' = JStr t" "lower (strip t) = ''allow''"
      using d by (auto simp: evaluate_def cedar_evaluate_def deny_def split: option.splits json.splits)
    then show ?thesis using CedarEngine post by fastforce
  qed
  then show ?thesis using g d(3) by simp
qed

definition ex_user :: "string \<Rightarrow> current_user" where
  "ex_user role = \<lparr>cu_sub = ''s'', cu_email = ''e'', cu_memberships = [(''p'', role)], cu_system = False\<rparr>"

theorem check_fails_closed_witness:
  "\<exists>r. dget (cu_memberships (ex_user ''remediator'')) ''p'' = Some r \<and> rank_ok r ''attack.run''"
proof -
  have "check (\<lambda>_ _. TransportError) [] None (ex_user ''remediator'') ''attack.run'' ''p'' = (Inr (), Some StaticEngine)" by code_simp
  from check_fails_closed [OF this] show ?thesis
    by (auto simp: resolve_policy_engine_def build_policy_engine_def Let_def ex_user_def strip_def lstrip_def is_space_def lower_def lower_char_def)
qed

text \<open>A reply that is JSON but not an object ends in an exception instead of a denial: the engines
  promise a \<open>PolicyDecision\<close> for every malformed body, and read the body with \<open>get\<close> unchecked.\<close>

theorem non_object_reply_raises:
  "opa_evaluate (\<lambda>_ _. HttpReply 200 (Some (JArr []))) url q = Inl NotAnObject \<and>
   cedar_evaluate (\<lambda>_ _. HttpReply 200 (Some (JArr []))) url q = Inl NotAnObject"
  by (simp add: opa_evaluate_def cedar_evaluate_def post_json_def)

end
