(* ===== verification/PyFloat.thy ===== *)
theory PyFloat
  imports Prelude "HOL-Library.Log_Nat"
begin

text \<open>
  Python's \<open>float\<close>: an IEEE-754 binary64 number. A finite double is a rational, and every
  arithmetic operation returns the exact rational result rounded to nearest, ties to even,
  at 53 significant bits and with the subnormal spacing below \<open>2 ^ (-1022)\<close>. \<open>fl\<close> is that
  rounding. Infinities, NaN and overflow beyond the largest double are outside the model:
  the components that use it work on values of small magnitude.
  The theory also holds the two library functions the code relies on: \<open>round\<close> (half to
  even, with and without digits) and the compensated \<open>sum\<close> of Python 3.12 and later.
\<close>

subsection \<open>Rounding to an integer, half to even\<close>

definition rhe :: "rat \<Rightarrow> int" where
  "rhe x = (let f = \<lfloor>x\<rfloor>; d = x - of_int f in
     if d < 1/2 then f else if 1/2 < d then f + 1 else if even f then f else f + 1)"

lemma rhe_ge_floor: "\<lfloor>x\<rfloor> \<le> rhe x" and rhe_le_floor1: "rhe x \<le> \<lfloor>x\<rfloor> + 1"
  by (auto simp: rhe_def Let_def)

lemma rhe_of_int [simp]: "rhe (of_int n) = n"
  by (simp add: rhe_def)

lemma rhe_mono: "x \<le> y \<Longrightarrow> rhe x \<le> rhe y"
proof (cases "\<lfloor>x\<rfloor> = \<lfloor>y\<rfloor>")
  case True
  assume "x \<le> y"
  with True show ?thesis by (auto simp: rhe_def Let_def)
next
  case False
  assume "x \<le> y"
  then have "\<lfloor>x\<rfloor> + 1 \<le> \<lfloor>y\<rfloor>" using False floor_mono [of x y] by linarith
  then show ?thesis using rhe_le_floor1 [of x] rhe_ge_floor [of y] by linarith
qed

lemma rhe_minus: "rhe (- x) = - rhe x"
proof (cases "x = of_int \<lfloor>x\<rfloor>")
  case True
  then show ?thesis by (metis of_int_minus rhe_of_int)
next
  case False
  then have lt: "of_int \<lfloor>x\<rfloor> < x" by (metis of_int_floor_le order_le_less)
  have fl: "\<lfloor>- x\<rfloor> = - \<lfloor>x\<rfloor> - 1"
    using lt by (intro floor_unique) (simp_all, linarith)
  show ?thesis unfolding rhe_def Let_def fl by auto
qed

lemma rhe_nonneg: "0 \<le> x \<Longrightarrow> 0 \<le> rhe x"
  using rhe_mono [of 0 x] rhe_of_int [of 0] by simp

lemma rhe_le_int: "x \<le> of_int n \<Longrightarrow> rhe x \<le> n"
  using rhe_mono [of x "of_int n"] by simp

lemma rhe_ge_int: "of_int n \<le> x \<Longrightarrow> n \<le> rhe x"
  using rhe_mono [of "of_int n" x] by simp

subsection \<open>The binary exponent\<close>

definition ilog2 :: "rat \<Rightarrow> int" where
  "ilog2 x = (let (p, q) = quotient_of x;
                  e = bitlen p - bitlen q
              in if 2 powi e \<le> x then e else e - 1)"

lemma bitlen_powi_bounds:
  assumes "0 < (p::int)"
  shows "(2::rat) powi (bitlen p - 1) \<le> of_int p" and "of_int p < (2::rat) powi bitlen p"
proof -
  have b: "2 ^ nat (bitlen p - 1) \<le> p" "p < 2 ^ nat (bitlen p)"
    using bitlen_bounds [OF assms] by auto
  have k: "0 < bitlen p" using assms by (simp add: bitlen_alt_def)
  have "(2::rat) powi (bitlen p - 1) = of_int (2 ^ nat (bitlen p - 1))"
    using k by (simp add: power_int_def)
  also have "\<dots> \<le> of_int p" using b(1) by (simp only: of_int_le_iff)
  finally show "(2::rat) powi (bitlen p - 1) \<le> of_int p" .
  have "of_int p < (of_int (2 ^ nat (bitlen p)) :: rat)" using b(2) by (simp only: of_int_less_iff)
  also have "\<dots> = 2 powi bitlen p" using k by (simp add: power_int_def)
  finally show "of_int p < (2::rat) powi bitlen p" .
qed

lemma ilog2_bounds:
  assumes "0 < x"
  shows "2 powi ilog2 x \<le> x" and "x < 2 powi (ilog2 x + 1)"
proof -
  obtain p q where pq: "quotient_of x = (p, q)" by fastforce
  have x: "x = of_int p / of_int q" by (rule quotient_of_div [OF pq])
  have q: "0 < q" by (rule quotient_of_denom_pos [OF pq])
  have p: "0 < p" using assms x q by (simp add: zero_less_divide_iff)
  let ?a = "bitlen p" and ?b = "bitlen q"
  have up: "x < 2 powi (?a - ?b + 1)"
  proof -
    have "x < 2 powi ?a / of_int q"
      unfolding x using bitlen_powi_bounds(2) [OF p] q by (simp add: divide_strict_right_mono)
    also have "\<dots> \<le> 2 powi ?a / 2 powi (?b - 1)"
      using bitlen_powi_bounds(1) [OF q] by (intro divide_left_mono) (auto simp: q)
    also have "\<dots> = 2 powi (?a - ?b + 1)"
      by (simp add: power_int_diff power_int_add)
    finally show ?thesis .
  qed
  have lo: "2 powi (?a - ?b - 1) \<le> x"
  proof -
    have "2 powi (?a - ?b - 1) = (2::rat) powi (?a - 1) / 2 powi ?b"
      by (simp add: power_int_diff)
    also have "\<dots> \<le> 2 powi (?a - 1) / of_int q"
      using bitlen_powi_bounds(2) [OF q] q by (intro divide_left_mono) auto
    also have "\<dots> \<le> x"
      unfolding x using bitlen_powi_bounds(1) [OF p] q by (simp add: divide_right_mono)
    finally show ?thesis .
  qed
  have il: "ilog2 x = (if 2 powi (?a - ?b) \<le> x then ?a - ?b else ?a - ?b - 1)"
    by (simp add: ilog2_def pq)
  show "2 powi ilog2 x \<le> x" using lo by (simp add: il)
  show "x < 2 powi (ilog2 x + 1)" using up by (auto simp: il)
qed

subsection \<open>Rounding to a double\<close>

definition fl_ulp :: "rat \<Rightarrow> rat" where
  "fl_ulp x = 2 powi (max (ilog2 \<bar>x\<bar> - 52) (-1074))"

definition fl :: "rat \<Rightarrow> rat" where
  "fl x = (if x = 0 then 0 else of_int (rhe (x / fl_ulp x)) * fl_ulp x)"

lemma fl_ulp_pos [simp]: "0 < fl_ulp x"
  by (simp add: fl_ulp_def)

lemma fl_zero [simp]: "fl 0 = 0"
  by (simp add: fl_def)

lemma fl_minus [simp]: "fl (- x) = - fl x"
  by (simp add: fl_def fl_ulp_def rhe_minus)

lemma ilog2_mono: "0 < x \<Longrightarrow> x \<le> y \<Longrightarrow> ilog2 x \<le> ilog2 y"
proof (rule ccontr)
  assume x: "0 < x" and xy: "x \<le> y" and "\<not> ilog2 x \<le> ilog2 y"
  then have "ilog2 y + 1 \<le> ilog2 x" by simp
  then have "(2::rat) powi (ilog2 y + 1) \<le> 2 powi ilog2 x"
    by (intro power_int_increasing) auto
  moreover have "y < 2 powi (ilog2 y + 1)" using x xy by (intro ilog2_bounds(2)) simp
  ultimately show False using ilog2_bounds(1) [OF x] xy by linarith
qed

lemma powi_mult_int:
  assumes "e' \<le> e"
  shows "\<exists>k. (2::rat) powi e / 2 powi e' = of_int k"
proof -
  have "(2::rat) powi e / 2 powi e' = 2 powi (e - e')" by (simp add: power_int_diff)
  also have "\<dots> = of_int (2 ^ nat (e - e'))" using assms by (simp add: power_int_def)
  finally show ?thesis by blast
qed

text \<open>A number with at most 53 significant bits above the subnormal limit is exact.\<close>

lemma fl_exact:
  assumes x: "x = of_int m * 2 powi e" and m: "\<bar>m\<bar> \<le> 2 ^ 53" and e: "-1074 \<le> e"
  shows "fl x = x"
proof (cases "x = 0")
  case True then show ?thesis by simp
next
  case False
  let ?E = "ilog2 \<bar>x\<bar>" and ?l = "max (ilog2 \<bar>x\<bar> - 52) (-1074)"
  have ax: "\<bar>x\<bar> = of_int \<bar>m\<bar> * 2 powi e" unfolding x by (simp add: abs_mult)
  have E: "2 powi ?E \<le> \<bar>x\<bar>" using False by (intro ilog2_bounds(1)) simp
  have "\<exists>k. x / 2 powi ?l = of_int k"
  proof (cases "?l \<le> e")
    case True
    then obtain k where "(2::rat) powi e / 2 powi ?l = of_int k" using powi_mult_int by blast
    then have "x / 2 powi ?l = of_int (m * k)" unfolding x by (simp add: field_simps)
    then show ?thesis by blast
  next
    case False
    then have El: "e + 53 \<le> ?E" "?l = ?E - 52" using e by auto
    have "of_int \<bar>m\<bar> * (2::rat) powi e \<le> 2 ^ 53 * 2 powi e"
      using m by (intro mult_right_mono) (metis of_int_le_iff of_int_numeral of_int_power, simp)
    also have "\<dots> = 2 powi (e + 53)" by (simp add: power_int_add)
    finally have up: "\<bar>x\<bar> \<le> 2 powi (e + 53)" unfolding ax .
    have lo: "(2::rat) powi (e + 53) \<le> 2 powi ?E" using El by (intro power_int_increasing) auto
    have "\<not> e + 53 < ?E"
    proof
      assume "e + 53 < ?E"
      then have "(2::rat) powi (e + 53) < 2 powi ?E" by (intro power_int_strict_increasing) auto
      with E up show False by linarith
    qed
    with El lo E up have eq: "\<bar>x\<bar> = 2 powi (e + 53)" "?E = e + 53" by auto
    have "\<bar>x\<bar> / 2 powi ?l = of_int (2 ^ 52)"
      using eq El by (simp add: power_int_diff power_int_add)
    then have "x / 2 powi ?l = of_int (2 ^ 52) \<or> x / 2 powi ?l = of_int (- (2 ^ 52))"
      by (cases "x < 0") (auto simp: abs_if)
    then show ?thesis by blast
  qed
  then obtain k where k: "x / 2 powi ?l = of_int k" by blast
  then have "x = of_int k * 2 powi ?l" by (simp add: field_simps)
  with k show ?thesis using False by (simp add: fl_def fl_ulp_def)
qed

lemma fl_int: "\<bar>n\<bar> \<le> 2 ^ 53 \<Longrightarrow> fl (of_int n) = of_int n"
  by (rule fl_exact [of _ n 0]) auto

lemma fl_numeral_exact [simp]:
  "fl 1 = 1" "fl 2 = 2" "fl 10 = 10" "fl 100 = 100" "fl 1000 = 1000"
  using fl_int [of 1] fl_int [of 2] fl_int [of 10] fl_int [of 100] fl_int [of 1000] by simp_all

lemma fl_mono_pos:
  assumes x: "0 < x" and xy: "x \<le> y"
  shows "fl x \<le> fl y"
proof -
  let ?lx = "max (ilog2 x - 52) (-1074)" and ?ly = "max (ilog2 y - 52) (-1074)"
  have y: "0 < y" using x xy by simp
  have ux: "fl_ulp x = 2 powi ?lx" and uy: "fl_ulp y = 2 powi ?ly"
    using x y by (simp_all add: fl_ulp_def)
  have E: "ilog2 x \<le> ilog2 y" by (rule ilog2_mono [OF x xy])
  have flx: "fl x = of_int (rhe (x / 2 powi ?lx)) * 2 powi ?lx"
    and fly: "fl y = of_int (rhe (y / 2 powi ?ly)) * 2 powi ?ly"
    using x y by (simp_all add: fl_def ux uy)
  show ?thesis
  proof (cases "?lx = ?ly")
    case True
    have "rhe (x / 2 powi ?ly) \<le> rhe (y / 2 powi ?ly)"
      using xy by (intro rhe_mono divide_right_mono) auto
    then show ?thesis unfolding flx fly True by (intro mult_right_mono) auto
  next
    case False
    then have l: "?ly = ilog2 y - 52" "ilog2 x + 1 \<le> ilog2 y" "?lx \<le> ilog2 y" using E by auto
    obtain k where k: "(2::rat) powi ilog2 y / 2 powi ?lx = of_int k"
      using powi_mult_int [OF l(3)] by blast
    have "x \<le> 2 powi (ilog2 x + 1)" using ilog2_bounds(2) [OF x] by simp
    also have "\<dots> \<le> 2 powi ilog2 y" using l by (intro power_int_increasing) auto
    finally have "x / 2 powi ?lx \<le> of_int k" unfolding k [symmetric] by (intro divide_right_mono) auto
    then have "rhe (x / 2 powi ?lx) \<le> k" by (rule rhe_le_int)
    then have "fl x \<le> of_int k * 2 powi ?lx" unfolding flx by (intro mult_right_mono) auto
    also have "\<dots> = 2 powi ilog2 y" unfolding k [symmetric] by simp
    also have "\<dots> = of_int (2 ^ 52) * 2 powi ?ly" using l by (simp add: power_int_diff)
    also have "\<dots> \<le> fl y"
    proof -
      have "of_int (2 ^ 52) = (2::rat) powi ilog2 y / 2 powi ?ly" using l by (simp add: power_int_diff)
      also have "\<dots> \<le> y / 2 powi ?ly" using ilog2_bounds(1) [OF y] by (intro divide_right_mono) auto
      finally have "2 ^ 52 \<le> rhe (y / 2 powi ?ly)" by (rule rhe_ge_int)
      then show ?thesis unfolding fly by (intro mult_right_mono) (auto simp del: of_int_power)
    qed
    finally show ?thesis .
  qed
qed

lemma fl_nonneg: "0 \<le> x \<Longrightarrow> 0 \<le> fl x"
  by (simp add: fl_def rhe_nonneg less_imp_le [OF fl_ulp_pos])

lemma fl_mono: "x \<le> y \<Longrightarrow> fl x \<le> fl y"
proof -
  assume xy: "x \<le> y"
  consider "0 < x" | "x \<le> 0" "0 \<le> y" | "y < 0" by linarith
  then show ?thesis
  proof cases
    case 1 then show ?thesis using xy by (rule fl_mono_pos)
  next
    case 2 then show ?thesis using fl_nonneg [of "- x"] fl_nonneg [of y] by simp
  next
    case 3 then show ?thesis using fl_mono_pos [of "- y" "- x"] xy by simp
  qed
qed

lemma fl_idem [simp]: "fl (fl x) = fl x"
proof (cases "x = 0")
  case True then show ?thesis by simp
next
  case False
  let ?l = "max (ilog2 \<bar>x\<bar> - 52) (-1074)"
  have "\<bar>x\<bar> \<le> 2 powi (ilog2 \<bar>x\<bar> + 1)" using ilog2_bounds(2) [of "\<bar>x\<bar>"] False by simp
  also have "\<dots> \<le> 2 powi (?l + 53)" by (intro power_int_increasing) auto
  finally have "\<bar>x\<bar> / 2 powi ?l \<le> of_int (2 ^ 53)" by (simp add: field_simps power_int_add)
  then have b: "\<bar>x / 2 powi ?l\<bar> \<le> of_int (2 ^ 53)" by simp
  have "x / 2 powi ?l \<le> of_int (2 ^ 53)" using b by (simp only: abs_le_iff)
  moreover have "of_int (- (2 ^ 53)) \<le> x / 2 powi ?l"
    using b unfolding of_int_minus by (simp only: abs_le_iff) linarith
  ultimately have "rhe (x / 2 powi ?l) \<le> 2 ^ 53" and "- (2 ^ 53) \<le> rhe (x / 2 powi ?l)"
    using rhe_le_int rhe_ge_int by blast+
  then have "\<bar>rhe (x / 2 powi ?l)\<bar> \<le> 2 ^ 53" by simp
  moreover have "fl x = of_int (rhe (x / 2 powi ?l)) * 2 powi ?l"
    using False by (simp add: fl_def fl_ulp_def)
  ultimately show ?thesis by (intro fl_exact) auto
qed

subsection \<open>Arithmetic, \<open>round\<close>, \<open>sum\<close>\<close>

definition fadd :: "rat \<Rightarrow> rat \<Rightarrow> rat" where "fadd x y = fl (x + y)"
definition fsub :: "rat \<Rightarrow> rat \<Rightarrow> rat" where "fsub x y = fl (x - y)"
definition fmul :: "rat \<Rightarrow> rat \<Rightarrow> rat" where "fmul x y = fl (x * y)"
definition fdiv :: "rat \<Rightarrow> rat \<Rightarrow> rat" where "fdiv x y = fl (x / y)"

text \<open>\<open>round(x)\<close> is an integer; \<open>round(x, n)\<close> is the double nearest to the decimal rounding.\<close>

definition py_round :: "rat \<Rightarrow> int" where "py_round x = rhe x"

definition py_round_to :: "nat \<Rightarrow> rat \<Rightarrow> rat" where
  "py_round_to n x = fl (of_int (rhe (x * 10 ^ n)) / 10 ^ n)"

text \<open>
  \<open>sum\<close> over floats (Python 3.12): the first item is taken exactly (\<open>0 + x\<close>), the others are
  accumulated with Neumaier's compensation, which is added at the end when it is not zero.
\<close>

fun sum_loop :: "rat \<Rightarrow> rat \<Rightarrow> rat list \<Rightarrow> rat" where
  "sum_loop s c [] = (if c \<noteq> 0 then fadd s c else s)"
| "sum_loop s c (x # xs) =
     (let t = fadd s x;
          c' = (if \<bar>x\<bar> \<le> \<bar>s\<bar> then fadd c (fadd (fsub s t) x) else fadd c (fadd (fsub x t) s))
      in sum_loop t c' xs)"

fun py_sum :: "rat list \<Rightarrow> rat" where
  "py_sum [] = 0"
| "py_sum (x # xs) = sum_loop x 0 xs"

subsection \<open>Monotone roundings\<close>

text \<open>
  What the components use of a rounding: it is monotone and fixes 0 and 1. The laws hold of
  the rounding to doubles, of rounding to one decimal and of rounding to an integer.
\<close>

locale monotone_rounding =
  fixes r :: "rat \<Rightarrow> rat"
  assumes r_mono: "x \<le> y \<Longrightarrow> r x \<le> r y"
    and r_zero: "r 0 = 0"
    and r_one: "r 1 = 1"
begin

lemma r_nonneg: "0 \<le> x \<Longrightarrow> 0 \<le> r x"
  using r_mono [of 0 x] r_zero by simp

lemma r_le_fix: "r b = b \<Longrightarrow> x \<le> b \<Longrightarrow> r x \<le> b"
  using r_mono [of x b] by simp

lemma r_ge_fix: "r a = a \<Longrightarrow> a \<le> x \<Longrightarrow> a \<le> r x"
  using r_mono [of a x] by simp

lemma r_between: "r a = a \<Longrightarrow> r b = b \<Longrightarrow> a \<le> x \<Longrightarrow> x \<le> b \<Longrightarrow> a \<le> r x \<and> r x \<le> b"
  using r_ge_fix r_le_fix by blast

lemma r_unit: "0 \<le> x \<Longrightarrow> x \<le> 1 \<Longrightarrow> 0 \<le> r x \<and> r x \<le> 1"
  using r_between [OF r_zero r_one] .

end

interpretation flr: monotone_rounding fl
  by unfold_locales (auto intro: fl_mono)

interpretation rhr: monotone_rounding "\<lambda>x. of_int (rhe x)"
  using rhe_of_int [of 0] rhe_of_int [of 1] by unfold_locales (auto intro: rhe_mono)

lemma py_round_to_mono: "x \<le> y \<Longrightarrow> py_round_to n x \<le> py_round_to n y"
  unfolding py_round_to_def
  by (intro fl_mono divide_right_mono) (auto intro!: rhe_mono mult_right_mono)

lemma py_round_to_int: "\<bar>k\<bar> \<le> 2 ^ 53 \<Longrightarrow> py_round_to n (of_int k) = of_int k"
proof -
  assume k: "\<bar>k\<bar> \<le> 2 ^ 53"
  have "of_int k * (10::rat) ^ n = of_int (k * 10 ^ n)" by simp
  then have "rhe (of_int k * (10::rat) ^ n) = k * 10 ^ n" by (metis rhe_of_int)
  then show ?thesis using fl_int [OF k] by (simp add: py_round_to_def)
qed

interpretation rdr: monotone_rounding "py_round_to n" for n
  using py_round_to_int [of 0] py_round_to_int [of 1]
  by unfold_locales (auto intro: py_round_to_mono)

lemma fdiv_unit: "0 \<le> x \<Longrightarrow> x \<le> y \<Longrightarrow> 0 < y \<Longrightarrow> 0 \<le> fdiv x y \<and> fdiv x y \<le> 1"
  unfolding fdiv_def by (rule flr.r_unit) (auto simp: divide_le_eq)

lemma fadd_nonneg: "0 \<le> x \<Longrightarrow> 0 \<le> y \<Longrightarrow> 0 \<le> fadd x y"
  unfolding fadd_def by (rule flr.r_nonneg) simp

lemma fmul_nonneg: "0 \<le> x \<Longrightarrow> 0 \<le> y \<Longrightarrow> 0 \<le> fmul x y"
  unfolding fmul_def by (rule flr.r_nonneg) simp

lemma fsub_nonneg: "y \<le> x \<Longrightarrow> 0 \<le> fsub x y"
  unfolding fsub_def by (rule flr.r_nonneg) simp

subsection \<open>Rounding errors\<close>

lemma rhe_error: "\<bar>of_int (rhe x) - x\<bar> \<le> 1 / 2"
proof -
  have "of_int \<lfloor>x\<rfloor> \<le> x" "x < of_int \<lfloor>x\<rfloor> + 1" by linarith+
  then show ?thesis by (auto simp: rhe_def Let_def)
qed

lemma fl_error: "\<bar>fl x - x\<bar> \<le> \<bar>x\<bar> / 2 ^ 53 + 1 / 2 ^ 100"
proof (cases "x = 0")
  case True
  then show ?thesis by simp
next
  case False
  let ?u = "fl_ulp x"
  have "fl x - x = (of_int (rhe (x / ?u)) - x / ?u) * ?u"
    using False less_imp_neq [OF fl_ulp_pos [of x]] by (simp add: fl_def left_diff_distrib)
  then have "\<bar>fl x - x\<bar> = \<bar>of_int (rhe (x / ?u)) - x / ?u\<bar> * ?u"
    using abs_of_pos [OF fl_ulp_pos [of x]] by (simp add: abs_mult)
  also have "\<dots> \<le> 1 / 2 * ?u"
    using less_imp_le [OF fl_ulp_pos [of x]] by (intro mult_right_mono rhe_error)
  also have "?u \<le> \<bar>x\<bar> / 2 ^ 52 + 2 / 2 ^ 100"
  proof (cases "ilog2 \<bar>x\<bar> - 52 \<le> -1074")
    case True
    then have "?u = 2 powi (-1074)" by (simp add: fl_ulp_def)
    also have "\<dots> \<le> 2 powi (-99)" by (intro power_int_increasing) auto
    also have "\<dots> = 2 / 2 ^ 100" by (simp add: power_int_def power_one_over)
    also have "\<dots> \<le> \<bar>x\<bar> / 2 ^ 52 + 2 / 2 ^ 100" by simp
    finally show ?thesis .
  next
    case f: False
    then have "?u = 2 powi ilog2 \<bar>x\<bar> / 2 ^ 52" by (simp add: fl_ulp_def power_int_diff)
    also have "\<dots> \<le> \<bar>x\<bar> / 2 ^ 52" using ilog2_bounds(1) [of "\<bar>x\<bar>"] False by (intro divide_right_mono) auto
    finally show ?thesis by simp
  qed
  finally show ?thesis by simp
qed

lemma fl_error_le: "\<bar>x\<bar> \<le> M \<Longrightarrow> 1 \<le> M \<Longrightarrow> \<bar>fl x - x\<bar> \<le> M / 2 ^ 52"
  using fl_error [of x] by simp

text \<open>
  The distance of the compensated sum from the exact sum, by induction over the loop: with all
  partial sums below \<open>M\<close>, each step costs at most \<open>5 * M / 2 ^ 50\<close>.
\<close>

lemma sum_loop_error:
  assumes M: "1 \<le> M" and E: "E = M / 2 ^ 50"
  shows "\<bar>s\<bar> + sum_list (map abs xs) + of_nat (length xs) * E \<le> M \<Longrightarrow> \<bar>c\<bar> + 4 * of_nat (length xs) * E \<le> M \<Longrightarrow>
    \<bar>sum_loop s c xs - (s + sum_list xs)\<bar> \<le> \<bar>c\<bar> + (5 * of_nat (length xs) + 1) * E"
proof (induction xs arbitrary: s c)
  case Nil
  have "\<bar>fl (s + c) - (s + c)\<bar> \<le> (2 * M) / 2 ^ 52" using Nil M by (intro fl_error_le) auto
  also have "\<dots> \<le> E" using M E by simp
  finally have "\<bar>fl (s + c) - s\<bar> \<le> \<bar>c\<bar> + E" by linarith
  then show ?case using M E by (auto simp: fadd_def)
next
  case (Cons x xs)
  let ?t = "fadd s x"
  have nn: "0 \<le> sum_list (map abs xs)" by (intro sum_list_nonneg) auto
  have E0: "0 \<le> E" "4 * E \<le> M" and E4: "M / 2 ^ 52 \<le> E" "(2 * M) / 2 ^ 52 \<le> E" "(3 * M) / 2 ^ 52 \<le> E"
    using M E by auto
  have len: "0 \<le> E * of_nat (length xs)" using E0 by simp
  have "\<bar>s\<bar> + (\<bar>x\<bar> + sum_list (map abs xs)) + (E + E * of_nat (length xs)) \<le> M"
    and room: "\<bar>c\<bar> + 4 * (E + E * of_nat (length xs)) \<le> M"
    using Cons.prems by (simp_all add: algebra_simps)
  then have b: "\<bar>s\<bar> + \<bar>x\<bar> \<le> M" using nn len E0 by linarith
  have t: "\<bar>?t - (s + x)\<bar> \<le> E"
  proof -
    have "\<bar>s + x\<bar> \<le> M" using b abs_triangle_ineq [of s x] by linarith
    then show ?thesis using fl_error_le [of "s + x" M] M E4(1) by (simp add: fadd_def)
  qed
  have inc: "\<bar>fadd (fsub a ?t) b\<bar> \<le> 3 * E" if "a + b = s + x" "\<bar>a\<bar> \<le> M" "\<bar>b\<bar> \<le> M" for a b
  proof -
    have "\<bar>a - ?t\<bar> \<le> 3 * M" using that t b E0 by linarith
    then have 1: "\<bar>fsub a ?t - (a - ?t)\<bar> \<le> E"
      using fl_error_le [of "a - ?t" "3 * M"] M E4(3) unfolding fsub_def by linarith
    have 2: "\<bar>fsub a ?t + b\<bar> \<le> 2 * E" using 1 t that by linarith
    then have "\<bar>fl (fsub a ?t + b) - (fsub a ?t + b)\<bar> \<le> M / 2 ^ 52"
      using M E0 by (intro fl_error_le) auto
    then show ?thesis using 2 E4(1) unfolding fadd_def by linarith
  qed
  define c' where "c' = (if \<bar>x\<bar> \<le> \<bar>s\<bar> then fadd c (fadd (fsub s ?t) x) else fadd c (fadd (fsub x ?t) s))"
  have add: "\<bar>fadd c d\<bar> \<le> \<bar>c\<bar> + 4 * E" if "\<bar>d\<bar> \<le> 3 * E" for d
  proof -
    have "4 * (E + E * of_nat (length xs)) = 4 * E + 4 * (E * of_nat (length xs))" by simp
    then have "\<bar>c + d\<bar> \<le> 2 * M" using that room len E0 M abs_triangle_ineq [of c d] by linarith
    then have "\<bar>fl (c + d) - (c + d)\<bar> \<le> (2 * M) / 2 ^ 52" using M by (intro fl_error_le) auto
    then show ?thesis using that E4(2) unfolding fadd_def by linarith
  qed
  have c': "\<bar>c'\<bar> \<le> \<bar>c\<bar> + 4 * E"
    unfolding c'_def using add inc [of s x] inc [of x s] b by (simp add: add.commute)
  have "\<bar>sum_loop ?t c' xs - (?t + sum_list xs)\<bar> \<le> \<bar>c'\<bar> + (5 * of_nat (length xs) + 1) * E"
    using Cons.prems t c' b by (intro Cons.IH) (auto simp: algebra_simps)
  moreover have "sum_loop s c (x # xs) = sum_loop ?t c' xs" by (simp add: Let_def c'_def)
  moreover have "(5 * of_nat (length (x # xs)) + 1) * E = (5 * of_nat (length xs) + 1) * E + 5 * E"
    by (simp add: distrib_right)
  ultimately show ?case using t c' by simp
qed

lemma py_sum_error:
  assumes "1 \<le> M" and "sum_list (map abs xs) + of_nat (length xs) * (M / 2 ^ 50) \<le> M"
    and "4 * of_nat (length xs) * (M / 2 ^ 50) \<le> M"
  shows "\<bar>py_sum xs - sum_list xs\<bar> \<le> (5 * of_nat (length xs) + 1) * (M / 2 ^ 50)"
proof (cases xs)
  case Nil
  then show ?thesis using assms(1) by simp
next
  case (Cons x ys)
  have E: "0 \<le> M / 2 ^ 50" using assms(1) by simp
  have "\<bar>sum_loop x 0 ys - (x + sum_list ys)\<bar> \<le> \<bar>0\<bar> + (5 * of_nat (length ys) + 1) * (M / 2 ^ 50)"
    using assms(2,3) Cons E by (intro sum_loop_error [OF assms(1) refl])
      (simp_all add: distrib_right del: times_divide_eq_left times_divide_eq_right)
  also have "\<dots> \<le> (5 * of_nat (length xs) + 1) * (M / 2 ^ 50)"
    unfolding abs_zero add_0_left using E by (intro mult_right_mono) (auto simp: Cons)
  finally show ?thesis by (simp add: Cons)
qed

end
