(* ===== verification/LlmBudget.thy ===== *)
theory LlmBudget
  imports PyFloat AuditChain
begin

text \<open>
  \<open>llm/router.py\<close>, \<open>llm/budget.py\<close>, \<open>llm/pricing.py\<close>: the choice of a model per task with the two budget
  tiers, the checker over the usage table, the pre-flight of a run, and the cost of a call in
  binary64 arithmetic. Times are microseconds.
\<close>

subsection \<open>Routing\<close>

record model_spec =
  ms_task :: string
  ms_model :: string
  ms_remaining :: "int option"

datatype route_error =
    NotConfigured string
  | ProjectExhausted string
  | OrgExhausted string
  | Unverified string
  | CheckerFailed

definition pythia_only_tasks :: "string list" where
  "pythia_only_tasks = [''ml.harden_narrative'']"

text \<open>\<open>str.partition("/")\<close>.\<close>

definition partition_slash :: "string \<Rightarrow> string \<times> bool \<times> string" where
  "partition_slash s = (let v = takeWhile (\<lambda>c. c \<noteq> CHR ''/'') s; r = drop (length v) s in (v, r \<noteq> [], tl r))"

definition is_pythia_canonical :: "string \<Rightarrow> bool" where
  "is_pythia_canonical model =
     (let s = strip model in
      if s = ''pythia/auto'' then True
      else case partition_slash s of (vendor, sep, name) \<Rightarrow>
        sep \<and> strip vendor \<noteq> [] \<and> strip name \<noteq> [] \<and> CHR ''/'' \<notin> set name)"

text \<open>A checker raises (\<open>Inl ()\<close>) or answers; the organisation tier and the overrides are optional.\<close>

record budget_checker =
  bk_remaining :: "string option \<Rightarrow> (unit, int option) result"
  bk_remaining_org :: "(string option \<Rightarrow> (unit, int option) result) option"
  bk_override :: "(string option \<Rightarrow> string \<Rightarrow> (unit, string option) result) option"

record llm_config =
  lc_model :: string
  lc_task_models :: "(string, string) dict"
  lc_strict :: bool

definition default_tasks :: "string list" where
  "default_tasks = [''patch'', ''harden'', ''report_summarize'', ''recon'', ''exploit'', ''deps_bump'', ''ml.harden_narrative'']"

definition known_tasks :: "string set" where "known_tasks = set default_tasks"

definition resolve_model :: "string \<Rightarrow> llm_config \<Rightarrow> (route_error, string) result" where
  "resolve_model task cfg =
     (let mapped = dget (lc_task_models cfg) task in
      if task \<in> set pythia_only_tasks then (if truthy mapped then Inr (the mapped) else Inl (NotConfigured task))
      else Inr (if truthy mapped then the mapped else lc_model cfg))"

definition asked :: "(unit, 'a) result \<Rightarrow> (route_error, 'a) result" where
  "asked r = (case r of Inl _ \<Rightarrow> Inl CheckerFailed | Inr a \<Rightarrow> Inr a)"

definition chosen_model :: "string \<Rightarrow> llm_config \<Rightarrow> string option \<Rightarrow> budget_checker option \<Rightarrow> (route_error, string) result" where
  "chosen_model task cfg org checker =
     rbind (case checker of None \<Rightarrow> Inr None
        | Some b \<Rightarrow> (if org = None then Inr None else case bk_override b of None \<Rightarrow> Inr None | Some f \<Rightarrow> asked (f org task)))
       (\<lambda>m. if truthy m then Inr (the m) else resolve_model task cfg)"

definition exhausted :: "int option \<Rightarrow> bool" where
  "exhausted r = (case r of None \<Rightarrow> False | Some n \<Rightarrow> n \<le> 0)"

definition tighter :: "int option \<Rightarrow> int option \<Rightarrow> int option" where
  "tighter a b = (case (a, b) of (Some x, Some y) \<Rightarrow> Some (min x y) | (Some x, None) \<Rightarrow> Some x | (None, y) \<Rightarrow> y)"

definition org_remaining :: "budget_checker \<Rightarrow> string option \<Rightarrow> (unit, int option) result" where
  "org_remaining b org = (if org = None then Inr None else case bk_remaining_org b of None \<Rightarrow> Inr None | Some f \<Rightarrow> f org)"

definition budget_gate :: "budget_checker \<Rightarrow> string option \<Rightarrow> string option \<Rightarrow> (route_error, int option) result" where
  "budget_gate b project org =
     rbind (asked (bk_remaining b project)) (\<lambda>p.
       if exhausted p then Inl (ProjectExhausted (if project = None then [] else the project))
       else rbind (asked (org_remaining b org)) (\<lambda>q.
         if exhausted q then Inl (OrgExhausted (if org = None then [] else the org))
         else Inr (tighter p q)))"

definition route :: "string \<Rightarrow> llm_config \<Rightarrow> string option \<Rightarrow> string option \<Rightarrow> budget_checker option \<Rightarrow> (route_error, model_spec) result" where
  "route task cfg project org checker =
     rbind (chosen_model task cfg org checker) (\<lambda>model.
       if task \<in> set pythia_only_tasks \<and> \<not> is_pythia_canonical model then Inl (NotConfigured task)
       else rbind (case checker of None \<Rightarrow> Inr None | Some b \<Rightarrow> budget_gate b project org)
         (\<lambda>r. Inr \<lparr>ms_task = task, ms_model = model, ms_remaining = r\<rparr>))"

subsection \<open>The checker over the database\<close>

record llm_usage =
  us_project :: string
  us_org :: "string option"
  us_cost :: int
  us_created :: int

record org_row =
  og_cap :: "int option"
  og_overrides :: "(string, json) dict option"

record llm_db =
  ld_projects :: "(string, int option \<times> string option) dict"     \<comment> \<open>daily cap, organisation\<close>
  ld_orgs :: "(string, org_row) dict"
  ld_usage :: "llm_usage list"

definition start_of_utc_day :: "int \<Rightarrow> int" where
  "start_of_utc_day now = now - now mod 86400000000"

definition start_of_utc_month :: "int \<Rightarrow> int" where
  "start_of_utc_month now = (case civil_from_days (now div 86400000000) of
     (y, m, d) \<Rightarrow> start_of_utc_day now - (d - 1) * 86400000000)"

definition spent_if :: "(llm_usage \<Rightarrow> bool) \<Rightarrow> llm_db \<Rightarrow> int" where
  "spent_if P db = sum_list (map us_cost (filter P (ld_usage db)))"

definition spent_today :: "int \<Rightarrow> string \<Rightarrow> llm_db \<Rightarrow> int" where
  "spent_today now pid db = spent_if (\<lambda>u. us_project u = pid \<and> start_of_utc_day now \<le> us_created u) db"

definition spent_this_month :: "int \<Rightarrow> string \<Rightarrow> llm_db \<Rightarrow> int" where
  "spent_this_month now org db = spent_if (\<lambda>u.
     (case dget (ld_projects db) (us_project u) of None \<Rightarrow> False
      | Some (_, porg) \<Rightarrow> us_org u = Some org \<or> (us_org u = None \<and> porg = Some org)) \<and>
     start_of_utc_month now \<le> us_created u) db"

definition db_remaining :: "int \<Rightarrow> llm_db \<Rightarrow> string option \<Rightarrow> int option" where
  "db_remaining now db project =
     (if \<not> truthy project then None
      else case dget (ld_projects db) (the project) of
        Some (Some cap, _) \<Rightarrow> Some (cap - spent_today now (the project) db) | _ \<Rightarrow> None)"

definition db_remaining_org :: "int \<Rightarrow> llm_db \<Rightarrow> string option \<Rightarrow> int option" where
  "db_remaining_org now db org =
     (if \<not> truthy org then None
      else case dget (ld_orgs db) (the org) of
        None \<Rightarrow> None
      | Some o' \<Rightarrow> map_option (\<lambda>cap. cap - spent_this_month now (the org) db) (og_cap o'))"

definition db_model_override :: "llm_db \<Rightarrow> string option \<Rightarrow> string \<Rightarrow> string option" where
  "db_model_override db org task =
     (if \<not> truthy org then None
      else case dget (ld_orgs db) (the org) of
        None \<Rightarrow> None
      | Some o' \<Rightarrow> (case og_overrides o' of
          None \<Rightarrow> None
        | Some d \<Rightarrow> (case jget d task of JStr s \<Rightarrow> if s = [] then None else Some s | _ \<Rightarrow> None)))"

text \<open>\<open>None\<close> for a database that cannot be reached; a missing id needs no session.\<close>

definition db_asked :: "llm_db option \<Rightarrow> string option \<Rightarrow> (llm_db \<Rightarrow> 'a option) \<Rightarrow> (unit, 'a option) result" where
  "db_asked db i f = (if \<not> truthy i then Inr None else case db of None \<Rightarrow> Inl () | Some d \<Rightarrow> Inr (f d))"

definition db_checker :: "int \<Rightarrow> llm_db option \<Rightarrow> budget_checker" where
  "db_checker now db = \<lparr>bk_remaining = (\<lambda>p. db_asked db p (\<lambda>d. db_remaining now d p)),
     bk_remaining_org = Some (\<lambda>q. db_asked db q (\<lambda>d. db_remaining_org now d q)),
     bk_override = Some (\<lambda>q task. db_asked db q (\<lambda>d. db_model_override d q task))\<rparr>"

definition enforce_budget_for_run :: "string option \<Rightarrow> string option \<Rightarrow> llm_config \<Rightarrow> budget_checker \<Rightarrow> (route_error, unit) result" where
  "enforce_budget_for_run project org cfg b =
     (if \<not> truthy project then Inr ()
      else case (bk_remaining b project, org_remaining b org) of
        (Inr p, Inr q) \<Rightarrow>
          if exhausted p then Inl (ProjectExhausted (the project))
          else if exhausted q then Inl (OrgExhausted (the org)) else Inr ()
      | _ \<Rightarrow> if lc_strict cfg then Inl (Unverified (the project)) else Inr ())"

subsection \<open>Prices\<close>

definition prices_per_mtok :: "(string \<times> rat \<times> rat) list" where
  "prices_per_mtok = [(''gemini-3.5-flash'', fl (15/10), 9), (''gemini-3.1-pro'', 2, 12), (''gemini-3-pro'', 2, 12),
     (''gemini-2.5-flash'', fl (3/10), fl (25/10)), (''gemini-2.5-pro'', fl (125/100), 10),
     (''claude-opus'', 5, 25), (''claude-sonnet'', 3, 15), (''claude-haiku'', 1, 5),
     (''gpt-5.5'', 5, 30), (''gpt-5.4'', fl (25/10), 15), (''gpt-5'', fl (125/100), 10),
     (''gpt-4.1-mini'', fl (4/10), fl (16/10)), (''gpt-4.1'', 2, 8), (''gpt-4o-mini'', fl (15/100), fl (6/10)),
     (''gpt-4o'', fl (25/10), 10)]"

definition static_rate :: "string \<Rightarrow> (rat \<times> rat) option" where
  "static_rate model = (let name = lower (last (split_on CHR ''/'' model)) in
     map_option snd (find (\<lambda>(family, _). contains_sub family name) prices_per_mtok))"

text \<open>\<open>litellm\<close>: the price map of the optional package, in dollars.\<close>

definition cost_cents :: "(string \<Rightarrow> int \<Rightarrow> int \<Rightarrow> rat option) \<Rightarrow> string \<Rightarrow> int \<Rightarrow> int \<Rightarrow> int" where
  "cost_cents litellm model prompt completion =
     (if model = [] \<or> (prompt \<le> 0 \<and> completion \<le> 0) then 0
      else case static_rate model of
        None \<Rightarrow> (case litellm model prompt completion of None \<Rightarrow> 0 | Some usd \<Rightarrow> py_round (fmul usd 100))
      | Some (rin, rout) \<Rightarrow>
          let usd = fadd (fmul (fdiv (of_int prompt) 1000000) rin) (fmul (fdiv (of_int completion) 1000000) rout)
          in py_round (fmul usd 100))"

subsection \<open>Ledgers\<close>

text \<open>A client that asks a gate before each call and records the cost of the call.\<close>

fun metered :: "('s \<Rightarrow> bool) \<Rightarrow> (int \<Rightarrow> 's \<Rightarrow> 's) \<Rightarrow> int list \<Rightarrow> 's \<Rightarrow> 's" where
  "metered gate spend [] s = s"
| "metered gate spend (c # cs) s = (if gate s then metered gate spend cs (spend c s) else s)"

text \<open>What a tier promises: on a state it knows, a recorded cost lowers what remains by itself, and no
  cap stays no cap.\<close>

locale budget_ledger =
  fixes remaining :: "'s \<Rightarrow> int option" and spend :: "int \<Rightarrow> 's \<Rightarrow> 's" and known :: "'s \<Rightarrow> bool"
  assumes remaining_spend: "known s \<Longrightarrow> remaining (spend c s) = map_option (\<lambda>r. r - c) (remaining s)"
    and known_spend: "known s \<Longrightarrow> known (spend c s)"
begin

lemma metered_bound:
  assumes gate: "\<And>s. gate s \<Longrightarrow> \<not> exhausted (remaining s)"
  shows "known s \<Longrightarrow> remaining s = Some r \<Longrightarrow> list_all (\<lambda>c. 0 \<le> c \<and> c \<le> m) cs \<Longrightarrow>
   \<exists>r'. remaining (metered gate spend cs s) = Some r' \<and> min r (1 - m) \<le> r' \<and> r' \<le> r"
proof (induction cs arbitrary: s r)
  case (Cons c cs)
  show ?case
  proof (cases "gate s")
    case False
    then show ?thesis using Cons.prems by simp
  next
    case True
    then have r: "0 < r" using Cons.prems(2) gate [of s] by (simp add: exhausted_def)
    have "remaining (spend c s) = Some (r - c)" using Cons.prems(1,2) by (simp add: remaining_spend)
    from Cons.IH [OF known_spend [OF Cons.prems(1)] this] Cons.prems(3) obtain r' where
      "remaining (metered gate spend cs (spend c s)) = Some r'" "min (r - c) (1 - m) \<le> r'" "r' \<le> r - c" by auto
    then show ?thesis using True r Cons.prems(3) by auto
  qed
qed simp

end

definition record_usage :: "int \<Rightarrow> string \<Rightarrow> string option \<Rightarrow> int \<Rightarrow> llm_db \<Rightarrow> llm_db" where
  "record_usage now pid org c db =
     db\<lparr>ld_usage := ld_usage db @ [\<lparr>us_project = pid, us_org = org, us_cost = c, us_created = now\<rparr>]\<rparr>"

lemma record_usage_tables [simp]: "ld_projects (record_usage t p q c db) = ld_projects db" "ld_orgs (record_usage t p q c db) = ld_orgs db"
  by (simp_all add: record_usage_def)

lemma day_start_le: "start_of_utc_day now \<le> now"
  by (simp add: start_of_utc_day_def)

lemma civil_day_pos:
  assumes "civil_from_days n = (y, m, d)" shows "1 \<le> d"
proof -
  have q: "153 * ((5 * x + 2) div 153) \<le> 5 * x + 2" for x :: int
    using div_mult_mod_eq [of "5 * x + 2" 153] pos_mod_sign [of 153 "5 * x + 2"] by linarith
  have "(153 * k + 2) div 5 \<le> x" if "153 * k \<le> 5 * x + 2" for k x :: int
  proof -
    have "(153 * k + 2) div 5 \<le> (5 * x + 4) div 5" by (rule zdiv_mono1) (use that in auto)
    then show ?thesis by simp
  qed
  then have le: "(153 * ((5 * x + 2) div 153) + 2) div 5 \<le> x" for x :: int using q by blast
  obtain x where "d = x - (153 * ((5 * x + 2) div 153) + 2) div 5 + 1"
    using assms unfolding civil_from_days_def Let_def prod.inject by - (elim conjE, rule that, erule sym)
  then show ?thesis using le [of x] by linarith
qed

lemma month_start_le: "start_of_utc_month now \<le> now"
proof -
  obtain y m d where c: "civil_from_days (now div 86400000000) = (y, m, d)" by (rule prod_cases3)
  then show ?thesis using civil_day_pos [OF c] day_start_le [of now] by (simp add: start_of_utc_month_def)
qed

lemma spent_today_record: "spent_today now pid (record_usage now pid org c db) = spent_today now pid db + c"
  using day_start_le [of now] by (simp add: spent_today_def spent_if_def record_usage_def)

text \<open>The project is of the organisation.\<close>

definition org_of :: "string \<Rightarrow> string \<Rightarrow> llm_db \<Rightarrow> bool" where
  "org_of pid org db \<longleftrightarrow> (\<exists>cap. dget (ld_projects db) pid = Some (cap, Some org))"

lemma spent_month_record:
  "org_of pid org db \<Longrightarrow> spent_this_month now org (record_usage now pid (Some org) c db) = spent_this_month now org db + c"
  using month_start_le [of now] by (auto simp: spent_this_month_def spent_if_def record_usage_def org_of_def)

interpretation project_ledger: budget_ledger "\<lambda>db. db_remaining now db (Some pid)" "record_usage now pid org" "\<lambda>_. True"
  for now pid org
  by unfold_locales (auto simp: db_remaining_def spent_today_record split: option.split)

interpretation org_ledger: budget_ledger "\<lambda>db. db_remaining_org now db (Some org)" "record_usage now pid (Some org)" "org_of pid org"
  for now pid org
  by unfold_locales (auto simp: db_remaining_org_def spent_month_record option.map_comp comp_def org_of_def diff_diff_add [symmetric] split: option.split intro!: option.map_cong0)

definition run_gate :: "int \<Rightarrow> string \<Rightarrow> string \<Rightarrow> llm_config \<Rightarrow> llm_db \<Rightarrow> bool" where
  "run_gate now pid org cfg db = is_ok (enforce_budget_for_run (Some pid) (Some org) cfg (db_checker now (Some db)))"

lemma run_gate_open:
  assumes "run_gate now pid org cfg db" "pid \<noteq> []" "org \<noteq> []"
  shows "\<not> exhausted (db_remaining now db (Some pid))" "\<not> exhausted (db_remaining_org now db (Some org))"
  using assms by (auto simp: run_gate_def enforce_budget_for_run_def db_checker_def org_remaining_def db_asked_def split: if_splits)

subsection \<open>Properties\<close>


text \<open>A routed call is within budget and on an allowed model: with a checker, neither tier is
  exhausted and the spec carries the tighter remainder; a task of the gateway only ever gets a
  canonical gateway id.\<close>

theorem route_within_budget:
  assumes "route task cfg project org (Some b) = Inr spec"
  shows "ms_task spec = task \<and> (task \<in> set pythia_only_tasks \<longrightarrow> is_pythia_canonical (ms_model spec)) \<and>
    (\<exists>p q. bk_remaining b project = Inr p \<and> org_remaining b org = Inr q \<and> \<not> exhausted p \<and> \<not> exhausted q \<and>
       ms_remaining spec = tighter p q \<and> \<not> exhausted (ms_remaining spec))"
proof -
  obtain m r where m: "chosen_model task cfg org (Some b) = Inr m" "budget_gate b project org = Inr r"
      "\<not> (task \<in> set pythia_only_tasks \<and> \<not> is_pythia_canonical m)"
      "spec = \<lparr>ms_task = task, ms_model = m, ms_remaining = r\<rparr>"
    using assms by (auto simp: route_def split: if_splits)
  obtain p q where pq: "bk_remaining b project = Inr p" "org_remaining b org = Inr q" "\<not> exhausted p" "\<not> exhausted q" "r = tighter p q"
    using m(2) by (auto simp: budget_gate_def asked_def split: sum.splits if_splits)
  moreover have "\<not> exhausted (tighter p q)"
    using pq(3,4) by (auto simp: exhausted_def tighter_def split: option.splits)
  ultimately show ?thesis using m by auto
qed

text \<open>Strict pre-flight fails closed: with \<open>llm_budget_strict\<close> a run of a project starts only when the
  checker answered for every tier asked, and none is exhausted.\<close>

theorem strict_preflight:
  assumes "enforce_budget_for_run (Some pid) org cfg b = Inr ()" "pid \<noteq> []" "lc_strict cfg"
  shows "\<exists>p q. bk_remaining b (Some pid) = Inr p \<and> org_remaining b org = Inr q \<and> \<not> exhausted p \<and> \<not> exhausted q"
  using assms by (auto simp: enforce_budget_for_run_def split: sum.splits if_splits)

text \<open>The cost of a priced call is never negative and never falls when either token count grows, in
  the rounded arithmetic of the code.\<close>

theorem cost_monotone:
  assumes "0 \<le> p" "p \<le> p'" "0 \<le> c" "c \<le> c'" "static_rate model \<noteq> None"
  shows "0 \<le> cost_cents litellm model p c \<and> cost_cents litellm model p c \<le> cost_cents litellm model p' c'"
proof -
  have pos: "list_all (\<lambda>(_, a, b). 0 \<le> a \<and> 0 \<le> b) prices_per_mtok" by code_simp
  obtain rin rout where r: "static_rate model = Some (rin, rout)" using assms(5) by auto
  then obtain fam where "(fam, rin, rout) \<in> set prices_per_mtok"
    by (auto simp: static_rate_def Let_def find_Some_iff dest: nth_mem)
  then have nn: "0 \<le> rin" "0 \<le> rout" using pos by (auto simp: list_all_iff)
  let ?usd = "\<lambda>p c. fadd (fmul (fdiv (of_int p) 1000000) rin) (fmul (fdiv (of_int c) 1000000) rout)"
  have part: "0 \<le> fmul (fdiv (of_int a) 1000000) x \<and> fmul (fdiv (of_int a) 1000000) x \<le> fmul (fdiv (of_int b) 1000000) x"
    if "0 \<le> a" "a \<le> b" "0 \<le> x" for a b :: int and x :: rat
  proof -
    have "fdiv (of_int a) 1000000 \<le> fdiv (of_int b) 1000000" unfolding fdiv_def by (rule fl_mono) (use that in \<open>simp add: divide_right_mono\<close>)
    moreover have "0 \<le> fdiv (of_int a) 1000000" unfolding fdiv_def by (rule fl_nonneg) (use that in simp)
    ultimately show ?thesis using that(3) unfolding fmul_def by (simp add: fl_mono fl_nonneg mult_right_mono)
  qed
  have u: "0 \<le> ?usd p c" "?usd p c \<le> ?usd p' c'"
    using part [of p p' rin] part [of c c' rout] assms nn by (auto simp: fadd_def intro!: fl_mono fl_nonneg)
  have z: "?usd 0 0 = 0" by (simp add: fadd_def fmul_def fdiv_def)
  have cents: "0 \<le> py_round (fmul x 100) \<and> py_round (fmul x 100) \<le> py_round (fmul y 100)" if "0 \<le> x" "x \<le> y" for x y
    using that by (simp add: py_round_def fmul_def rhe_mono rhe_nonneg fl_mono fl_nonneg)
  have eq: "cost_cents litellm model a b = (if model = [] then 0 else py_round (fmul (?usd a b) 100))"
    if "0 \<le> a" "0 \<le> b" for a b
  proof (cases "a \<le> 0 \<and> b \<le> 0")
    case True
    then have "a = 0" "b = 0" using that by auto
    then show ?thesis using rhe_of_int [of 0] by (simp add: cost_cents_def fadd_def fmul_def fdiv_def py_round_def)
  next
    case False
    then show ?thesis using r by (auto simp: cost_cents_def Let_def)
  qed
  show ?thesis using eq [of p c] eq [of p' c'] assms cents [OF u] cents [of "?usd p c" "?usd p c"] u by simp
qed

subsection \<open>Witnesses\<close>

definition ex_llm_db :: llm_db where
  "ex_llm_db = \<lparr>ld_projects = [(''p'', Some 10, Some ''o'')], ld_orgs = [(''o'', \<lparr>og_cap = Some 50, og_overrides = None\<rparr>)], ld_usage = []\<rparr>"

definition ex_cfg :: llm_config where
  "ex_cfg = \<lparr>lc_model = ''openai/gpt-4.1'', lc_task_models = [(''ml.harden_narrative'', ''pythia/auto'')], lc_strict = True\<rparr>"


theorem route_within_budget_witness:
  "case route ''ml.harden_narrative'' ex_cfg (Some ''p'') (Some ''o'') (Some (db_checker 0 (Some ex_llm_db))) of
     Inl _ \<Rightarrow> False | Inr spec \<Rightarrow> is_pythia_canonical (ms_model spec)"
proof -
  have t: "''ml.harden_narrative'' \<in> set pythia_only_tasks" by code_simp
  have "is_ok (route ''ml.harden_narrative'' ex_cfg (Some ''p'') (Some ''o'') (Some (db_checker 0 (Some ex_llm_db))))" by code_simp
  then obtain spec where s: "route ''ml.harden_narrative'' ex_cfg (Some ''p'') (Some ''o'') (Some (db_checker 0 (Some ex_llm_db))) = Inr spec"
    by (auto simp: is_ok_iff)
  from route_within_budget [OF s] t show ?thesis by (simp add: s)
qed

theorem strict_preflight_witness:
  "\<exists>p. bk_remaining (db_checker 0 (Some ex_llm_db)) (Some ''p'') = Inr p \<and> \<not> exhausted p"
proof -
  have "enforce_budget_for_run (Some ''p'') None ex_cfg (db_checker 0 (Some ex_llm_db)) = Inr ()" by code_simp
  from strict_preflight [OF this] show ?thesis by (auto simp: ex_cfg_def)
qed

theorem cost_monotone_witness:
  "cost_cents (\<lambda>_ _ _. None) ''openai/gpt-4.1'' 1000 2000 \<le> cost_cents (\<lambda>_ _ _. None) ''openai/gpt-4.1'' 5000 2000"
proof -
  have "static_rate ''openai/gpt-4.1'' \<noteq> None" by code_simp
  from cost_monotone [OF _ _ _ _ this, of 1000 5000 2000 2000] show ?thesis by simp
qed

end
