(* ===== verification/PyFormat.thy ===== *)
theory PyFormat
  imports PyFloat Json
begin

text \<open>
  The texts Python gives a finite \<open>float\<close>: \<open>format(x, "g")\<close> (six significant digits),
  \<open>format(x, ".nf")\<close> and \<open>repr(x)\<close> (the fewest digits that round back to the same double).
  A power of two whose shortest text has sixteen digits may get the other of its two
  candidates from the C library; no value of the program is one.
\<close>

text \<open>The decimal exponent: by the number of digits, or by scaling up to 1.\<close>

function scale_up :: "rat \<Rightarrow> int \<Rightarrow> int" where
  "scale_up x e = (if x \<le> 0 \<or> 1 \<le> x then e else scale_up (x * 10) (e - 1))"
  by auto
termination
proof (relation "measure (\<lambda>(x, _). nat \<lfloor>1 / x\<rfloor>)")
  show "wf (measure (\<lambda>(x :: rat, _ :: int). nat \<lfloor>1 / x\<rfloor>))" by simp
  fix x :: rat and e :: int
  assume "\<not> (x \<le> 0 \<or> 1 \<le> x)"
  then have x: "0 < x" "x < 1" by auto
  have y: "1 \<le> \<lfloor>1 / x\<rfloor>" using x by (simp add: le_divide_eq)
  have "1 / x < of_int \<lfloor>1 / x\<rfloor> + 1" by linarith
  moreover have "(1::rat) \<le> of_int \<lfloor>1 / x\<rfloor>" using y by simp
  moreover have "1 / (x * 10) = (1 / x) / 10" by simp
  ultimately have "1 / (x * 10) < of_int \<lfloor>1 / x\<rfloor>" by linarith
  then have "\<lfloor>1 / (x * 10)\<rfloor> < \<lfloor>1 / x\<rfloor>" by (simp only: floor_less_iff)
  then show "((x * 10, e - 1), x, e) \<in> measure (\<lambda>(x, _). nat \<lfloor>1 / x\<rfloor>)" using y by simp
qed

declare scale_up.simps [simp del]

definition ilog10 :: "rat \<Rightarrow> int" where
  "ilog10 x = (if 1 \<le> x then int (length (dec \<lfloor>x\<rfloor>)) - 1 else scale_up x 0)"

text \<open>\<open>n\<close> significant digits of a positive number and its decimal exponent.\<close>

definition sig_digits :: "nat \<Rightarrow> rat \<Rightarrow> int \<times> int" where
  "sig_digits n x =
     (let e = ilog10 x; m = rhe (x * 10 powi (int n - 1 - e))
      in if m = 10 ^ n then (10 ^ (n - 1), e + 1) else (m, e))"

definition strip_zeros :: "string \<Rightarrow> string" where
  "strip_zeros s = rev (dropWhile (\<lambda>c. c = CHR ''0'') (rev s))"

definition dotted :: "string \<Rightarrow> string" where
  "dotted fr = (if fr = [] then [] else CHR ''.'' # fr)"

definition two_digits :: "int \<Rightarrow> string" where
  "two_digits n = (if n < 10 then ''0'' else []) @ dec n"

text \<open>Digits and exponent as fixed or scientific text; \<open>point\<close>: a fixed text always has a fraction.\<close>

definition digits_text :: "int \<Rightarrow> bool \<Rightarrow> int \<times> int \<Rightarrow> string" where
  "digits_text limit point me = (case me of (m, e) \<Rightarrow>
     (let ds = dec m in
      if -4 \<le> e \<and> e < limit then
        (let padded = ds @ replicate (nat (e + 1 - int (length ds))) CHR ''0'';
             whole = (if 0 \<le> e then take (nat (e + 1)) padded else ''0'');
             fr = strip_zeros (if 0 \<le> e then drop (nat (e + 1)) padded else replicate (nat (- e - 1)) CHR ''0'' @ ds)
         in whole @ (if fr = [] \<and> point then ''.0'' else dotted fr))
      else hd ds # dotted (strip_zeros (tl ds)) @ ''e'' @ (if e < 0 then ''-'' else ''+'') @ two_digits \<bar>e\<bar>))"

definition signed :: "(rat \<Rightarrow> string) \<Rightarrow> rat \<Rightarrow> string" where
  "signed f x = (if x < 0 then CHR ''-'' # f (- x) else f x)"

definition fmt_g :: "rat \<Rightarrow> string" where
  "fmt_g = signed (\<lambda>x. if x = 0 then ''0'' else digits_text 6 False (sig_digits 6 x))"

definition fmt_fixed :: "nat \<Rightarrow> rat \<Rightarrow> string" where
  "fmt_fixed n = signed (\<lambda>x.
     (let m = rhe (x * 10 ^ n); fr = dec (m mod 10 ^ n)
      in dec (m div 10 ^ n) @ (if n = 0 then [] else CHR ''.'' # replicate (n - length fr) CHR ''0'' @ fr)))"

definition sig_value :: "nat \<Rightarrow> int \<times> int \<Rightarrow> rat" where
  "sig_value n me = of_int (fst me) * 10 powi (snd me - int n + 1)"

definition py_repr :: "rat \<Rightarrow> string" where
  "py_repr = signed (\<lambda>x. if x = 0 then ''0.0''
     else digits_text 16 True (case find (\<lambda>n. fl (sig_value n (sig_digits n x)) = x) [1..<18] of
        Some n \<Rightarrow> sig_digits n x | None \<Rightarrow> sig_digits 17 x))"

text \<open>\<open>repr\<close> of a string of code points below 256.\<close>

definition repr_char :: "char \<Rightarrow> char \<Rightarrow> string" where
  "repr_char q c =
     (let n = of_char c :: int in
      if c = q \<or> n = 92 then [CHR 0x5C, c]
      else if n = 9 then [CHR 0x5C, CHR ''t''] else if n = 10 then [CHR 0x5C, CHR ''n'']
      else if n = 13 then [CHR 0x5C, CHR ''r'']
      else if n < 32 \<or> (127 \<le> n \<and> n \<le> 160) \<or> n = 173
      then [CHR 0x5C, CHR ''x'', hex_digit (n div 16), hex_digit (n mod 16)]
      else [c])"

definition py_repr_str :: "string \<Rightarrow> string" where
  "py_repr_str s =
     (let q = (if CHR 0x27 \<in> set s \<and> CHR 0x22 \<notin> set s then CHR 0x22 else CHR 0x27)
      in q # concat (map (repr_char q) s) @ [q])"

definition py_list :: "('a \<Rightarrow> string) \<Rightarrow> 'a list \<Rightarrow> string" where
  "py_list f xs = ''['' @ join '', '' (map f xs) @ '']''"

text \<open>Texts of concrete numbers.\<close>

lemma fmt_examples:
  "fmt_g (3/100) = ''0.03''" "fmt_g (1/100000) = ''1e-05''" "fmt_g 1234567 = ''1.23457e+06''"
  "py_repr (fl (1/10)) = ''0.1''" "fmt_fixed 1 (fl (6525/100)) = ''65.2''"
  by code_simp+

end
