(* ===== verification/Scoring.thy ===== *)
theory Scoring
  imports PyFormat "HOL-Library.Product_Lexorder"
begin

text \<open>
  \<open>ml/scoring.py\<close> with the records of \<open>ml/schema.py\<close> it reads and writes: the Model Robustness
  Index of a campaign from its measurement rows, the severity and confidence of a finding, the
  benign-control predicate and the robustness curves. Numbers are binary64 (\<open>PyFloat\<close>), every
  refusal is a value. \<open>math.log\<close>, \<open>log1p\<close>, \<open>lgamma\<close> and \<open>exp\<close> are parameters, as is the digest of
  the settings. A dictionary keyed by budgets keeps its insertion order.
\<close>

subsection \<open>Configuration and measurements\<close>

record weights =
  wt_acc :: rat
  wt_asr :: rat
  wt_eps :: rat
  wt_conf :: rat
  wt_expl :: rat

definition default_weights :: weights where
  "default_weights = \<lparr>wt_acc = fl (35/100), wt_asr = fl (25/100), wt_eps = fl (20/100), wt_conf = fl (10/100), wt_expl = fl (10/100)\<rparr>"

definition weights_valid :: "weights \<Rightarrow> bool" where
  "weights_valid w \<longleftrightarrow>
     \<bar>fsub (fadd (fadd (fadd (fadd (wt_acc w) (wt_asr w)) (wt_eps w)) (wt_conf w)) (wt_expl w)) 1\<bar> \<le> fl (1 / 10 ^ 9)"

record severity_thresholds =
  st_high :: rat
  st_mid :: rat

record confidence_thresholds =
  ct_high :: int
  ct_medium :: int

record scoring_config =
  sc_version :: string
  sc_weights :: weights
  sc_severity :: severity_thresholds
  sc_confidence :: confidence_thresholds

record campaign_config =
  cc_attack_ids :: "string list"
  cc_norm :: string
  cc_eps_grid :: "rat list"
  cc_reference_eps :: rat
  cc_threshold :: rat
  cc_scoring :: scoring_config

text \<open>The validators of \<open>CampaignConfig\<close> and of the blocks under it.\<close>

definition config_valid :: "campaign_config \<Rightarrow> bool" where
  "config_valid c \<longleftrightarrow>
     cc_attack_ids c \<noteq> [] \<and> cc_eps_grid c \<noteq> [] \<and>
     list_all (\<lambda>e. 0 < e \<and> e \<le> 1) (cc_eps_grid c) \<and> sorted_wrt (<) (cc_eps_grid c) \<and>
     cc_reference_eps c \<in> set (cc_eps_grid c) \<and> 0 < cc_threshold c \<and> cc_threshold c \<le> 1 \<and>
     weights_valid (sc_weights (cc_scoring c)) \<and>
     0 < st_high (sc_severity (cc_scoring c)) \<and> st_high (sc_severity (cc_scoring c)) \<le> 1 \<and>
     0 < st_mid (sc_severity (cc_scoring c)) \<and> st_mid (sc_severity (cc_scoring c)) \<le> 1 \<and>
     1 \<le> ct_high (sc_confidence (cc_scoring c)) \<and> 1 \<le> ct_medium (sc_confidence (cc_scoring c))"

datatype param_value = PFloat rat | PInt int | PBool bool | PText string

record measurement =
  me_id :: string
  me_family :: string
  me_attack :: "string option"
  me_params :: "(string, param_value) dict"
  me_n :: int
  me_correct :: int
  me_accuracy :: rat
  me_flipped :: "int option"
  me_clean_correct :: "int option"
  me_asr :: "rat option"
  me_pert :: "rat option"
  me_conf_gap :: "rat option"
  me_conf_gap_n :: "int option"
  me_expl_shift :: "rat option"
  me_expl_shift_n :: "int option"
  me_queries :: "rat option"

definition eps_of :: "measurement \<Rightarrow> rat option" where
  "eps_of m = (case dget (me_params m) ''eps'' of
      Some (PFloat x) \<Rightarrow> Some x | Some (PInt i) \<Rightarrow> Some (fl (of_int i)) | _ \<Rightarrow> None)"

subsection \<open>Numeric helpers\<close>

definition clamp01 :: "rat \<Rightarrow> rat" where
  "clamp01 v = max 0 (min 1 v)"

definition same_eps :: "rat \<Rightarrow> rat \<Rightarrow> bool" where
  "same_eps a b \<longleftrightarrow> a = b \<or> \<bar>fsub b a\<bar> \<le> fl (1 / 10 ^ 12)"

text \<open>Small, middle and large budget; \<open>None\<close>: the grid is empty.\<close>

definition eps_bands :: "rat list \<Rightarrow> rat \<Rightarrow> (rat \<times> rat \<times> rat) option" where
  "eps_bands eps_grid reference =
     (let grid = sort eps_grid in
      if grid = [] then None
      else (let small = hd grid; large = last grid in
        Some (small, if small < reference \<and> reference < large then reference else grid ! (length grid div 2), large)))"

fun trapezoids :: "rat \<Rightarrow> (rat \<times> rat) list \<Rightarrow> rat" where
  "trapezoids area ((x0, y0) # (x1, y1) # r) =
     trapezoids (fadd area (fdiv (fmul (fsub x1 x0) (fadd y0 y1)) 2)) ((x1, y1) # r)"
| "trapezoids area _ = area"

text \<open>\<open>None\<close>: the curve is empty or the two lists differ in length.\<close>

definition trapezoid_auc_normalized :: "rat list \<Rightarrow> rat list \<Rightarrow> rat option" where
  "trapezoid_auc_normalized xs ys =
     (if length xs \<noteq> length ys then None
      else let pairs = sort (zip xs ys) in
        if pairs = [] then None
        else if length pairs = 1 then Some (snd (hd pairs))
        else let width = fsub (fst (last pairs)) (fst (hd pairs)) in
          if width \<le> 0 then Some (snd (hd pairs)) else Some (fdiv (trapezoids 0 pairs) width))"

subsection \<open>Default budgets\<close>

definition default_eps_grid_linf :: "rat list" where
  "default_eps_grid_linf = [fl (1/100), fl (3/100), fl (1/10)]"

definition default_eps_grid_l2 :: "rat list" where
  "default_eps_grid_l2 = [1/4, 1/2, 1]"

definition default_eps_grid :: "string \<Rightarrow> rat list option" where
  "default_eps_grid nrm = (if nrm = ''linf'' then Some default_eps_grid_linf
     else if nrm = ''l2'' then Some default_eps_grid_l2 else None)"

definition default_reference_eps :: "string \<Rightarrow> rat option" where
  "default_reference_eps nrm = (case default_eps_grid nrm of
      None \<Rightarrow> None
    | Some grid \<Rightarrow> if nrm = ''linf'' then Some (fl (3/100)) else Some (grid ! (length grid div 2)))"

subsection \<open>The benign control\<close>

record libm =
  lm_log :: "rat \<Rightarrow> rat"
  lm_log1p :: "rat \<Rightarrow> rat"
  lm_lgamma :: "int \<Rightarrow> rat"
  lm_exp :: "rat \<Rightarrow> rat"

definition binomial_term :: "libm \<Rightarrow> int \<Rightarrow> rat \<Rightarrow> int \<Rightarrow> rat" where
  "binomial_term l n p i =
     lm_exp l (fadd (fadd (fsub (fsub (lm_lgamma l (n + 1)) (lm_lgamma l (i + 1))) (lm_lgamma l (n - i + 1)))
       (fmul (of_int i) (lm_log l p))) (fmul (of_int (n - i)) (lm_log1p l (- p))))"

text \<open>\<open>None\<close>: a negative \<open>n\<close> or a \<open>p\<close> outside the unit interval raises.\<close>

definition binomial_cdf :: "libm \<Rightarrow> int \<Rightarrow> int \<Rightarrow> rat \<Rightarrow> rat option" where
  "binomial_cdf l k n p =
     (if n < 0 \<or> \<not> (0 \<le> p \<and> p \<le> 1) then None
      else if k < 0 then Some 0
      else if n \<le> k then Some 1
      else if p \<le> 0 then Some 1
      else if 1 \<le> p then Some 0
      else Some (clamp01 (foldl (\<lambda>total i. fadd total (binomial_term l n p i)) 0 [0..k])))"

definition accuracy_of :: "measurement \<Rightarrow> rat" where
  "accuracy_of m = fdiv (of_int (me_correct m)) (of_int (me_n m))"

definition control_degradation_pvalue :: "libm \<Rightarrow> measurement \<Rightarrow> measurement \<Rightarrow> rat option" where
  "control_degradation_pvalue l clean control =
     (if me_n clean \<le> 0 \<or> me_n control \<le> 0 then None
      else binomial_cdf l (me_correct control) (me_n control) (min 1 (max 0 (accuracy_of clean))))"

text \<open>\<open>None\<close>: \<open>alpha\<close> outside the open unit interval raises.\<close>

definition control_preserves_accuracy :: "libm \<Rightarrow> measurement \<Rightarrow> measurement \<Rightarrow> rat \<Rightarrow> bool option" where
  "control_preserves_accuracy l clean control alpha =
     (if \<not> (0 < alpha \<and> alpha < 1) then None
      else if me_n clean \<le> 0 \<or> me_n control \<le> 0 then Some False
      else if fsub (fsub (accuracy_of clean) (fl (2/100))) (fl (1 / 10 ^ 12)) \<le> accuracy_of control then Some True
      else case control_degradation_pvalue l clean control of
        None \<Rightarrow> Some False
      | Some p \<Rightarrow> Some (alpha \<le> p))"

subsection \<open>Reading the measurement table\<close>

type_synonym rows = "(rat, measurement) dict"

definition clean_row :: "measurement list \<Rightarrow> measurement option" where
  "clean_row ms = find (\<lambda>m. me_family m = ''clean'') ms"

definition rows_by_eps :: "(measurement \<Rightarrow> bool) \<Rightarrow> measurement list \<Rightarrow> rows" where
  "rows_by_eps P ms = foldl (\<lambda>acc m. if P m then (case eps_of m of None \<Rightarrow> acc | Some e \<Rightarrow> dset e m acc) else acc) [] ms"

definition evasion_rows :: "measurement list \<Rightarrow> string \<Rightarrow> rows" where
  "evasion_rows ms attack = rows_by_eps (\<lambda>m. me_family m = ''evasion'' \<and> me_attack m = Some attack) ms"

definition control_rows :: "measurement list \<Rightarrow> rows" where
  "control_rows ms = rows_by_eps (\<lambda>m. me_family m = ''control'') ms"

definition lookup_eps :: "(rat, 'a) dict \<Rightarrow> rat \<Rightarrow> 'a option" where
  "lookup_eps rs eps = map_option snd (find (\<lambda>(k, _). same_eps k eps) rs)"

definition asr_by_eps :: "measurement list \<Rightarrow> string \<Rightarrow> (rat, rat option) dict" where
  "asr_by_eps ms attack = map (\<lambda>(e, m). (e, me_asr m)) (sort_key fst (evasion_rows ms attack))"

definition first_success :: "(rat, rat option) dict \<Rightarrow> rat \<Rightarrow> (rat \<times> rat) option" where
  "first_success table threshold =
     (case find (\<lambda>e. case lookup_eps table e of Some (Some asr) \<Rightarrow> threshold \<le> asr | _ \<Rightarrow> False) (sort (map fst table)) of
        None \<Rightarrow> None
      | Some e \<Rightarrow> (case lookup_eps table e of Some (Some asr) \<Rightarrow> Some (e, asr) | _ \<Rightarrow> None))"

subsection \<open>Severity and confidence of a finding\<close>

datatype severity = Low | Medium | High | Critical

fun severity_rank :: "severity \<Rightarrow> nat" where
  "severity_rank Low = 0" | "severity_rank Medium = 1" | "severity_rank High = 2" | "severity_rank Critical = 3"

lemma severity_rank_inject [simp]: "severity_rank a = severity_rank b \<longleftrightarrow> a = b"
  by (cases a; cases b) auto

instantiation severity :: linorder
begin

definition less_eq_severity :: "severity \<Rightarrow> severity \<Rightarrow> bool" where
  "less_eq_severity a b \<longleftrightarrow> severity_rank a \<le> severity_rank b"

definition less_severity :: "severity \<Rightarrow> severity \<Rightarrow> bool" where
  "less_severity a b \<longleftrightarrow> severity_rank a < severity_rank b"

instance
  by standard (auto simp: less_eq_severity_def less_severity_def dest: antisym)

end

definition crossing_severity :: "severity_thresholds \<Rightarrow> rat \<Rightarrow> rat \<Rightarrow> rat \<Rightarrow> rat \<Rightarrow> severity" where
  "crossing_severity t small mid eps asr =
     (if eps \<le> fadd small (fl (1 / 10 ^ 12)) then
        (if st_high t \<le> asr then Critical else if st_mid t \<le> asr then High else Medium)
      else if eps \<le> fadd mid (fl (1 / 10 ^ 12)) then (if st_high t \<le> asr then High else Medium)
      else Low)"

text \<open>\<open>Inl ()\<close>: the grid is empty.\<close>

definition severity_for :: "(rat \<times> rat) option \<Rightarrow> rat list \<Rightarrow> rat \<Rightarrow> severity_thresholds \<Rightarrow> (unit, severity option) result" where
  "severity_for success eps_grid reference t = (case success of
      None \<Rightarrow> Inr None
    | Some (eps, asr) \<Rightarrow> (case eps_bands eps_grid reference of
        None \<Rightarrow> Inl ()
      | Some (small, mid, _) \<Rightarrow> Inr (Some (crossing_severity t small mid eps asr))))"

definition confidence_for :: "int \<Rightarrow> confidence_thresholds \<Rightarrow> string" where
  "confidence_for n t = (if ct_high t \<le> n then ''high'' else if ct_medium t \<le> n then ''medium'' else ''low'')"

definition min_clean_correct :: int where "min_clean_correct = 10"

record finding_inputs =
  fi_attack :: string
  fi_threshold :: rat
  fi_clean_correct :: int
  fi_asr_by_eps :: "(string, rat) dict"
  fi_asr_reference :: "rat option"
  fi_first_success :: "(rat \<times> rat) option"
  fi_severity :: "severity option"
  fi_confidence :: string
  fi_crosses :: bool
  fi_denominator_ok :: bool

definition finding_inputs_of :: "campaign_config \<Rightarrow> measurement list \<Rightarrow> string \<Rightarrow> (unit, finding_inputs) result" where
  "finding_inputs_of c ms attack =
     (let ncc = (case clean_row ms of None \<Rightarrow> 0 | Some m \<Rightarrow> me_correct m);
          table = asr_by_eps ms attack;
          success = first_success table (cc_threshold c)
      in rbind (severity_for success (cc_eps_grid c) (cc_reference_eps c) (sc_severity (cc_scoring c))) (\<lambda>sev.
        Inr \<lparr>fi_attack = attack, fi_threshold = cc_threshold c, fi_clean_correct = ncc,
          fi_asr_by_eps = foldl (\<lambda>acc (e, v). case v of None \<Rightarrow> acc | Some a \<Rightarrow> dset (fmt_g e) a acc) [] table,
          fi_asr_reference = (case lookup_eps table (cc_reference_eps c) of Some (Some a) \<Rightarrow> Some a | _ \<Rightarrow> None),
          fi_first_success = success, fi_severity = sev,
          fi_confidence = confidence_for ncc (sc_confidence (cc_scoring c)),
          fi_crosses = (success \<noteq> None), fi_denominator_ok = (min_clean_correct \<le> ncc)\<rparr>))"

subsection \<open>Grades\<close>

datatype grade = GradeF | GradeD | GradeC | GradeB | GradeA

definition grade_for_mri :: "int \<Rightarrow> grade" where
  "grade_for_mri mri = (if 90 \<le> mri then GradeA else if 75 \<le> mri then GradeB else if 60 \<le> mri then GradeC
     else if 40 \<le> mri then GradeD else GradeF)"

definition grade_reading :: "grade \<Rightarrow> string" where
  "grade_reading g = (case g of
     GradeA \<Rightarrow> ''Under the in-scope attacks at the declared eps grid, accuracy and attributions were essentially unchanged on this slice.''
   | GradeB \<Rightarrow> ''Minor degradation under the strongest in-scope attack at the reference budget.''
   | GradeC \<Rightarrow> ''Substantial degradation under the in-scope iterative attack at the reference budget.''
   | GradeD \<Rightarrow> ''The cheapest in-scope attack succeeded at the reference budget on a large share of the slice.''
   | GradeF \<Rightarrow> ''Predictions flipped at the smallest eps in the declared grid on most of the slice.'')"

definition banned_score_words :: "string list" where
  "banned_score_words = [''hardened'', ''harden before fielding'', ''deployment-ready'', ''not deployment-ready'',
     ''certified'', ''safe'', ''fielding'']"

text \<open>\<open>\w\<close> on the code points below 256, the word boundary, and the search at every position.\<close>

definition word_char :: "char \<Rightarrow> bool" where
  "word_char c = (let n = of_char c :: int in
     (48 \<le> n \<and> n \<le> 57) \<or> (65 \<le> n \<and> n \<le> 90) \<or> n = 95 \<or> (97 \<le> n \<and> n \<le> 122) \<or>
     n \<in> {170, 178, 179, 181, 185, 186, 188, 189, 190} \<or> (192 \<le> n \<and> n \<noteq> 215 \<and> n \<noteq> 247))"

definition word_at :: "string \<Rightarrow> bool" where
  "word_at s = (case s of [] \<Rightarrow> False | c # _ \<Rightarrow> word_char c)"

fun search_words :: "string list \<Rightarrow> bool \<Rightarrow> string \<Rightarrow> bool" where
  "search_words ws before s =
     (list_ex (\<lambda>w. before \<noteq> word_at s \<and> starts_with w (lower s) \<and>
         word_at (rev (take (length w) s)) \<noteq> word_at (drop (length w) s)) ws \<or>
      (case s of [] \<Rightarrow> False | c # r \<Rightarrow> search_words ws (word_char c) r))"

definition contains_banned_score_word :: "string \<Rightarrow> bool" where
  "contains_banned_score_word s = search_words banned_score_words False s"

definition reading_for :: "grade \<Rightarrow> campaign_config \<Rightarrow> string option" where
  "reading_for g c =
     (let text = grade_reading g @ '' Scope: attacks '' @ join '', '' (cc_attack_ids c) @ ''; norm '' @ cc_norm c @
            ''; eps grid '' @ py_list py_repr (cc_eps_grid c) @ ''; reference eps '' @ fmt_g (cc_reference_eps c) @ ''.''
      in if contains_banned_score_word text then None else Some text)"

subsection \<open>The score record\<close>

datatype subscore = S_acc | S_asr | S_eps | S_conf | S_expl

definition subscore_keys :: "subscore list" where
  "subscore_keys = [S_acc, S_asr, S_eps, S_conf, S_expl]"

fun subscore_name :: "subscore \<Rightarrow> string" where
  "subscore_name S_acc = ''S_acc''" | "subscore_name S_asr = ''S_asr''" | "subscore_name S_eps = ''S_eps''"
| "subscore_name S_conf = ''S_conf''" | "subscore_name S_expl = ''S_expl''"

fun weight_of :: "weights \<Rightarrow> subscore \<Rightarrow> rat" where
  "weight_of w S_acc = wt_acc w" | "weight_of w S_asr = wt_asr w" | "weight_of w S_eps = wt_eps w"
| "weight_of w S_conf = wt_conf w" | "weight_of w S_expl = wt_expl w"

record scored =
  sv_value :: "rat option"
  sv_n :: "int option"
  sv_reason :: "string option"

record input_row =
  ir_attack :: string
  ir_eps :: rat
  ir_acc_clean :: rat
  ir_acc_adv :: rat
  ir_asr :: "rat option"
  ir_pert :: "rat option"
  ir_conf_gap :: "rat option"
  ir_expl_shift :: "rat option"
  ir_queries :: "rat option"
  ir_n :: int
  ir_correct_clean :: int
  ir_attacked :: int
  ir_explained :: "int option"

record mri_record =
  mr_version :: string
  mr_weights :: weights
  mr_eps_grid :: "rat list"
  mr_reference :: rat
  mr_norm :: string
  mr_attacks :: "string list"
  mr_threshold :: rat
  mr_hash :: string
  mr_inputs :: "input_row list"
  mr_per_attack :: "(string, (subscore, scored) dict) dict"
  mr_subscores :: "(subscore, rat option) dict"
  mr_mri :: "int option"
  mr_grade :: "grade option"
  mr_complete :: bool
  mr_missing :: "string list"
  mr_reading :: "string option"
  mr_computed_at :: int

definition subscore_of :: "mri_record \<Rightarrow> subscore \<Rightarrow> rat option" where
  "subscore_of r k = (case dget (mr_subscores r) k of Some v \<Rightarrow> v | None \<Rightarrow> None)"

text \<open>The validator of \<open>MRIRecord\<close>.\<close>

definition record_valid :: "mri_record \<Rightarrow> bool" where
  "record_valid r \<longleftrightarrow>
     (case mr_mri r of
        Some m \<Rightarrow> 0 \<le> m \<and> m \<le> 100 \<and> list_all (\<lambda>k. subscore_of r k \<noteq> None) subscore_keys \<and> mr_complete r \<and>
          mr_grade r = Some (grade_for_mri m)
      | None \<Rightarrow> mr_grade r = None \<and> \<not> mr_complete r \<and> mr_missing r \<noteq> []) \<and>
     (case mr_reading r of None \<Rightarrow> True | Some t \<Rightarrow> \<not> contains_banned_score_word t)"

subsection \<open>Scoring a run\<close>

datatype score_error =
    BadVersion string
  | NoCleanRow
  | PartialRun string rat
  | RowMissing rat
  | EmptyCurve
  | BannedReading
  | InvalidRecord

definition input_row_of :: "measurement \<Rightarrow> string \<Rightarrow> rat \<Rightarrow> measurement \<Rightarrow> input_row" where
  "input_row_of clean a e m =
     \<lparr>ir_attack = a, ir_eps = e, ir_acc_clean = me_accuracy clean, ir_acc_adv = me_accuracy m, ir_asr = me_asr m,
      ir_pert = me_pert m, ir_conf_gap = me_conf_gap m, ir_expl_shift = me_expl_shift m, ir_queries = me_queries m,
      ir_n = me_n m, ir_correct_clean = me_correct clean, ir_attacked = me_n m, ir_explained = me_expl_shift_n m\<rparr>"

fun result_list :: "('e, 'a) result list \<Rightarrow> ('e, 'a list) result" where
  "result_list [] = Inr []"
| "result_list (x # xs) = rbind x (\<lambda>a. rbind (result_list xs) (\<lambda>as. Inr (a # as)))"

definition input_rows :: "campaign_config \<Rightarrow> measurement list \<Rightarrow> (score_error, input_row list) result" where
  "input_rows c ms = (case clean_row ms of
      None \<Rightarrow> Inl NoCleanRow
    | Some clean \<Rightarrow> result_list (concat (map (\<lambda>a. map (\<lambda>e.
          case lookup_eps (evasion_rows ms a) e of
            None \<Rightarrow> Inl (PartialRun a e) | Some m \<Rightarrow> Inr (input_row_of clean a e m))
        (cc_eps_grid c)) (dedup (cc_attack_ids c)))))"

definition row_at :: "rows \<Rightarrow> rat \<Rightarrow> (score_error, measurement) result" where
  "row_at rs e = (case lookup_eps rs e of None \<Rightarrow> Inl (RowMissing e) | Some m \<Rightarrow> Inr m)"

definition scored_value :: "rat \<Rightarrow> int option \<Rightarrow> rat option \<times> scored" where
  "scored_value f n = (Some f, \<lparr>sv_value = Some (py_round_to 1 (fmul 100 f)), sv_n = n, sv_reason = None\<rparr>)"

definition unscored :: "int option \<Rightarrow> string \<Rightarrow> rat option \<times> scored" where
  "unscored n why = (None, \<lparr>sv_value = None, sv_n = n, sv_reason = Some why\<rparr>)"

definition list_min :: "rat list \<Rightarrow> rat" where
  "list_min xs = foldl min (hd xs) (tl xs)"

type_synonym dimension = "rat option \<times> scored"

definition accuracy_ratios :: "measurement \<Rightarrow> measurement list \<Rightarrow> rat list" where
  "accuracy_ratios clean ms = map (\<lambda>m. clamp01 (fdiv (me_accuracy m) (me_accuracy clean))) ms"

definition asr_dimension :: "rat \<Rightarrow> measurement \<Rightarrow> dimension" where
  "asr_dimension reference ref_row = (case me_asr ref_row of
      None \<Rightarrow> unscored (me_clean_correct ref_row) (''asr undefined at eps '' @ fmt_g reference @ '' (n_clean_correct == 0)'')
    | Some asr \<Rightarrow> scored_value (fsub 1 (clamp01 asr)) (me_clean_correct ref_row))"

definition no_clean_reason :: "measurement \<Rightarrow> string" where
  "no_clean_reason clean =
     ''acc_clean == 0 (m.clean.n_correct = '' @ dec (me_correct clean) @ ''/'' @ dec (me_n clean) @ ''; denominator 0)''"

text \<open>Accuracy ratio, area under the curve and attack success, against the clean row.\<close>

definition clean_dimensions :: "rat list \<Rightarrow> rat \<Rightarrow> measurement \<Rightarrow> rows \<Rightarrow> measurement
    \<Rightarrow> (score_error, (subscore, dimension) dict) result" where
  "clean_dimensions grid reference clean rs ref_row =
     (if me_accuracy clean \<le> 0 \<or> me_correct clean \<le> 0 then
        Inr [(S_acc, unscored (Some (me_n clean)) (no_clean_reason clean)),
             (S_eps, unscored (Some (me_n clean)) (no_clean_reason clean)),
             (S_asr, unscored (Some (me_correct clean)) (no_clean_reason clean))]
      else rbind (result_list (map (row_at rs) grid)) (\<lambda>grid_rows.
        case trapezoid_auc_normalized grid (accuracy_ratios clean grid_rows) of
          None \<Rightarrow> Inl EmptyCurve
        | Some auc \<Rightarrow> Inr [(S_acc, scored_value (list_min (accuracy_ratios clean grid_rows)) (Some (me_n clean))),
            (S_eps, scored_value (clamp01 auc) (Some (me_n clean))), (S_asr, asr_dimension reference ref_row)]))"

definition conf_dimension :: "rat \<Rightarrow> measurement \<Rightarrow> dimension" where
  "conf_dimension reference ref_row = (case me_conf_gap ref_row of
      None \<Rightarrow> unscored (me_conf_gap_n ref_row) (''conf_gap_mean missing at eps '' @ fmt_g reference)
    | Some g \<Rightarrow> scored_value (fsub 1 (clamp01 g)) (me_conf_gap_n ref_row))"

definition expl_dimension :: "rat \<Rightarrow> measurement \<Rightarrow> dimension" where
  "expl_dimension reference ref_row = (case me_expl_shift ref_row of
      None \<Rightarrow> unscored (me_expl_shift_n ref_row) (''explanation stability unavailable (no expl_shift_mean at eps '' @
        fmt_g reference @ '': explain stage not run, unsupported or failed)'')
    | Some g \<Rightarrow> scored_value (fsub 1 (clamp01 g)) (me_expl_shift_n ref_row))"

definition attack_dimensions :: "rat list \<Rightarrow> rat \<Rightarrow> measurement \<Rightarrow> rows \<Rightarrow> (score_error, (subscore, dimension) dict) result" where
  "attack_dimensions grid reference clean rs =
     rbind (row_at rs reference) (\<lambda>ref_row.
       rbind (clean_dimensions grid reference clean rs ref_row) (\<lambda>ds.
         Inr (ds @ [(S_conf, conf_dimension reference ref_row), (S_expl, expl_dimension reference ref_row)])))"

definition dimension_of :: "(subscore, dimension) dict \<Rightarrow> subscore \<Rightarrow> dimension" where
  "dimension_of ds k = the (dget ds k)"

text \<open>The mean of a dimension over the attacks, or the reasons it has none.\<close>

type_synonym attack_table = "(string, (subscore, dimension) dict) dict"

definition unavailable :: "attack_table \<Rightarrow> subscore \<Rightarrow> string list" where
  "unavailable table k = concat (map (\<lambda>(a, ds). case dimension_of ds k of
      (None, s) \<Rightarrow> [a @ '': '' @ (case sv_reason s of Some r \<Rightarrow> r | None \<Rightarrow> ''None'')] | _ \<Rightarrow> []) table)"

definition dimension_value :: "attack_table \<Rightarrow> subscore \<Rightarrow> rat option" where
  "dimension_value table k =
     (if unavailable table k \<noteq> [] then None
      else let present = List.map_filter (\<lambda>(a, ds). fst (dimension_of ds k)) table in
        Some (py_round_to 1 (fdiv (fmul 100 (py_sum present)) (of_int (int (length present))))))"

definition missing_dimensions :: "attack_table \<Rightarrow> string list" where
  "missing_dimensions table = map (\<lambda>k. subscore_name k @ '' unavailable ('' @ join ''; '' (unavailable table k) @ '')'')
     (filter (\<lambda>k. unavailable table k \<noteq> []) subscore_keys)"

definition weighted_sum :: "weights \<Rightarrow> (subscore \<Rightarrow> rat) \<Rightarrow> rat" where
  "weighted_sum w v = py_sum (map (\<lambda>k. fmul (weight_of w k) (v k)) subscore_keys)"

definition partial_reason :: "string list \<Rightarrow> (subscore \<Rightarrow> rat option) \<Rightarrow> string" where
  "partial_reason missing v =
     (let avail = concat (map (\<lambda>k. case v k of None \<Rightarrow> [] | Some x \<Rightarrow> [subscore_name k @ ''='' @ fmt_fixed 1 x]) subscore_keys)
      in ''MRI not computed: '' @ join ''; '' missing @ ''. Available subscores (weights not renormalised): '' @
         (if avail = [] then ''none'' else join '', '' avail) @ ''.'')"

definition finished_record :: "campaign_config \<Rightarrow> string \<Rightarrow> int \<Rightarrow> input_row list \<Rightarrow> attack_table
    \<Rightarrow> (score_error, mri_record \<times> string option) result" where
  "finished_record c shash now inputs table =
     (let missing = missing_dimensions table;
          v = dimension_value table;
          base = \<lparr>mr_version = sc_version (cc_scoring c), mr_weights = sc_weights (cc_scoring c), mr_eps_grid = cc_eps_grid c,
            mr_reference = cc_reference_eps c, mr_norm = cc_norm c, mr_attacks = dedup (cc_attack_ids c),
            mr_threshold = cc_threshold c, mr_hash = shash, mr_inputs = inputs,
            mr_per_attack = map (\<lambda>(a, ds). (a, map (\<lambda>k. (k, snd (dimension_of ds k))) subscore_keys)) table,
            mr_subscores = map (\<lambda>k. (k, v k)) subscore_keys,
            mr_mri = None, mr_grade = None, mr_complete = False, mr_missing = missing, mr_reading = None, mr_computed_at = now\<rparr>
      in if missing \<noteq> [] then Inr (base, Some (partial_reason missing v))
         else (let mri = max 0 (min 100 (py_round (weighted_sum (sc_weights (cc_scoring c)) (\<lambda>k. the (v k))))) in
           case reading_for (grade_for_mri mri) c of
             None \<Rightarrow> Inl BannedReading
           | Some text \<Rightarrow> Inr (base\<lparr>mr_mri := Some mri, mr_grade := Some (grade_for_mri mri), mr_complete := True,
               mr_missing := [], mr_reading := Some text\<rparr>, None)))"

definition gaps :: "rows \<Rightarrow> rat list \<Rightarrow> rat list" where
  "gaps rs grid = filter (\<lambda>e. lookup_eps rs e = None) grid"

definition gap_reason :: "string \<Rightarrow> rows \<Rightarrow> rat list \<Rightarrow> string" where
  "gap_reason a rs grid =
     (if length (gaps rs grid) = length grid
      then ''MRI not computed: partial run; attack '' @ py_repr_str a @ '' has no evasion rows. No subscore is reported for a partial run.''
      else ''MRI not computed: partial run; attack '' @ py_repr_str a @ '' has no row at eps '' @
        join '', '' (map fmt_g (gaps rs grid)) @ ''. No subscore is reported for a partial run.'')"

definition has_gap :: "measurement list \<Rightarrow> rat list \<Rightarrow> string \<Rightarrow> bool" where
  "has_gap ms grid a \<longleftrightarrow> length (gaps (evasion_rows ms a) grid) = length grid \<or> gaps (evasion_rows ms a) grid \<noteq> []"

definition score_run :: "campaign_config \<Rightarrow> measurement list \<Rightarrow> string \<Rightarrow> int
    \<Rightarrow> (score_error, mri_record option \<times> string option) result" where
  "score_run c ms shash now =
     (if sc_version (cc_scoring c) \<noteq> ''mri-1'' then Inl (BadVersion (sc_version (cc_scoring c)))
      else case clean_row ms of
        None \<Rightarrow> Inr (None, Some ''MRI not computed: no clean row (m.clean) among the measurements; nothing to score against.'')
      | Some clean \<Rightarrow>
          let grid = cc_eps_grid c; attacks = dedup (cc_attack_ids c) in
          (case find (has_gap ms grid) attacks of
             Some a \<Rightarrow> Inr (None, Some (gap_reason a (evasion_rows ms a) grid))
           | None \<Rightarrow>
               rbind (input_rows c ms) (\<lambda>inputs.
               rbind (result_list (map (\<lambda>a. rbind (attack_dimensions grid (cc_reference_eps c) clean (evasion_rows ms a))
                   (\<lambda>ds. Inr (a, ds))) attacks)) (\<lambda>table.
               rbind (finished_record c shash now inputs table) (\<lambda>(r, why).
                 if record_valid r then Inr (Some r, why) else Inl InvalidRecord)))))"

subsection \<open>Robustness curves\<close>

record curve_point =
  cp_eps :: rat
  cp_n :: int
  cp_correct :: int
  cp_accuracy :: "rat option"
  cp_clean_correct :: "int option"
  cp_flipped :: "int option"
  cp_asr :: "rat option"

record accuracy_point =
  ap_n :: int
  ap_correct :: int
  ap_accuracy :: "rat option"

record robustness_curve =
  rc_attack :: string
  rc_norm :: string
  rc_eps_grid :: "rat list"
  rc_reference :: rat
  rc_clean :: accuracy_point
  rc_points :: "curve_point list"
  rc_control :: "curve_point list"

definition curve_point_of :: "rat \<Rightarrow> measurement \<Rightarrow> curve_point" where
  "curve_point_of e m = \<lparr>cp_eps = e, cp_n = me_n m, cp_correct = me_correct m,
     cp_accuracy = (if 0 < me_n m then Some (me_accuracy m) else None),
     cp_clean_correct = me_clean_correct m, cp_flipped = me_flipped m, cp_asr = me_asr m\<rparr>"

definition curve_points :: "rat list \<Rightarrow> rows \<Rightarrow> curve_point list" where
  "curve_points grid rs = List.map_filter (\<lambda>e. map_option (curve_point_of e) (lookup_eps rs e)) grid"

definition robustness_curve_of :: "campaign_config \<Rightarrow> measurement list \<Rightarrow> string \<Rightarrow> (score_error, robustness_curve) result" where
  "robustness_curve_of c ms attack = (case clean_row ms of
      None \<Rightarrow> Inl NoCleanRow
    | Some clean \<Rightarrow> Inr \<lparr>rc_attack = attack, rc_norm = cc_norm c, rc_eps_grid = cc_eps_grid c,
        rc_reference = cc_reference_eps c,
        rc_clean = \<lparr>ap_n = me_n clean, ap_correct = me_correct clean,
          ap_accuracy = (if 0 < me_n clean then Some (me_accuracy clean) else None)\<rparr>,
        rc_points = curve_points (cc_eps_grid c) (evasion_rows ms attack),
        rc_control = curve_points (cc_eps_grid c) (control_rows ms)\<rparr>)"

definition robustness_curves :: "campaign_config \<Rightarrow> measurement list \<Rightarrow> (score_error, robustness_curve list) result" where
  "robustness_curves c ms = result_list (map (robustness_curve_of c ms) (dedup (cc_attack_ids c)))"

subsection \<open>Looking a budget up\<close>

lemma same_eps_refl [simp]: "same_eps e e"
  by (simp add: same_eps_def)

lemma lookup_eps_None: "lookup_eps rs e = None \<longleftrightarrow> (\<forall>k \<in> set (map fst rs). \<not> same_eps k e)"
  by (auto simp: lookup_eps_def find_None_iff)

lemma result_list_ok: "list_all is_ok xs \<Longrightarrow> \<exists>ys. result_list xs = Inr ys \<and> map Inr ys = xs"
proof (induction xs)
  case (Cons x xs)
  then obtain a ys where "x = Inr a" "result_list xs = Inr ys" "map Inr ys = xs" by (auto simp: is_ok_iff)
  then show ?case by simp
qed simp

subsection \<open>Severity\<close>

lemma eps_bands_total: "grid \<noteq> [] \<Longrightarrow> \<exists>b. eps_bands grid r = Some b"
  by (simp add: eps_bands_def Let_def) (metis length_0_conv length_sort)

lemma eps_bands_mid: "eps_bands grid r = Some (small, mid, large) \<Longrightarrow> small \<le> mid"
proof -
  assume a: "eps_bands grid r = Some (small, mid, large)"
  let ?g = "sort grid"
  have g: "?g \<noteq> []" and s: "small = ?g ! 0"
    and m: "mid = r \<and> small < r \<or> mid = ?g ! (length grid div 2)"
    using a by (auto simp: eps_bands_def Let_def hd_conv_nth split: if_splits)
  have "?g ! 0 \<le> ?g ! (length grid div 2)"
    using g by (intro sorted_nth_mono) (auto simp: length_greater_0_conv [symmetric] simp del: length_greater_0_conv)
  then show ?thesis using s m by auto
qed

lemma crossing_severity_anti:
  assumes "st_mid t \<le> st_high t" "small \<le> mid" "eps \<le> eps'" "asr' \<le> asr"
  shows "crossing_severity t small mid eps' asr' \<le> crossing_severity t small mid eps asr"
proof -
  have "fadd small (fl (1 / 10 ^ 12)) \<le> fadd mid (fl (1 / 10 ^ 12))"
    unfolding fadd_def using assms(2) by (intro fl_mono) simp
  then show ?thesis using assms by (auto simp: crossing_severity_def less_eq_severity_def)
qed

text \<open>The derived severity is consistent with the measurements: an attack that first succeeds at a
  smaller budget, with at least the same success rate there, is never rated below the other, as long as the
  middle threshold does not exceed the high one; an attack that never crosses the threshold has no severity.\<close>

theorem severity_consistent:
  assumes "st_mid t \<le> st_high t" "eps \<le> eps'" "asr' \<le> asr"
    and "severity_for (Some (eps, asr)) grid r t = Inr (Some s)"
    and "severity_for (Some (eps', asr')) grid r t = Inr (Some s')"
  shows "s' \<le> s \<and> severity_for None grid r t = Inr None"
proof -
  obtain small mid large where b: "eps_bands grid r = Some (small, mid, large)"
    using assms(4) by (auto simp: severity_for_def split: option.splits)
  with assms show ?thesis
    using crossing_severity_anti [OF assms(1) eps_bands_mid [OF b] assms(2,3)]
    by (simp add: severity_for_def)
qed

definition default_thresholds :: severity_thresholds where
  "default_thresholds = \<lparr>st_high = fl (5/10), st_mid = fl (2/10)\<rparr>"

lemma severity_consistent_witness: "Low \<le> Critical"
proof -
  have "severity_for (Some (fl (1/100), 9/10)) default_eps_grid_linf (fl (3/100)) default_thresholds = Inr (Some Critical)"
    "severity_for (Some (fl (1/10), 3/10)) default_eps_grid_linf (fl (3/100)) default_thresholds = Inr (Some Low)"
    "st_mid default_thresholds \<le> st_high default_thresholds" "fl (1/100) \<le> fl (1/10)"
    by code_simp+
  then show ?thesis
    using severity_consistent [of default_thresholds "fl (1/100)" "fl (1/10)" "3/10" "9/10"
        default_eps_grid_linf "fl (3/100)" Critical Low] by simp
qed

subsection \<open>The first success\<close>

lemma find_sorted_least:
  "sorted xs \<Longrightarrow> find P xs = Some x \<Longrightarrow> P x \<and> x \<in> set xs \<and> (\<forall>y \<in> set xs. y < x \<longrightarrow> \<not> P y)"
  by (induction xs) (auto split: if_splits)

definition crosses :: "(rat, rat option) dict \<Rightarrow> rat \<Rightarrow> rat \<Rightarrow> bool" where
  "crosses table threshold e \<longleftrightarrow> (case lookup_eps table e of Some (Some asr) \<Rightarrow> threshold \<le> asr | _ \<Rightarrow> False)"

lemma first_success_alt:
  "first_success table threshold = (case find (crosses table threshold) (sort (map fst table)) of
      None \<Rightarrow> None
    | Some e \<Rightarrow> (case lookup_eps table e of Some (Some asr) \<Rightarrow> Some (e, asr) | _ \<Rightarrow> None))"
  unfolding first_success_def crosses_def [abs_def] ..

lemma first_success_None:
  "first_success table threshold = None \<longleftrightarrow> (\<forall>e \<in> set (map fst table). \<not> crosses table threshold e)"
proof (cases "find (crosses table threshold) (sort (map fst table))")
  case None
  then have "\<forall>e \<in> set (map fst table). \<not> crosses table threshold e" by (simp add: find_None_iff)
  then show ?thesis using None by (simp add: first_success_alt)
next
  case (Some e)
  then have "crosses table threshold e" "e \<in> set (map fst table)"
    using find_sorted_least [OF sorted_sort Some] by auto
  then show ?thesis using Some
    by (auto simp: first_success_alt crosses_def split: option.splits)
qed

lemma first_success_Some:
  assumes "first_success table threshold = Some (e, a)"
  shows "e \<in> set (map fst table) \<and> lookup_eps table e = Some (Some a) \<and> threshold \<le> a \<and>
    (\<forall>e' \<in> set (map fst table). e' < e \<longrightarrow> \<not> crosses table threshold e')"
proof -
  obtain x where x: "find (crosses table threshold) (sort (map fst table)) = Some x"
    using assms by (auto simp: first_success_alt split: option.splits)
  have l: "crosses table threshold x" "x \<in> set (map fst table)"
    "\<forall>y \<in> set (map fst table). y < x \<longrightarrow> \<not> crosses table threshold y"
    using find_sorted_least [OF sorted_sort x] by auto
  have "x = e \<and> lookup_eps table e = Some (Some a)"
    using assms x by (auto simp: first_success_alt split: option.splits)
  with l show ?thesis by (auto simp: crosses_def)
qed

text \<open>The finding of an attack is derived from its rows alone and never raises on an admitted
  configuration: without a budget whose success rate reaches the threshold there is no severity and no
  crossing; otherwise the recorded budget is the smallest such one, with its own success rate, and the
  severity is the derived one.\<close>

theorem finding_derivation:
  assumes "config_valid c"
  shows "\<exists>f. finding_inputs_of c ms a = Inr f \<and>
    (case fi_first_success f of
       None \<Rightarrow> fi_severity f = None \<and> \<not> fi_crosses f \<and>
         (\<forall>e \<in> set (map fst (asr_by_eps ms a)). \<not> crosses (asr_by_eps ms a) (cc_threshold c) e)
     | Some (e, asr) \<Rightarrow> fi_crosses f \<and> e \<in> set (map fst (asr_by_eps ms a)) \<and>
         lookup_eps (asr_by_eps ms a) e = Some (Some asr) \<and> cc_threshold c \<le> asr \<and>
         (\<forall>e' \<in> set (map fst (asr_by_eps ms a)). e' < e \<longrightarrow> \<not> crosses (asr_by_eps ms a) (cc_threshold c) e') \<and>
         severity_for (Some (e, asr)) (cc_eps_grid c) (cc_reference_eps c) (sc_severity (cc_scoring c)) = Inr (fi_severity f) \<and>
         fi_severity f \<noteq> None)"
proof -
  have "cc_eps_grid c \<noteq> []" using assms by (simp add: config_valid_def)
  then obtain bands where b: "eps_bands (cc_eps_grid c) (cc_reference_eps c) = Some bands"
    using eps_bands_total by blast
  obtain small mid large where bands: "bands = (small, mid, large)" by (cases bands)
  show ?thesis
  proof (cases "first_success (asr_by_eps ms a) (cc_threshold c)")
    case None
    then show ?thesis using first_success_None [of "asr_by_eps ms a" "cc_threshold c"]
      by (simp add: finding_inputs_of_def severity_for_def Let_def)
  next
    case (Some p)
    obtain e asr where p: "p = (e, asr)" by (cases p)
    show ?thesis using first_success_Some [OF Some [unfolded p]] b bands Some p
      by (simp add: finding_inputs_of_def severity_for_def Let_def)
  qed
qed

definition ex_scoring :: scoring_config where
  "ex_scoring = \<lparr>sc_version = ''mri-1'', sc_weights = default_weights, sc_severity = default_thresholds,
     sc_confidence = \<lparr>ct_high = 100, ct_medium = 30\<rparr>\<rparr>"

definition ex_campaign :: campaign_config where
  "ex_campaign = \<lparr>cc_attack_ids = [''fgsm''], cc_norm = ''linf'', cc_eps_grid = default_eps_grid_linf,
     cc_reference_eps = fl (3/100), cc_threshold = fl (2/10), cc_scoring = ex_scoring\<rparr>"

lemma ex_campaign_valid: "config_valid ex_campaign"
  by code_simp

lemma finding_derivation_witness: "\<exists>f. finding_inputs_of ex_campaign [] ''fgsm'' = Inr f"
  using finding_derivation [OF ex_campaign_valid, of "[]" "''fgsm''"] by blast

subsection \<open>The scale of the subscores\<close>

definition unit_interval :: "rat \<Rightarrow> bool" where
  "unit_interval x \<longleftrightarrow> 0 \<le> x \<and> x \<le> 1"

lemma unit_clamp01 [simp]: "unit_interval (clamp01 v)"
  by (auto simp: unit_interval_def clamp01_def)

lemma unit_complement: "unit_interval x \<Longrightarrow> unit_interval (fsub 1 x)"
  unfolding unit_interval_def fsub_def using flr.r_unit [of "1 - x"] by auto

lemma unit_list_min: "xs \<noteq> [] \<Longrightarrow> list_all unit_interval xs \<Longrightarrow> unit_interval (list_min xs)"
proof -
  have "unit_interval (foldl min a ys)" if "unit_interval a" "list_all unit_interval ys" for a ys
    using that by (induction ys arbitrary: a) (auto simp: min_def)
  then show "xs \<noteq> [] \<Longrightarrow> list_all unit_interval xs \<Longrightarrow> unit_interval (list_min xs)"
    by (cases xs) (auto simp: list_min_def)
qed

lemma near_to_100:
  assumes "- 1 / 500 \<le> x" "x \<le> 100 + 1 / 500"
  shows "0 \<le> py_round_to 1 x \<and> py_round_to 1 x \<le> 100"
proof -
  have "\<bar>of_int (rhe (x * 10)) - x * 10\<bar> \<le> 1 / 2" by (rule rhe_error)
  then have "- 1 < (of_int (rhe (x * 10)) :: rat)" "(of_int (rhe (x * 10)) :: rat) < 1001"
    using assms by linarith+
  then have "(of_int (-1) :: rat) < of_int (rhe (x * 10))" "(of_int (rhe (x * 10)) :: rat) < of_int 1001" by simp_all
  then have "0 \<le> rhe (x * 10)" "rhe (x * 10) \<le> 1000" by (simp_all only: of_int_less_iff)
  then have "0 \<le> (of_int (rhe (x * 10)) :: rat)" "(of_int (rhe (x * 10)) :: rat) \<le> of_int 1000"
    by (simp, simp only: of_int_le_iff)
  then have "0 \<le> of_int (rhe (x * 10)) / (10 :: rat)" "of_int (rhe (x * 10)) / 10 \<le> (100 :: rat)" by auto
  then show ?thesis using fl_nonneg fl_mono [of _ 100] by (simp add: py_round_to_def)
qed

lemma percent_error:
  fixes N q a :: rat
  assumes "1 \<le> N" "- N / 2 ^ 26 \<le> q" "q \<le> N + N / 2 ^ 26" "\<bar>a - 100 * q\<bar> \<le> \<bar>100 * q\<bar> / 2 ^ 53 + 1 / 2 ^ 100"
  shows "- 1 / 1000 \<le> a / N \<and> a / N \<le> 100 + 1 / 1000"
proof -
  have "\<bar>100 * q\<bar> \<le> 101 * N" using assms(1-3) by (simp add: abs_le_iff)
  then have "\<bar>100 * q\<bar> / 2 ^ 53 \<le> 101 * N / 2 ^ 53" by (rule divide_right_mono) simp
  then have "\<bar>a - 100 * q\<bar> \<le> 101 * N / 2 ^ 53 + 1 / 2 ^ 100" using assms(4) by linarith
  then have "- N / 1000 \<le> a" "a \<le> (100 + 1 / 1000) * N" using assms(1-3) by (simp_all add: abs_le_iff)
  then show ?thesis using assms(1) by (simp add: pos_le_divide_eq pos_divide_le_eq)
qed

lemma fl_near_100: "- 1 / 1000 \<le> x \<Longrightarrow> x \<le> 100 + 1 / 1000 \<Longrightarrow> - 1 / 500 \<le> fl x \<and> fl x \<le> 100 + 1 / 500"
proof -
  assume x: "- 1 / 1000 \<le> x" "x \<le> 100 + 1 / 1000"
  then have "\<bar>fl x - x\<bar> \<le> 101 / 2 ^ 52" by (intro fl_error_le) auto
  then have "\<bar>fl x - x\<bar> \<le> 1 / 1000" by simp
  with x show ?thesis by linarith
qed

text \<open>The mean of numbers in the unit interval, as the code computes it, is a percentage.\<close>

lemma mean_scale:
  assumes xs: "xs \<noteq> []" "list_all unit_interval xs" and len: "length xs \<le> 2 ^ 20"
  shows "0 \<le> py_round_to 1 (fdiv (fmul 100 (py_sum xs)) (of_int (int (length xs)))) \<and>
    py_round_to 1 (fdiv (fmul 100 (py_sum xs)) (of_int (int (length xs)))) \<le> 100"
proof -
  let ?N = "of_nat (length xs) :: rat" and ?q = "py_sum xs"
  have N: "1 \<le> ?N" using xs(1) by (cases xs) auto
  have "(of_nat (length xs) :: rat) \<le> of_nat (2 ^ 20)" using len by (simp only: of_nat_le_iff)
  then have N20: "?N \<le> 2 ^ 20" by simp
  have s: "0 \<le> sum_list xs" "sum_list xs \<le> ?N" "sum_list (map abs xs) = sum_list xs"
    using xs(2) by (induction xs) (auto simp: unit_interval_def)
  have sq: "?N * ?N \<le> 2 ^ 20 * ?N" using N N20 by (intro mult_right_mono) auto
  have "\<bar>?q - sum_list xs\<bar> \<le> (5 * ?N + 1) * ((?N + 1) / 2 ^ 50)"
    using s N N20 sq by (intro py_sum_error) (auto simp: field_simps)
  also have "(5 * ?N + 1) * ((?N + 1) / 2 ^ 50) = (5 * (?N * ?N) + 6 * ?N + 1) / 2 ^ 50"
    by (simp add: field_simps)
  also have "\<dots> \<le> ?N / 2 ^ 26" using N sq by simp
  finally have q: "- ?N / 2 ^ 26 \<le> ?q" "?q \<le> ?N + ?N / 2 ^ 26" using s by linarith+
  have "\<bar>fmul 100 ?q - 100 * ?q\<bar> \<le> \<bar>100 * ?q\<bar> / 2 ^ 53 + 1 / 2 ^ 100"
    unfolding fmul_def by (rule fl_error)
  then have "- 1 / 1000 \<le> fmul 100 ?q / ?N" "fmul 100 ?q / ?N \<le> 100 + 1 / 1000"
    using percent_error [OF N q] by auto
  then have "- 1 / 500 \<le> fdiv (fmul 100 ?q) ?N" "fdiv (fmul 100 ?q) ?N \<le> 100 + 1 / 500"
    using fl_near_100 [of "fmul 100 ?q / ?N"] unfolding fdiv_def by simp_all
  then show ?thesis using near_to_100 by simp
qed

subsection \<open>The dimensions of an attack\<close>

definition good_dimension :: "dimension \<Rightarrow> bool" where
  "good_dimension d \<longleftrightarrow> (case fst d of None \<Rightarrow> sv_value (snd d) = None
     | Some f \<Rightarrow> unit_interval f \<and> sv_value (snd d) \<noteq> None)"

lemma good_scored [simp]: "unit_interval f \<Longrightarrow> good_dimension (scored_value f n)"
  by (simp add: good_dimension_def scored_value_def)

lemma good_unscored [simp]: "good_dimension (unscored n why)"
  by (simp add: good_dimension_def unscored_def)

lemma good_conf [simp]: "good_dimension (conf_dimension r m)" and good_expl [simp]: "good_dimension (expl_dimension r m)"
  and good_asr [simp]: "good_dimension (asr_dimension r m)"
  by (simp_all add: conf_dimension_def expl_dimension_def asr_dimension_def unit_complement split: option.split)

lemma unit_ratios: "list_all unit_interval (accuracy_ratios clean ms)"
  by (simp add: accuracy_ratios_def list_all_iff)

lemma trapezoid_total:
  assumes "length xs = length ys" "xs \<noteq> []"
  shows "\<exists>v. trapezoid_auc_normalized xs ys = Some v"
proof -
  have "sort (zip xs ys) \<noteq> []" using assms by (metis length_0_conv length_sort length_zip min.idem)
  then show ?thesis using assms(1) by (simp add: trapezoid_auc_normalized_def Let_def)
qed

lemma trapezoid_Nil: "trapezoid_auc_normalized xs [] = None"
  by (simp add: trapezoid_auc_normalized_def)

lemma clean_dimensions_good:
  assumes "clean_dimensions grid r clean rs m = Inr ds"
  shows "map fst ds = [S_acc, S_eps, S_asr] \<and> list_all (\<lambda>kd. good_dimension (snd kd)) ds"
proof (cases "me_accuracy clean \<le> 0 \<or> me_correct clean \<le> 0")
  case True
  with assms show ?thesis by (auto simp: clean_dimensions_def)
next
  case False
  with assms obtain gs where a: "(case trapezoid_auc_normalized grid (accuracy_ratios clean gs) of
          None \<Rightarrow> Inl EmptyCurve
        | Some auc \<Rightarrow> Inr [(S_acc, scored_value (list_min (accuracy_ratios clean gs)) (Some (me_n clean))),
            (S_eps, scored_value (clamp01 auc) (Some (me_n clean))), (S_asr, asr_dimension r m)]) = Inr ds"
    unfolding clean_dimensions_def by auto
  then have "accuracy_ratios clean gs \<noteq> []" by (auto simp: trapezoid_Nil)
  then have "unit_interval (list_min (accuracy_ratios clean gs))" using unit_list_min unit_ratios by blast
  then show ?thesis using a by (auto split: option.splits)
qed

definition good_table :: "(subscore, dimension) dict \<Rightarrow> bool" where
  "good_table ds \<longleftrightarrow> (\<forall>k. \<exists>d. dget ds k = Some d \<and> good_dimension d)"

lemma attack_dimensions_good:
  "attack_dimensions grid r clean rs = Inr ds \<Longrightarrow> good_table ds"
proof -
  assume "attack_dimensions grid r clean rs = Inr ds"
  then obtain m ds0 where "clean_dimensions grid r clean rs m = Inr ds0"
    and ds: "ds = ds0 @ [(S_conf, conf_dimension r m), (S_expl, expl_dimension r m)]"
    by (auto simp: attack_dimensions_def)
  then have g: "map fst ds0 = [S_acc, S_eps, S_asr]" "list_all (\<lambda>kd. good_dimension (snd kd)) ds0"
    using clean_dimensions_good by blast+
  have "\<exists>d. dget ds k = Some d" for k
  proof -
    have "k \<in> set (map fst ds)" using g(1) by (cases k) (simp_all add: ds)
    then show ?thesis by (metis map_of_eq_None_iff not_None_eq set_map)
  qed
  moreover have "good_dimension d" if "dget ds k = Some d" for k d
    using map_of_SomeD [OF that] g(2) by (auto simp: ds list_all_iff)
  ultimately show ?thesis unfolding good_table_def by blast
qed

lemma attack_dimensions_total:
  assumes "grid \<noteq> []" "r \<in> set grid" "\<forall>e \<in> set grid. lookup_eps rs e \<noteq> None"
  shows "\<exists>ds. attack_dimensions grid r clean rs = Inr ds"
proof -
  obtain m where m: "row_at rs r = Inr m" using assms by (auto simp: row_at_def)
  have "list_all is_ok (map (row_at rs) grid)"
    using assms(3) by (auto simp: list_all_iff row_at_def split: option.splits)
  from result_list_ok [OF this] obtain gs where gs: "result_list (map (row_at rs) grid) = Inr gs" "map Inr gs = map (row_at rs) grid"
    by blast
  have "length gs = length grid" using arg_cong [OF gs(2), of length] by simp
  then obtain auc where "trapezoid_auc_normalized grid (accuracy_ratios clean gs) = Some auc"
    using trapezoid_total [of grid "accuracy_ratios clean gs"] assms(1) by (auto simp: accuracy_ratios_def)
  then have "\<exists>ds. clean_dimensions grid r clean rs m = Inr ds"
    using gs(1) by (simp add: clean_dimensions_def)
  then show ?thesis using m by (auto simp: attack_dimensions_def)
qed

lemma keyed_result_list:
  "result_list (map (\<lambda>a. rbind (f a) (\<lambda>d. Inr (a, d))) xs) = Inr table \<Longrightarrow>
    map fst table = xs \<and> list_all (\<lambda>(a, d). f a = Inr d) table"
  by (induction xs arbitrary: table) auto

subsection \<open>The finished record\<close>

lemma unavailable_Nil: "unavailable table k = [] \<longleftrightarrow> list_all (\<lambda>(a, ds). fst (dimension_of ds k) \<noteq> None) table"
proof (induction table)
  case (Cons p table)
  then show ?case
    by (cases p; cases "dimension_of (snd p) k"; cases "fst (dimension_of (snd p) k)") (simp_all add: unavailable_def)
qed (simp add: unavailable_def)

lemma in_subscore_keys [simp]: "k \<in> set subscore_keys"
  by (cases k) (simp_all add: subscore_keys_def)

lemma missing_Nil: "missing_dimensions table = [] \<longleftrightarrow> (\<forall>k. unavailable table k = [])"
  by (auto simp: missing_dimensions_def filter_empty_conv)

lemma dimension_value_None: "dimension_value table k = None \<longleftrightarrow> unavailable table k \<noteq> []"
  by (simp add: dimension_value_def Let_def)

lemma dimension_value_Some: "(\<exists>v. dimension_value table k = Some v) \<longleftrightarrow> unavailable table k = []"
  using dimension_value_None [of table k] by auto

lemma dget_map_keys: "k \<in> set ks \<Longrightarrow> dget (map (\<lambda>k. (k, f k)) ks) k = Some (f k)"
  by (induction ks) auto

lemma reading_not_banned: "reading_for g c = Some t \<Longrightarrow> \<not> contains_banned_score_word t"
  by (auto simp: reading_for_def Let_def split: if_splits)

lemma finished_record_cases:
  assumes "finished_record c shash now inputs table = Inr (r, why)"
  shows "record_valid r \<and> (why = None \<longleftrightarrow> mr_complete r) \<and> (mr_missing r = [] \<longleftrightarrow> mr_complete r) \<and>
    subscore_of r = dimension_value table \<and>
    mr_per_attack r = map (\<lambda>(a, ds). (a, map (\<lambda>k. (k, snd (dimension_of ds k))) subscore_keys)) table \<and>
    (mr_complete r \<longrightarrow> mr_mri r = Some (max 0 (min 100 (py_round (weighted_sum (sc_weights (cc_scoring c))
       (\<lambda>k. the (subscore_of r k)))))))"
proof (cases "missing_dimensions table = []")
  case True
  with assms show ?thesis
    by (auto simp: finished_record_def Let_def record_valid_def list_all_iff subscore_of_def dget_map_keys
        dimension_value_Some missing_Nil reading_not_banned fun_eq_iff split: option.splits)
next
  case False
  with assms show ?thesis
    by (auto simp: finished_record_def Let_def record_valid_def subscore_of_def dget_map_keys fun_eq_iff)
qed

lemma finished_record_error:
  "finished_record c shash now inputs table = Inl e \<Longrightarrow> e = BannedReading \<and> (\<exists>g. reading_for g c = None)"
  by (auto simp: finished_record_def Let_def split: if_splits option.splits)

subsection \<open>The outcome of scoring\<close>

definition all_rows :: "campaign_config \<Rightarrow> measurement list \<Rightarrow> bool" where
  "all_rows c ms \<longleftrightarrow> list_all (\<lambda>a. list_all (\<lambda>e. lookup_eps (evasion_rows ms a) e \<noteq> None) (cc_eps_grid c)) (cc_attack_ids c)"

lemma has_gap_iff:
  "grid \<noteq> [] \<Longrightarrow> has_gap ms grid a \<longleftrightarrow> (\<exists>e \<in> set grid. lookup_eps (evasion_rows ms a) e = None)"
  by (cases "gaps (evasion_rows ms a) grid = []") (auto simp: has_gap_def gaps_def filter_empty_conv)

lemma find_gap_None:
  "cc_eps_grid c \<noteq> [] \<Longrightarrow> find (has_gap ms (cc_eps_grid c)) (dedup (cc_attack_ids c)) = None \<longleftrightarrow> all_rows c ms"
  by (auto simp: find_None_iff has_gap_iff all_rows_def list_all_iff)

lemma input_rows_total:
  assumes "clean_row ms = Some clean" "all_rows c ms"
  shows "\<exists>rs. input_rows c ms = Inr rs"
proof -
  have "list_all is_ok (concat (map (\<lambda>a. map (\<lambda>e. case lookup_eps (evasion_rows ms a) e of
      None \<Rightarrow> Inl (PartialRun a e) | Some m \<Rightarrow> Inr (input_row_of clean a e m)) (cc_eps_grid c)) (dedup (cc_attack_ids c))))"
    using assms(2) by (fastforce simp: list_all_iff all_rows_def split: option.splits)
  from result_list_ok [OF this] show ?thesis using assms(1) by (auto simp: input_rows_def)
qed

definition attack_table_of :: "campaign_config \<Rightarrow> measurement list \<Rightarrow> measurement \<Rightarrow> (score_error, attack_table) result" where
  "attack_table_of c ms clean = result_list (map (\<lambda>a.
     rbind (attack_dimensions (cc_eps_grid c) (cc_reference_eps c) clean (evasion_rows ms a)) (\<lambda>ds. Inr (a, ds)))
     (dedup (cc_attack_ids c)))"

lemma attack_table_total:
  assumes "config_valid c" "all_rows c ms"
  shows "\<exists>table. attack_table_of c ms clean = Inr table"
proof -
  have "\<exists>ds. attack_dimensions (cc_eps_grid c) (cc_reference_eps c) clean (evasion_rows ms a) = Inr ds"
    if "a \<in> set (cc_attack_ids c)" for a
    using that assms by (intro attack_dimensions_total) (auto simp: config_valid_def all_rows_def list_all_iff)
  then have "list_all is_ok (map (\<lambda>a. rbind (attack_dimensions (cc_eps_grid c) (cc_reference_eps c) clean (evasion_rows ms a))
      (\<lambda>ds. Inr (a, ds))) (dedup (cc_attack_ids c)))"
    by (fastforce simp: list_all_iff)
  from result_list_ok [OF this] show ?thesis by (auto simp: attack_table_of_def)
qed

lemma attack_table_good:
  assumes "attack_table_of c ms clean = Inr table"
  shows "map fst table = dedup (cc_attack_ids c) \<and> list_all (\<lambda>(a, ds). good_table ds) table"
proof -
  have t: "map fst table = dedup (cc_attack_ids c)"
    "list_all (\<lambda>(a, ds). attack_dimensions (cc_eps_grid c) (cc_reference_eps c) clean (evasion_rows ms a) = Inr ds) table"
    using keyed_result_list [OF assms [unfolded attack_table_of_def]] by blast+
  then show ?thesis by (auto simp: list_all_iff intro: attack_dimensions_good)
qed

lemma score_run_Some:
  assumes "score_run c ms shash now = Inr (Some r, why)"
  obtains clean inputs table where "clean_row ms = Some clean" "attack_table_of c ms clean = Inr table"
    "finished_record c shash now inputs table = Inr (r, why)"
  using assms unfolding score_run_def attack_table_of_def Let_def
  by (auto split: if_splits option.splits)

lemma good_table_dimension: "good_table ds \<Longrightarrow> good_dimension (dimension_of ds k)"
  by (auto simp: good_table_def dimension_of_def dest: spec [of _ k])

lemma missing_dimension:
  assumes "list_all (\<lambda>(a, ds). good_table ds) table"
  shows "dimension_value table k = None \<longleftrightarrow>
    list_ex (\<lambda>(a, ds). sv_value (snd (dimension_of ds k)) = None) table"
proof -
  have "fst (dimension_of ds k) = None \<longleftrightarrow> sv_value (snd (dimension_of ds k)) = None" if "(a, ds) \<in> set table" for a ds
  proof -
    have "good_dimension (dimension_of ds k)" using assms that good_table_dimension by (auto simp: list_all_iff)
    then show ?thesis by (auto simp: good_dimension_def split: option.splits)
  qed
  then show ?thesis unfolding dimension_value_None unavailable_Nil
    by (fastforce simp: list_all_iff list_ex_iff)
qed

lemma per_attack_missing:
  "list_ex (\<lambda>(a, d). case dget d k of Some s \<Rightarrow> sv_value s = None | None \<Rightarrow> True)
      (map (\<lambda>(a, ds). (a, map (\<lambda>k. (k, f ds k)) subscore_keys)) table) \<longleftrightarrow>
    list_ex (\<lambda>(a, ds). sv_value (f ds k) = None) table"
  by (induction table) (auto simp: dget_map_keys)


subsection \<open>The scale of the index\<close>

definition weights_nonneg :: "weights \<Rightarrow> bool" where
  "weights_nonneg w \<longleftrightarrow> list_all (\<lambda>k. 0 \<le> weight_of w k) subscore_keys"

lemma fl_error_pos: "0 \<le> x \<Longrightarrow> \<bar>fl x - x\<bar> \<le> x / 1000000000000 + 1 / 1000000000000"
proof -
  assume x: "0 \<le> x"
  have "\<bar>fl x - x\<bar> \<le> \<bar>x\<bar> / 2 ^ 53 + 1 / 2 ^ 100" by (rule fl_error)
  also have "\<dots> \<le> x / 1000000000000 + 1 / 1000000000000" using x by simp
  finally show ?thesis .
qed

lemma fadd_lower: "0 \<le> x \<Longrightarrow> 0 \<le> y \<Longrightarrow> x + y - (x / 1000000000000 + y / 1000000000000 + 1 / 1000000000000) \<le> fadd x y"
  using fl_error_pos [of "x + y"] unfolding fadd_def add_divide_distrib by linarith

lemma small_difference:
  assumes "\<bar>fl d\<bar> \<le> fl (1 / 1000000000)" shows "\<bar>d\<bar> \<le> 2 / 1000000000"
proof -
  have "\<bar>fl (1 / 1000000000) - 1 / 1000000000\<bar> \<le> \<bar>1 / 1000000000 :: rat\<bar> / 2 ^ 53 + 1 / 2 ^ 100" by (rule fl_error)
  then have "fl (1 / 1000000000) \<le> 11 / 10000000000" unfolding abs_le_iff by simp
  moreover have "\<bar>fl d - d\<bar> \<le> \<bar>d\<bar> / 2 ^ 53 + 1 / 2 ^ 100" by (rule fl_error)
  moreover have "\<bar>d\<bar> / 2 ^ 53 + 1 / 2 ^ 100 \<le> \<bar>d\<bar> / 1000 + 1 / 1000000000000" by simp
  ultimately show ?thesis using assms abs_triangle_ineq2_sym [of "fl d" d] by simp
qed

lemma weights_total:
  assumes "weights_valid w" "weights_nonneg w"
  shows "sum_list (map (weight_of w) subscore_keys) \<le> 1 + 1 / 100000000"
proof -
  let ?s1 = "fadd (wt_acc w) (wt_asr w)" let ?s2 = "fadd ?s1 (wt_eps w)" let ?s3 = "fadd ?s2 (wt_conf w)"
  let ?s4 = "fadd ?s3 (wt_expl w)"
  have nn: "0 \<le> wt_acc w" "0 \<le> wt_asr w" "0 \<le> wt_eps w" "0 \<le> wt_conf w" "0 \<le> wt_expl w"
    using assms(2) by (simp_all add: weights_nonneg_def subscore_keys_def)
  have s: "0 \<le> ?s1" "0 \<le> ?s2" "0 \<le> ?s3" by (intro fadd_nonneg nn)+
  have "\<bar>?s4 - 1\<bar> \<le> 2 / 1000000000"
    using assms(1) unfolding weights_valid_def fsub_def by (intro small_difference) simp
  then have "?s4 \<le> 1 + 2 / 1000000000" by linarith
  moreover note fadd_lower [OF nn(1,2)] fadd_lower [OF s(1) nn(3)] fadd_lower [OF s(2) nn(4)] fadd_lower [OF s(3) nn(5)]
  ultimately have "wt_acc w + wt_asr w + wt_eps w + wt_conf w + wt_expl w \<le> 1 + 1 / 100000000"
    using nn s by linarith
  then show ?thesis by (simp add: subscore_keys_def)
qed

lemma product_bounds:
  assumes "0 \<le> w" "0 \<le> v" "v \<le> 100"
  shows "0 \<le> fmul w v \<and> fmul w v \<le> 100 * w + w / 1000000 + 1 / 1000000000000"
proof -
  have le: "w * v \<le> w * 100" "0 \<le> w * v" using assms by (auto intro: mult_left_mono)
  have "w * v / 1000000000000 \<le> w * 100 / 1000000000000" using le by (intro divide_right_mono) simp_all
  then have "fl (w * v) \<le> w * 100 + w * 100 / 1000000000000 + 1 / 1000000000000"
    using fl_error_pos [OF le(2)] le by linarith
  then show ?thesis using fl_nonneg [OF le(2)] assms(1) by (simp add: fmul_def)
qed

lemma weighted_scale:
  assumes "weights_valid w" "weights_nonneg w" "\<And>k. 0 \<le> v k \<and> v k \<le> 100"
  shows "0 \<le> py_round (weighted_sum w v) \<and> py_round (weighted_sum w v) \<le> 100"
proof -
  let ?xs = "map (\<lambda>k. fmul (weight_of w k) (v k)) subscore_keys"
  have b: "0 \<le> fmul (weight_of w k) (v k)"
    "fmul (weight_of w k) (v k) \<le> 100 * weight_of w k + weight_of w k / 1000000 + 1 / 1000000000000" for k
    using product_bounds [of "weight_of w k" "v k"] assms(2,3)
    by (simp_all add: weights_nonneg_def list_all_iff)
  have s: "0 \<le> sum_list ?xs" "sum_list (map abs ?xs) = sum_list ?xs" "length ?xs = 5"
    using b(1) [of S_acc] b(1) [of S_asr] b(1) [of S_eps] b(1) [of S_conf] b(1) [of S_expl]
    by (simp_all add: subscore_keys_def)
  have "sum_list ?xs \<le> 100 * sum_list (map (weight_of w) subscore_keys) +
      sum_list (map (weight_of w) subscore_keys) / 1000000 + 5 / 1000000000000"
    using b(2) [of S_acc] b(2) [of S_asr] b(2) [of S_eps] b(2) [of S_conf] b(2) [of S_expl]
    unfolding subscore_keys_def list.map sum_list.Cons sum_list.Nil add_divide_distrib distrib_left by linarith
  then have u: "sum_list ?xs \<le> 100 + 1 / 1000" using weights_total [OF assms(1,2)] by simp
  have "\<bar>py_sum ?xs - sum_list ?xs\<bar> \<le> (5 * of_nat (length ?xs) + 1) * (128 / 2 ^ 50)"
    using s u by (intro py_sum_error) simp_all
  also have "\<dots> \<le> 1 / 1000" by (simp add: subscore_keys_def)
  finally have "- 1 / 100 \<le> weighted_sum w v" "weighted_sum w v \<le> 100 + 1 / 100"
    unfolding weighted_sum_def using s(1) u by linarith+
  then have "(of_int (-1) :: rat) < of_int (rhe (weighted_sum w v))" "(of_int (rhe (weighted_sum w v)) :: rat) < of_int 101"
    using rhe_error [of "weighted_sum w v"] unfolding of_int_minus of_int_1 of_int_numeral by linarith+
  then show ?thesis unfolding py_round_def of_int_less_iff by simp
qed

text \<open>C31. The index stays on its scale. For up to a million attacks every subscore of a record lies between
  0 and 100, despite the rounding of the compensated sums; the index lies between 0 and 100 with the grade of
  its band; and with nonnegative weights that pass the validator it is exactly the rounded weighted sum of the
  five subscores, the final clamp never changing it.\<close>

theorem mri_scale:
  assumes "score_run c ms shash now = Inr (Some r, why)" "length (dedup (cc_attack_ids c)) \<le> 2 ^ 20" "cc_attack_ids c \<noteq> []"
  shows "(case subscore_of r k of None \<Rightarrow> True | Some v \<Rightarrow> 0 \<le> v \<and> v \<le> 100) \<and>
    (case mr_mri r of None \<Rightarrow> mr_grade r = None
     | Some m \<Rightarrow> 0 \<le> m \<and> m \<le> 100 \<and> mr_grade r = Some (grade_for_mri m) \<and>
         (weights_nonneg (sc_weights (cc_scoring c)) \<and> weights_valid (sc_weights (cc_scoring c)) \<longrightarrow>
            m = py_round (weighted_sum (sc_weights (cc_scoring c)) (\<lambda>k. the (subscore_of r k)))))"
proof -
  obtain clean inputs table where t: "attack_table_of c ms clean = Inr table"
    and f: "finished_record c shash now inputs table = Inr (r, why)" using score_run_Some [OF assms(1)] .
  note fin = finished_record_cases [OF f]
  note good = attack_table_good [OF t]
  have sub: "0 \<le> v \<and> v \<le> 100" if "subscore_of r k = Some v" for k v
  proof -
    let ?p = "List.map_filter (\<lambda>(a, ds). fst (dimension_of ds k)) table"
    have u: "unavailable table k = []" "v = py_round_to 1 (fdiv (fmul 100 (py_sum ?p)) (of_int (int (length ?p))))"
      using that fin by (auto simp: dimension_value_def Let_def split: if_splits)
    have "length ?p \<le> length table" by (simp add: map_filter_def)
    then have len: "length ?p \<le> 2 ^ 20" using arg_cong [OF conjunct1 [OF good], of length] assms(2) by simp
    have "table \<noteq> []" using good assms(3) dedup_Nil_iff [of "cc_attack_ids c"] by (metis list.map_disc_iff)
    then have ne: "?p \<noteq> []" using u(1) by (cases table) (auto simp: unavailable_Nil)
    have "list_all unit_interval ?p"
      using good good_table_dimension
      by (fastforce simp: list_all_iff map_filter_def good_dimension_def split: option.splits)
    with mean_scale [OF ne this len] show ?thesis unfolding u(2) by blast
  qed
  have "weights_nonneg w \<Longrightarrow> weights_valid w \<Longrightarrow> mr_complete r \<Longrightarrow>
      0 \<le> py_round (weighted_sum w (\<lambda>k. the (subscore_of r k))) \<and> py_round (weighted_sum w (\<lambda>k. the (subscore_of r k))) \<le> 100" for w
  proof -
    assume w: "weights_nonneg w" "weights_valid w" and "mr_complete r"
    then have "subscore_of r k \<noteq> None" for k
      using fin by (auto simp: record_valid_def list_all_iff split: option.splits)
    then show ?thesis using sub by (intro weighted_scale w) (metis option.collapse)
  qed
  moreover have "mr_mri r \<noteq> None \<longleftrightarrow> mr_complete r" using fin by (auto simp: record_valid_def split: option.splits)
  ultimately show ?thesis using fin sub [of k] by (auto simp: record_valid_def split: option.splits)
qed

definition ex_row :: "string \<Rightarrow> string option \<Rightarrow> rat option \<Rightarrow> rat \<Rightarrow> rat option \<Rightarrow> measurement" where
  "ex_row fam attack eps acc asr =
     \<lparr>me_id = ''m'', me_family = fam, me_attack = attack,
      me_params = (case eps of None \<Rightarrow> [] | Some e \<Rightarrow> [(''eps'', PFloat e)]), me_n = 100, me_correct = 90, me_accuracy = acc,
      me_flipped = None, me_clean_correct = Some 90, me_asr = asr, me_pert = None, me_conf_gap = Some (1/4),
      me_conf_gap_n = Some 100, me_expl_shift = Some (1/2), me_expl_shift_n = Some 8, me_queries = None\<rparr>"

definition ex_budget :: campaign_config where
  "ex_budget = ex_campaign\<lparr>cc_eps_grid := [1/2], cc_reference_eps := 1/2\<rparr>"

definition ex_unexplained :: "measurement list" where
  "ex_unexplained = [ex_row ''clean'' None None (1/2) None,
     (ex_row ''evasion'' (Some ''fgsm'') (Some (1/2)) (1/4) (Some (1/2)))\<lparr>me_expl_shift := None\<rparr>]"

definition partial_run :: "(score_error, mri_record option \<times> string option) result \<Rightarrow> bool" where
  "partial_run x = (case x of Inr (Some r, _) \<Rightarrow> subscore_of r S_asr = Some 50 \<and> mr_mri r = None | _ \<Rightarrow> False)"

lemma ex_partial: "partial_run (score_run ex_budget ex_unexplained ''h'' 0)"
  by code_simp

lemma partial_runE:
  assumes "partial_run x" obtains r why where "x = Inr (Some r, why)" "subscore_of r S_asr = Some 50"
  using assms by (auto simp: partial_run_def split: sum.splits option.splits)


lemma mri_scale_witness: "(0::rat) \<le> 50 \<and> (50::rat) \<le> 100"
proof -
  obtain r why where r: "score_run ex_budget ex_unexplained ''h'' 0 = Inr (Some r, why)" "subscore_of r S_asr = Some 50"
    using ex_partial by (elim partial_runE)
  have "length (dedup (cc_attack_ids ex_budget)) \<le> 2 ^ 20" "cc_attack_ids ex_budget \<noteq> []"
    by (simp_all add: ex_budget_def ex_campaign_def dedup_def)
  from mri_scale [OF r(1) this, of S_asr] show ?thesis using r(2) by simp
qed

end
