(* ===== verification/PyValue.thy ===== *)
theory PyValue
  imports PyFormat NetAddr
begin

text \<open>
  The values the program reads from JSON: Python objects with their type names, truthiness, text and
  equality (which identifies \<open>True\<close>, \<open>1\<close> and \<open>1.0\<close>), doubles with infinities, and \<open>float(s)\<close>. A float
  is its exact value; the sign of a zero is not represented.
\<close>

subsection \<open>Values\<close>

datatype pyval =
    PNone | PBool bool | PInt int | PFlt rat | PInf bool | PNaN | PStr string
  | PList "pyval list" | PDict "(string \<times> pyval) list"

fun type_name :: "pyval \<Rightarrow> string" where
  "type_name PNone = ''NoneType''" | "type_name (PBool _) = ''bool''" | "type_name (PInt _) = ''int''"
| "type_name (PFlt _) = ''float''" | "type_name (PInf _) = ''float''" | "type_name PNaN = ''float''"
| "type_name (PStr _) = ''str''" | "type_name (PList _) = ''list''" | "type_name (PDict _) = ''dict''"

definition is_list :: "pyval \<Rightarrow> bool" where
  "is_list v = (case v of PList _ \<Rightarrow> True | _ \<Rightarrow> False)"

definition is_number :: "pyval \<Rightarrow> bool" where
  "is_number v = (case v of PInt _ \<Rightarrow> True | PFlt _ \<Rightarrow> True | PInf _ \<Rightarrow> True | PNaN \<Rightarrow> True | _ \<Rightarrow> False)"

definition num_val :: "pyval \<Rightarrow> rat" where
  "num_val v = (case v of PInt n \<Rightarrow> of_int n | PFlt x \<Rightarrow> x | _ \<Rightarrow> 0)"

text \<open>An integer that has no double: its conversion raises \<open>OverflowError\<close>.\<close>

definition no_double :: "int \<Rightarrow> bool" where
  "no_double n \<longleftrightarrow> 2 ^ 1024 - 2 ^ 970 \<le> \<bar>n\<bar>"

text \<open>\<open>str(v)\<close> of a value that is not a string, and \<open>str(v or default)\<close>.\<close>

fun repr_val :: "pyval \<Rightarrow> string" where
  "repr_val PNone = ''None''"
| "repr_val (PBool b) = (if b then ''True'' else ''False'')"
| "repr_val (PInt n) = dec n"
| "repr_val (PFlt x) = py_repr x"
| "repr_val (PInf neg) = (if neg then ''-inf'' else ''inf'')"
| "repr_val PNaN = ''nan''"
| "repr_val (PStr s) = py_repr_str s"
| "repr_val (PList vs) = ''['' @ join '', '' (map repr_val vs) @ '']''"
| "repr_val (PDict kvs) = ''{'' @ join '', '' (map (\<lambda>(k, v). py_repr_str k @ '': '' @ repr_val v) kvs) @ ''}''"

definition falsy :: "pyval \<Rightarrow> bool" where
  "falsy v = (case v of PNone \<Rightarrow> True | PBool b \<Rightarrow> \<not> b | PInt n \<Rightarrow> n = 0 | PFlt x \<Rightarrow> x = 0 | PStr s \<Rightarrow> s = []
     | PList vs \<Rightarrow> vs = [] | PDict kvs \<Rightarrow> kvs = [] | _ \<Rightarrow> False)"

definition str_or :: "pyval option \<Rightarrow> string \<Rightarrow> string" where
  "str_or v dflt = (case v of None \<Rightarrow> dflt | Some x \<Rightarrow> if falsy x then dflt else case x of PStr s \<Rightarrow> s | _ \<Rightarrow> repr_val x)"

definition py_text :: "pyval \<Rightarrow> string" where
  "py_text v = (case v of PStr s \<Rightarrow> s | _ \<Rightarrow> repr_val v)"

type_synonym pydict = "(string, pyval) dict"

text \<open>\<open>d.get(k)\<close>, \<open>a or b\<close> and \<open>a == b\<close>; a number equals a number of the same value.\<close>

definition py_get :: "pydict \<Rightarrow> string \<Rightarrow> pyval" where
  "py_get d k = (case dget d k of Some v \<Rightarrow> v | None \<Rightarrow> PNone)"

definition py_or :: "pyval \<Rightarrow> pyval \<Rightarrow> pyval" where
  "py_or a b = (if falsy a then b else a)"

definition exact :: "pyval \<Rightarrow> rat option" where
  "exact v = (case v of PBool b \<Rightarrow> Some (if b then 1 else 0) | PInt n \<Rightarrow> Some (of_int n) | PFlt x \<Rightarrow> Some x | _ \<Rightarrow> None)"

fun py_eq :: "pyval \<Rightarrow> pyval \<Rightarrow> bool" and py_eq_list :: "pyval list \<Rightarrow> pyval list \<Rightarrow> bool"
  and py_eq_in :: "(string \<times> pyval) list \<Rightarrow> (string \<times> pyval) list \<Rightarrow> bool" where
  "py_eq (PList xs) (PList ys) = py_eq_list xs ys"
| "py_eq (PDict xs) (PDict ys) = (length xs = length ys \<and> py_eq_in xs ys)"
| "py_eq (PStr s) (PStr t) = (s = t)"
| "py_eq PNone PNone = True"
| "py_eq (PInf a) (PInf b) = (a = b)"
| "py_eq v w = (exact v \<noteq> None \<and> exact v = exact w)"
| "py_eq_list [] [] = True"
| "py_eq_list (x # xs) (y # ys) = (py_eq x y \<and> py_eq_list xs ys)"
| "py_eq_list xs ys = False"
| "py_eq_in [] ys = True"
| "py_eq_in ((k, x) # xs) ys = ((case dget ys k of Some y \<Rightarrow> py_eq x y | None \<Rightarrow> False) \<and> py_eq_in xs ys)"

fun to_json :: "pyval \<Rightarrow> json" where
  "to_json PNone = JNull" | "to_json (PBool b) = JBool b" | "to_json (PInt n) = JInt n" | "to_json (PFlt x) = JFloat (py_repr x)"
| "to_json (PInf neg) = JFloat (if neg then ''-Infinity'' else ''Infinity'')" | "to_json PNaN = JFloat ''NaN''"
| "to_json (PStr s) = JStr s" | "to_json (PList vs) = JArr (map to_json vs)"
| "to_json (PDict kvs) = JObj (map (\<lambda>(k, v). (k, to_json v)) kvs)"

subsection \<open>Floats\<close>

datatype flt = Fin rat | Inf bool | NaN

text \<open>\<open>float(raw)\<close> of a stripped string.\<close>

definition decimal_parts :: "string \<Rightarrow> (int \<times> int) option" where
  "decimal_parts s = (let a = before CHR ''.'' s; b = after CHR ''.'' s; ds = filter is_digit (a @ b) in
     if (a = [] \<or> digits_under a) \<and> (b = [] \<or> digits_under b) \<and> \<not> (a = [] \<and> b = [])
     then Some (nat_of_digits ds, - int (length (filter is_digit b))) else None)"

definition overflow_flt :: "bool \<Rightarrow> rat \<Rightarrow> flt" where
  "overflow_flt neg x = (if 2 ^ 1024 - 2 ^ 970 \<le> x then Inf neg else Fin (if neg then - fl x else fl x))"

definition py_float :: "string \<Rightarrow> flt option" where
  "py_float s =
     (let (neg, body) = (case s of c # r \<Rightarrow> if c = CHR ''-'' then (True, r) else if c = CHR ''+'' then (False, r) else (False, s)
                          | [] \<Rightarrow> (False, s));
          low = lower body; m = before CHR ''e'' low; e = after CHR ''e'' low
      in if low \<in> {''inf'', ''infinity''} then Some (Inf neg) else if low = ''nan'' then Some NaN
         else case (decimal_parts m, if CHR ''e'' \<in> set low then py_int e else Some 0) of
             (Some (n, k), Some x) \<Rightarrow> Some (overflow_flt neg (of_int n * 10 powi (k + x)))
           | _ \<Rightarrow> None)"

end
