(* ===== verification/Compare.thy ===== *)
theory Compare
  imports "HOL-Library.Sublist" "HOL-Library.Multiset" Scoring PyValue
begin

text \<open>
  \<open>ml/compare.py\<close>: when campaigns may be shown side by side. Compatibility of two run records, the
  table over several runs and the greedy grouping of a batch. A record is the JSON object of a run; the
  functions raise \<open>Incompatible\<close>, \<open>ScoreUnavailable\<close>, or the \<open>TypeError\<close> of reading a
  malformed record. A truthy \<open>per_attack\<close> that is not an object counts as malformed.
\<close>

subsection \<open>Constants\<close>

definition ignored_config_fields :: "string list" where
  "ignored_config_fields = [''target_id'', ''llm_narrative'', ''auto_recommend'', ''target_snapshot'', ''attacks'']"

definition legacy_config_fields :: "string list" where "legacy_config_fields = [''defense'']"

definition ignored_variables :: "string list" where
  "ignored_variables = [''llm_narrative'', ''auto_recommend'', ''target_snapshot'', ''attacks'', ''reviewer_notes'']"

definition sample_variable :: string where "sample_variable = ''sample_indices_sha256''"
definition model_variable :: string where "model_variable = ''model_sha256''"
definition nested_config_fields :: "string list" where "nested_config_fields = [''scoring'']"
definition min_table_runs :: nat where "min_table_runs = 2"
definition max_table_runs :: nat where "max_table_runs = 10"

definition forbidden_table_keys :: "string list" where
  "forbidden_table_keys = [''mean'', ''rank'', ''average'', ''aggregate'', ''ranking'']"

datatype compare_error =
    Incompatible "string list" "pyval list" | ScoreUnavailable "string list" | BadInput string | NotIterable

subsection \<open>Reading records\<close>

definition mapping_at :: "pydict \<Rightarrow> string \<Rightarrow> pydict option" where
  "mapping_at r k = (case dget r k of Some (PDict d) \<Rightarrow> Some d | _ \<Rightarrow> None)"

definition provenance :: "pydict \<Rightarrow> pydict" where
  "provenance r = (case mapping_at r ''provenance'' of Some d \<Rightarrow> d | None \<Rightarrow> [])"

definition config :: "pydict \<Rightarrow> pydict" where
  "config r = (case mapping_at r ''config'' of Some d \<Rightarrow> d | None \<Rightarrow> [])"

definition sample_hash :: "pydict \<Rightarrow> pyval" where
  "sample_hash r = py_get (provenance r) sample_variable"

definition model_hash :: "pydict \<Rightarrow> pyval" where
  "model_hash r = py_get (provenance r) model_variable"

definition score_of :: "pydict \<Rightarrow> pydict option" where
  "score_of r = mapping_at r ''score''"

definition settings_hash :: "pydict \<Rightarrow> pyval" where
  "settings_hash r =
     py_or (py_or (py_get r ''settings_hash'')
       (case score_of r of Some s \<Rightarrow> py_get s ''settings_hash'' | None \<Rightarrow> PNone))
       (case mapping_at r ''provenance'' of Some p \<Rightarrow> py_get p ''settings_hash'' | None \<Rightarrow> PNone)"

definition config_items :: "string \<times> pyval \<Rightarrow> (string \<times> pyval) list" where
  "config_items kv = (case kv of (k, v) \<Rightarrow>
     if k \<in> set ignored_config_fields \<or> k \<in> set legacy_config_fields then []
     else case v of
       PDict d \<Rightarrow> if k \<in> set nested_config_fields then map (\<lambda>(j, w). (k @ ''.'' @ j, w)) d else [(k, v)]
     | _ \<Rightarrow> [(k, v)])"

definition compared_config :: "pydict \<Rightarrow> pydict" where
  "compared_config r = foldl (\<lambda>out (k, v). dset k v out) [] (concat (map config_items (config r)))"

subsection \<open>Weights\<close>

definition weights_dict :: "weights \<Rightarrow> (string \<times> rat) list" where
  "weights_dict w = [(''acc'', wt_acc w), (''asr'', wt_asr w), (''eps'', wt_eps w), (''conf'', wt_conf w), (''expl'', wt_expl w)]"

text \<open>\<open>float(v)\<close>; \<open>None\<close> is the \<open>TypeError\<close> or \<open>ValueError\<close>, integers without a double aside.\<close>

definition to_float :: "pyval \<Rightarrow> flt option" where
  "to_float v = (case v of
      PBool b \<Rightarrow> Some (Fin (if b then 1 else 0)) | PInt n \<Rightarrow> Some (Fin (fl (of_int n))) | PFlt x \<Rightarrow> Some (Fin x)
    | PInf neg \<Rightarrow> Some (Inf neg) | PNaN \<Rightarrow> Some NaN | PStr s \<Rightarrow> py_float (strip s) | _ \<Rightarrow> None)"

definition is_default_weights :: "pydict option \<Rightarrow> bool" where
  "is_default_weights w = (case w of None \<Rightarrow> True
    | Some d \<Rightarrow> list_all (\<lambda>(k, x). case dget d k of Some v \<Rightarrow> to_float v = Some (Fin x) | None \<Rightarrow> False) (weights_dict default_weights))"

definition record_weights :: "pydict \<Rightarrow> pydict option" where
  "record_weights r = (case (case score_of r of Some s \<Rightarrow> mapping_at s ''weights'' | None \<Rightarrow> None) of
      Some w \<Rightarrow> Some w
    | None \<Rightarrow> (case mapping_at (config r) ''scoring'' of Some s \<Rightarrow> mapping_at s ''weights'' | None \<Rightarrow> None))"

definition non_default_weights :: "pydict \<Rightarrow> bool" where
  "non_default_weights r \<longleftrightarrow> \<not> is_default_weights (record_weights r)"

subsection \<open>Compatibility\<close>

definition sorted_set :: "string list \<Rightarrow> string list" where
  "sorted_set ks = sort (remdups ks)"

definition same_at :: "pydict \<Rightarrow> pydict \<Rightarrow> string \<Rightarrow> bool" where
  "same_at l r k \<longleftrightarrow> py_eq (py_get l k) (py_get r k)"

definition same_model :: "pydict \<Rightarrow> pydict \<Rightarrow> bool" where
  "same_model l r \<longleftrightarrow> model_hash l \<noteq> PNone \<and> py_eq (model_hash l) (model_hash r)"

definition config_mismatches :: "pydict \<Rightarrow> pydict \<Rightarrow> string list" where
  "config_mismatches l r = filter (\<lambda>k. \<not> same_at (compared_config l) (compared_config r) k)
     (sorted_set (map fst (compared_config l) @ map fst (compared_config r)))"

definition sample_mismatch :: "pydict \<Rightarrow> pydict \<Rightarrow> string list" where
  "sample_mismatch l r = (if falsy (sample_hash l) \<or> falsy (sample_hash r) then [sample_variable @ '' (not recorded on both runs)'']
     else if \<not> py_eq (sample_hash l) (sample_hash r) then [sample_variable] else [])"

definition compatibility :: "pydict \<Rightarrow> pydict \<Rightarrow> string list \<times> string list" where
  "compatibility l r =
     (let lc = compared_config l; rc = compared_config r;
          m = config_mismatches l r @ sample_mismatch l r;
          u = filter (\<lambda>k. k \<in> fst ` set rc \<and> same_at lc rc k) (sorted_set (map fst lc)) @
              (if sample_mismatch l r = [] then [sample_variable] else []);
          ls = settings_hash l; rs = settings_hash r
      in (m @ (if same_model l r \<and> m = [] \<and> \<not> falsy ls \<and> \<not> falsy rs \<and> \<not> py_eq ls rs then [''settings_hash''] else []),
          u @ (if same_model l r then [model_variable] @ (if \<not> falsy ls \<and> py_eq ls rs then [''settings_hash''] else []) else [])))"

definition require_complete_score :: "string \<Rightarrow> pydict \<Rightarrow> pydict \<times> string list" where
  "require_complete_score run_id r = (case score_of r of
      None \<Rightarrow>
        let reason = (case mapping_at r ''score_status'' of Some s \<Rightarrow> py_get s ''reason'' | None \<Rightarrow> PNone)
        in ([], [run_id @ '': no score'' @ (if falsy reason then [] else '' ('' @ py_text reason @ '')'')])
    | Some s \<Rightarrow>
        if py_get s ''mri'' = PNone then
          (s, [run_id @ '': MRI not computed ('' @ (case py_get s ''missing'' of
              PList (x # xs) \<Rightarrow> join ''; '' (map py_text (x # xs)) | _ \<Rightarrow> ''partial score'') @ '')''])
        else (s, []))"

definition changed_variables :: "pydict \<Rightarrow> pydict \<Rightarrow> string list" where
  "changed_variables l r =
     (let c = (if \<not> py_eq (model_hash l) (model_hash r) then [''model''] else []) @
              (if \<not> py_eq (py_get (config l) ''target_id'') (py_get (config r) ''target_id'') then [''target''] else [])
      in if c = [] \<and> (py_eq (py_get l ''parent_run_id'') (py_get r ''run_id'') \<or> py_eq (py_get r ''parent_run_id'') (py_get l ''run_id''))
         then [''rerun''] else c)"

subsection \<open>Projections\<close>

text \<open>\<open>list(r.get(k, []))\<close>.\<close>

definition list_at :: "pydict \<Rightarrow> string \<Rightarrow> (compare_error, pyval list) result" where
  "list_at r k = (case dget r k of None \<Rightarrow> Inr []
    | Some (PList vs) \<Rightarrow> Inr vs | Some (PStr s) \<Rightarrow> Inr (map (\<lambda>c. PStr [c]) s) | Some (PDict d) \<Rightarrow> Inr (map (PStr \<circ> fst) d)
    | _ \<Rightarrow> Inl NotIterable)"

definition opt_dict :: "pydict option \<Rightarrow> pyval" where
  "opt_dict d = (case d of Some x \<Rightarrow> PDict x | None \<Rightarrow> PNone)"

definition extend :: "pydict \<Rightarrow> pydict \<Rightarrow> pydict" where
  "extend d kvs = foldl (\<lambda>out (k, v). dset k v out) d kvs"

definition scorecard_projection :: "pydict \<Rightarrow> pydict \<Rightarrow> (compare_error, pyval) result" where
  "scorecard_projection r s =
     rbind (list_at r ''measurements'') (\<lambda>ms. rbind (list_at r ''curve'') (\<lambda>cv. rbind (list_at r ''limitations'') (\<lambda>ls.
       Inr (PDict (extend s [(''run_id'', py_get r ''run_id''), (''model_sha256'', model_hash r), (''target'', opt_dict (mapping_at r ''target'')),
         (''measurements'', PList ms), (''curve'', PList cv), (''limitations'', PList ls),
         (''non_default_weights'', PBool (non_default_weights r))])))))"

definition is_clean :: "pyval \<Rightarrow> bool" where
  "is_clean m = (case m of PDict d \<Rightarrow> py_get d ''family'' = PStr ''clean'' | _ \<Rightarrow> False)"

definition family_row :: "pyval option \<Rightarrow> pyval \<Rightarrow> pyval list" where
  "family_row clean v = (case v of
      PDict m \<Rightarrow>
        let own = py_get m ''n_clean_correct'';
            nc = (if own = PNone \<and> \<not> is_clean v then (case clean of Some (PDict c) \<Rightarrow> py_get c ''n_correct'' | _ \<Rightarrow> own) else own)
        in [PDict [(''id'', py_get m ''id''), (''family'', py_get m ''family''), (''attack_id'', py_get m ''attack_id''),
             (''eps'', (case mapping_at m ''params'' of Some p \<Rightarrow> py_get p ''eps'' | None \<Rightarrow> PNone)), (''n'', py_get m ''n''),
             (''n_correct'', py_get m ''n_correct''), (''accuracy'', py_get m ''accuracy''),
             (''n_flipped_from_clean'', py_get m ''n_flipped_from_clean''), (''n_clean_correct'', nc),
             (''asr'', py_get m ''attack_success_rate'')]]
    | _ \<Rightarrow> [])"

definition family_rows :: "pydict \<Rightarrow> (compare_error, pyval list) result" where
  "family_rows r = rbind (list_at r ''measurements'') (\<lambda>ms. Inr (concat (map (family_row (find is_clean ms)) ms)))"

definition dict_or_empty :: "pyval \<Rightarrow> (compare_error, pyval) result" where
  "dict_or_empty v = (if falsy v then Inr (PDict []) else case v of PDict d \<Rightarrow> Inr v | _ \<Rightarrow> Inl NotIterable)"

definition list_or_empty :: "pyval \<Rightarrow> (compare_error, pyval) result" where
  "list_or_empty v = (if falsy v then Inr (PList []) else rbind (list_at [([], v)] []) (\<lambda>vs. Inr (PList vs)))"

definition table_row :: "string \<Rightarrow> pydict \<Rightarrow> pydict \<Rightarrow> (compare_error, pyval) result" where
  "table_row run_id r s =
     rbind (dict_or_empty (py_get s ''per_attack'')) (\<lambda>pa. rbind (list_or_empty (py_get s ''inputs'')) (\<lambda>ins.
     rbind (family_rows r) (\<lambda>fr. rbind (list_at r ''curve'') (\<lambda>cv. rbind (list_at r ''limitations'') (\<lambda>ls.
       Inr (PDict [(''run_id'', PStr run_id), (''kind'', py_get r ''kind''), (''created_at'', py_get r ''created_at''),
         (''completed_at'', py_get r ''completed_at''), (''model_sha256'', model_hash r), (''target'', opt_dict (mapping_at r ''target'')),
         (''settings_hash'', settings_hash r), (''modality'', py_get (config r) ''modality''), (''mri'', py_get s ''mri''),
         (''grade'', py_get s ''grade''), (''reading'', py_get s ''reading''), (''subscores'', opt_dict (mapping_at s ''subscores'')),
         (''per_attack'', pa), (''inputs'', ins), (''weights'', opt_dict (record_weights r)),
         (''non_default_weights'', PBool (non_default_weights r)), (''families'', PList fr), (''curve'', PList cv),
         (''limitations'', PList ls)]))))))"

subsection \<open>No aggregate keys\<close>

fun assert_no_aggregate_keys :: "pyval \<Rightarrow> string \<Rightarrow> (compare_error, unit) result"
  and assert_items :: "(string \<times> pyval) list \<Rightarrow> string \<Rightarrow> (compare_error, unit) result"
  and assert_elems :: "pyval list \<Rightarrow> string \<Rightarrow> int \<Rightarrow> (compare_error, unit) result" where
  "assert_no_aggregate_keys (PDict d) path = assert_items d path"
| "assert_no_aggregate_keys (PList vs) path = assert_elems vs path 0"
| "assert_no_aggregate_keys v path = Inr ()"
| "assert_items [] path = Inr ()"
| "assert_items ((k, v) # d) path =
     (if lower k \<in> set forbidden_table_keys
      then Inl (BadInput (''comparison payload carries an aggregate key at '' @ path @ ''/'' @ k))
      else rbind (assert_no_aggregate_keys v (path @ ''/'' @ k)) (\<lambda>_. assert_items d path))"
| "assert_elems [] path i = Inr ()"
| "assert_elems (v # vs) path i = rbind (assert_no_aggregate_keys v (path @ ''['' @ dec i @ '']'')) (\<lambda>_. assert_elems vs path (i + 1))"

subsection \<open>The table of several runs\<close>

fun pairs_of :: "'a list \<Rightarrow> ('a \<times> 'a) list" where
  "pairs_of [] = []"
| "pairs_of (x # xs) = map (Pair x) xs @ pairs_of xs"

text \<open>Evaluate in order; the first error is raised.\<close>

fun rmap :: "('a \<Rightarrow> ('e, 'b) result) \<Rightarrow> 'a list \<Rightarrow> ('e, 'b list) result" where
  "rmap f [] = Inr []"
| "rmap f (x # xs) = rbind (f x) (\<lambda>y. rbind (rmap f xs) (\<lambda>ys. Inr (y # ys)))"

definition strs :: "string list \<Rightarrow> pyval" where "strs ks = PList (map PStr ks)"

definition shared_by_all :: "string list list \<Rightarrow> string list" where
  "shared_by_all us = (case us of [] \<Rightarrow> [] | u # _ \<Rightarrow> sorted_set (filter (\<lambda>k. list_all (\<lambda>v. k \<in> set v) us) u))"

definition caveats_of :: "pydict list \<Rightarrow> (compare_error, string list) result" where
  "caveats_of rs = rbind (rmap (\<lambda>r. list_at r ''limitations'') rs) (\<lambda>lss. Inr (sorted_set (map py_text (concat lss))))"

definition incompatible_pairs :: "(string \<times> pydict) list \<Rightarrow> ((string \<times> string) \<times> string list) list" where
  "incompatible_pairs runs = filter (\<lambda>p. snd p \<noteq> [])
     (map (\<lambda>((i, l), (j, r)). ((i, j), fst (compatibility l r))) (pairs_of runs))"

definition pair_json :: "(string \<times> string) \<times> string list \<Rightarrow> pyval" where
  "pair_json p = PDict [(''runs'', strs [fst (fst p), snd (fst p)]), (''reasons'', strs (snd p))]"

definition table_statement :: string where
  "table_statement = ''Rows are listed in request order. Each MRI is shown with its subscores, denominators and curve; no delta, mean or rank is computed (spec 15.8).''"

definition comparison_table :: "(string \<times> pydict) list \<Rightarrow> (compare_error, pyval) result" where
  "comparison_table runs =
     (let ids = map fst runs; bad = incompatible_pairs runs;
          scores = map (\<lambda>(i, r). (i, r, require_complete_score i r)) runs;
          missing = concat (map (\<lambda>(_, _, _, why). why) scores)
      in if length runs < min_table_runs then Inl (BadInput ''a comparison table needs at least 2 runs'')
         else if max_table_runs < length runs then Inl (BadInput ''a comparison table takes at most 10 runs'')
         else if \<not> distinct ids then Inl (BadInput ''a run may appear only once in a comparison table'')
         else if bad \<noteq> [] then Inl (Incompatible (dedup (concat (map snd bad))) (map pair_json bad))
         else if missing \<noteq> [] then Inl (ScoreUnavailable missing)
         else rbind (rmap (\<lambda>(i, r, s, _). table_row i r s) scores) (\<lambda>rows.
              rbind (caveats_of (map snd runs)) (\<lambda>caveats.
              let first = hd runs;
                  table = PDict [(''mode'', PStr ''table''), (''compatible'', PBool True), (''run_ids'', strs ids), (''rows'', PList rows),
                    (''changed_variables_per_row'', PDict (map (\<lambda>(i, r). (i, strs (if i = fst first then [] else changed_variables (snd first) r))) runs)),
                    (''unchanged_variables'', strs (shared_by_all (map (\<lambda>((_, l), (_, r)). snd (compatibility l r)) (pairs_of runs)))),
                    (''ignored_variables'', strs ignored_variables), (''caveats'', strs caveats), (''statement'', PStr table_statement)]
              in rbind (assert_no_aggregate_keys table []) (\<lambda>_. Inr table))))"

subsection \<open>Groups of a batch\<close>

type_synonym member = "string \<times> pydict \<times> pydict"    \<comment> \<open>run id, record, score\<close>

record group =
  g_members :: "member list"
  g_unchanged :: "string list option"

text \<open>The verdict for a run: unavailable with its reasons, or a member with its score.\<close>

definition admit_run :: "string \<times> pydict option \<times> pydict option \<Rightarrow> (string \<times> string list) + member" where
  "admit_run q = (case q of
      (i, None, ov) \<Rightarrow> Inl (i, [let reason = (case ov of Some d \<Rightarrow> py_get d ''unavailable_reason'' | None \<Rightarrow> PNone)
        in if falsy reason then i @ '': no campaign record'' else py_text reason])
    | (i, Some r, ov) \<Rightarrow> (case require_complete_score i r of (s, why) \<Rightarrow> if why = [] then Inr (i, r, s) else Inl (i, why)))"

text \<open>A run joins the first group whose first member it is compatible with; the pairs that refused it are recorded.\<close>

fun place :: "member \<Rightarrow> group list \<Rightarrow> group list \<times> ((string \<times> string) \<times> string list) list" where
  "place m [] = ([\<lparr>g_members = [m], g_unchanged = None\<rparr>], [])"
| "place m (g # gs) =
     (let f = hd (g_members g); c = compatibility (fst (snd f)) (fst (snd m)) in
      if fst c \<noteq> [] then (case place m gs of (gs', bad) \<Rightarrow> (g # gs', ((fst f, fst m), fst c) # bad))
      else (\<lparr>g_members = g_members g @ [m], g_unchanged = Some (case g_unchanged g of
              None \<Rightarrow> snd c | Some u \<Rightarrow> filter (\<lambda>k. k \<in> set (snd c)) u)\<rparr> # gs, []))"

definition place_all :: "member list \<Rightarrow> group list \<times> ((string \<times> string) \<times> string list) list" where
  "place_all ms = foldl (\<lambda>(gs, bad) m. case place m gs of (gs', b) \<Rightarrow> (gs', bad @ b)) ([], []) ms"

fun rights :: "('a + 'b) list \<Rightarrow> 'b list" where
  "rights [] = []" | "rights (Inl a # xs) = rights xs" | "rights (Inr b # xs) = b # rights xs"

fun lefts :: "('a + 'b) list \<Rightarrow> 'a list" where
  "lefts [] = []" | "lefts (Inl a # xs) = a # lefts xs" | "lefts (Inr b # xs) = lefts xs"

definition distinct_models :: "member list \<Rightarrow> bool" where
  "distinct_models ms = (case ms of [] \<Rightarrow> False | m # r \<Rightarrow> list_ex (\<lambda>x. \<not> py_eq (model_hash (fst (snd m))) (model_hash (fst (snd x)))) r)"

definition group_json :: "group \<Rightarrow> (compare_error, pyval) result" where
  "group_json g =
     (let ms = g_members g; first = fst (snd (hd ms)) in
      rbind (rmap (\<lambda>(_, r, s). scorecard_projection r s) ms) (\<lambda>cards.
      Inr (PDict [(''key'', PDict (dset sample_variable (sample_hash first) (compared_config first))),
        (''run_ids'', strs (map fst ms)), (''scorecards'', PList cards),
        (''changed_variables'', strs (if distinct_models ms then [''model''] else [])),
        (''unchanged_variables'', strs (sorted_set (case g_unchanged g of Some u \<Rightarrow> u | None \<Rightarrow> map fst (compared_config first) @ [sample_variable])))])))"

definition batch_statement :: string where
  "batch_statement = ''Scorecards are grouped by comparability (same frozen settings and sampled inputs) and listed in request order within a group; each MRI is shown with its subscores, denominators and curve. Nothing is computed across members or groups: no delta, mean, rank or cross-model aggregate (spec 15.8; D9).''"

definition comparability_groups :: "(string \<times> pydict option \<times> pydict option) list \<Rightarrow> (compare_error, pyval) result" where
  "comparability_groups runs =
     (let ids = map fst runs; verdicts = map admit_run runs; scored = rights verdicts; placed = place_all scored in
      if \<not> distinct ids then Inl (BadInput ''a run may appear only once in a batch comparison'')
      else rbind (rmap group_json (fst placed)) (\<lambda>groups.
           rbind (caveats_of (map (\<lambda>(_, r, _). r) scored)) (\<lambda>caveats.
           let table = PDict [(''mode'', PStr ''batch_side_by_side''), (''run_ids'', strs ids), (''groups'', PList groups),
                 (''n_groups'', PInt (int (length groups))), (''compatible'', PBool (length groups \<le> 1)),
                 (''incompatible_pairs'', PList (map pair_json (snd placed))),
                 (''unavailable'', PList (map (\<lambda>(i, why). PDict [(''run_id'', PStr i), (''reasons'', strs why)]) (lefts verdicts))),
                 (''ignored_variables'', strs ignored_variables), (''caveats'', strs caveats), (''statement'', PStr batch_statement)]
           in rbind (assert_no_aggregate_keys table []) (\<lambda>_. Inr table))))"

subsection \<open>What compatible means\<close>

lemma set_sorted_set [simp]: "set (sorted_set ks) = set ks"
  by (simp add: sorted_set_def)

lemma py_get_absent: "k \<notin> fst ` set d \<Longrightarrow> py_get d k = PNone"
  by (simp add: py_get_def map_of_eq_None_iff [symmetric] split: option.split)

lemma config_mismatches_Nil: "config_mismatches l r = [] \<longleftrightarrow> (\<forall>k. same_at (compared_config l) (compared_config r) k)"
proof -
  have "same_at l' r' k" if "k \<notin> fst ` set l'" "k \<notin> fst ` set r'" for l' r' k
    using that by (simp add: same_at_def py_get_absent)
  then show ?thesis by (auto simp: config_mismatches_def filter_empty_conv) blast
qed

lemma sample_mismatch_Nil:
  "sample_mismatch l r = [] \<longleftrightarrow> \<not> falsy (sample_hash l) \<and> \<not> falsy (sample_hash r) \<and> py_eq (sample_hash l) (sample_hash r)"
  by (simp add: sample_mismatch_def)

lemma compatibility_Nil:
  "fst (compatibility l r) = [] \<longleftrightarrow> config_mismatches l r = [] \<and> sample_mismatch l r = [] \<and>
     \<not> (same_model l r \<and> \<not> falsy (settings_hash l) \<and> \<not> falsy (settings_hash r) \<and> \<not> py_eq (settings_hash l) (settings_hash r))"
  by (auto simp: compatibility_def Let_def)

definition comparable :: "pydict \<Rightarrow> pydict \<Rightarrow> bool" where
  "comparable l r \<longleftrightarrow> (\<forall>k. same_at (compared_config l) (compared_config r) k) \<and>
     \<not> falsy (sample_hash l) \<and> \<not> falsy (sample_hash r) \<and> py_eq (sample_hash l) (sample_hash r) \<and>
     (same_model l r \<and> \<not> falsy (settings_hash l) \<and> \<not> falsy (settings_hash r) \<longrightarrow> py_eq (settings_hash l) (settings_hash r))"

lemma compatibility_comparable: "fst (compatibility l r) = [] \<longleftrightarrow> comparable l r"
  unfolding compatibility_Nil config_mismatches_Nil sample_mismatch_Nil comparable_def by blast

subsection \<open>The table\<close>

fun all_keys :: "pyval \<Rightarrow> string list" where
  "all_keys (PDict d) = concat (map (\<lambda>(k, v). k # all_keys v) d)"
| "all_keys (PList vs) = concat (map all_keys vs)"
| "all_keys v = []"

lemma assert_no_aggregate_keys_Inr:
  "assert_no_aggregate_keys v path = Inr () \<longleftrightarrow> list_all (\<lambda>k. lower k \<notin> set forbidden_table_keys) (all_keys v)"
  "assert_items d path = Inr () \<longleftrightarrow> list_all (\<lambda>k. lower k \<notin> set forbidden_table_keys) (all_keys (PDict d))"
  "assert_elems vs path i = Inr () \<longleftrightarrow> list_all (\<lambda>k. lower k \<notin> set forbidden_table_keys) (all_keys (PList vs))"
  by (induction v path and d path and vs path i rule: assert_no_aggregate_keys_assert_items_assert_elems.induct) auto

lemma rmap_Inr: "rmap f xs = Inr ys \<longleftrightarrow> list_all2 (\<lambda>x y. f x = Inr y) xs ys"
  by (induction xs arbitrary: ys) (auto simp: list_all2_Cons1)

lemma incompatible_pairs_Nil:
  "incompatible_pairs runs = [] \<longleftrightarrow> list_all (\<lambda>((_, l), (_, r)). comparable l r) (pairs_of runs)"
  by (auto simp: incompatible_pairs_def filter_empty_conv list_all_iff compatibility_comparable [symmetric])

definition complete_score :: "pydict \<Rightarrow> pydict \<Rightarrow> bool" where
  "complete_score r s \<longleftrightarrow> score_of r = Some s \<and> py_get s ''mri'' \<noteq> PNone"

lemma require_complete_score_ok: "snd (require_complete_score i r) = [] \<longleftrightarrow> complete_score r (fst (require_complete_score i r))"
  by (auto simp: require_complete_score_def complete_score_def Let_def split: option.splits if_splits)

text \<open>C32. A comparison table never mixes what may not be compared: it exists only for two to ten distinct runs
  of which every two agree in every compared config field and in the recorded sample, do not contradict each
  other's settings hash, and each carry a complete index; its rows come in request order, row by row computed
  from one run's own record and score; and no object in the whole payload has a key that names an aggregate.\<close>

theorem comparison_table_sound:
  assumes "comparison_table runs = Inr table"
  shows "2 \<le> length runs \<and> length runs \<le> 10 \<and> distinct (map fst runs) \<and>
    list_all (\<lambda>((_, l), (_, r)). comparable l r) (pairs_of runs) \<and>
    (\<exists>d rows. table = PDict d \<and> dget d ''rows'' = Some (PList rows) \<and>
      list_all2 (\<lambda>(i, r) row. \<exists>s. complete_score r s \<and> table_row i r s = Inr row) runs rows) \<and>
    list_all (\<lambda>k. lower k \<notin> set forbidden_table_keys) (all_keys table)"
proof -
  define scores where "scores = map (\<lambda>(i, r). (i, r, require_complete_score i r)) runs"
  have g: "\<not> length runs < min_table_runs" "\<not> max_table_runs < length runs" "distinct (map fst runs)" "incompatible_pairs runs = []"
    "concat (map (\<lambda>(_, _, _, why). why) scores) = []"
    using assms by (auto simp: comparison_table_def Let_def scores_def split: if_splits)
  obtain rows d where rows: "rmap (\<lambda>(i, r, s, _). table_row i r s) scores = Inr rows"
    and t: "table = PDict d" "dget d ''rows'' = Some (PList rows)" "assert_no_aggregate_keys table [] = Inr ()"
    using assms g by (auto simp: comparison_table_def Let_def scores_def [symmetric] split: if_splits)
  have "snd (require_complete_score i r) = []" if "(i, r) \<in> set runs" for i r
  proof -
    obtain sc why where q: "require_complete_score i r = (sc, why)" by (cases "require_complete_score i r")
    have "(i, r, sc, why) \<in> set scores" using that q by (force simp: scores_def)
    then show ?thesis using g(5) q by (auto simp: concat_eq_Nil_conv)
  qed
  then have "list_all (\<lambda>(i, r). complete_score r (fst (require_complete_score i r))) runs"
    by (auto simp: list_all_iff require_complete_score_ok)
  moreover have "list_all2 (\<lambda>(i, r) row. table_row i r (fst (require_complete_score i r)) = Inr row) runs rows"
    using rows unfolding rmap_Inr scores_def list_all2_map1
    by (rule list_all2_mono) (auto split: prod.splits)
  ultimately have "list_all2 (\<lambda>(i, r) row. \<exists>s. complete_score r s \<and> table_row i r s = Inr row) runs rows"
    by (auto simp: list_all2_conv_all_nth list_all_length split: prod.splits) blast
  moreover have "2 \<le> length runs" "length runs \<le> 10" using g(1,2) by (simp_all add: min_table_runs_def max_table_runs_def)
  moreover have "list_all (\<lambda>((_, l), (_, r)). comparable l r) (pairs_of runs)" using g(4) by (simp add: incompatible_pairs_Nil)
  moreover have "list_all (\<lambda>k. lower k \<notin> set forbidden_table_keys) (all_keys table)"
    using t(3) by (simp only: assert_no_aggregate_keys_Inr)
  ultimately show ?thesis using g(3) t(1,2) by blast
qed

definition ex_record :: "string \<Rightarrow> string \<Rightarrow> pydict" where
  "ex_record model settings = [(''config'', PDict [(''modality'', PStr ''image''), (''n_samples'', PInt 64)]),
     (''provenance'', PDict [(''sample_indices_sha256'', PStr ''s''), (''model_sha256'', PStr model), (''settings_hash'', PStr settings)]),
     (''score'', PDict [(''mri'', PFlt 71), (''grade'', PStr ''C'')])]"

lemma comparison_table_sound_witness: "comparable (ex_record ''a'' ''h'') (ex_record ''b'' ''h'')"
proof -
  have "is_ok (comparison_table [(''r1'', ex_record ''a'' ''h''), (''r2'', ex_record ''b'' ''h'')])" by code_simp
  then obtain t where "comparison_table [(''r1'', ex_record ''a'' ''h''), (''r2'', ex_record ''b'' ''h'')] = Inr t"
    unfolding is_ok_iff by blast
  from comparison_table_sound [OF this] show ?thesis by simp
qed

subsection \<open>The groups\<close>

definition firsts_ok :: "group \<Rightarrow> bool" where
  "firsts_ok g \<longleftrightarrow> g_members g \<noteq> [] \<and> list_all (\<lambda>m. comparable (fst (snd (hd (g_members g)))) (fst (snd m))) (tl (g_members g))"

definition first_record :: "group \<Rightarrow> pydict" where
  "first_record g = fst (snd (hd (g_members g)))"

definition placed_from :: "member \<Rightarrow> group list \<Rightarrow> group list \<Rightarrow> bool" where
  "placed_from m gs gs' \<longleftrightarrow> list_all firsts_ok gs' \<and>
     mset (concat (map g_members gs')) = add_mset m (mset (concat (map g_members gs))) \<and>
     (map first_record gs' = map first_record gs \<or>
      map first_record gs' = map first_record gs @ [fst (snd m)] \<and> list_all (\<lambda>g. \<not> comparable (first_record g) (fst (snd m))) gs) \<and>
     list_all (\<lambda>g'. g_members g' = [m] \<or> (\<exists>g \<in> set gs. g_members g' = g_members g \<or> g_members g' = g_members g @ [m])) gs'"

lemma place_ok: "place m gs = (gs', bad) \<Longrightarrow> list_all firsts_ok gs \<Longrightarrow> placed_from m gs gs'"
proof (induction m gs arbitrary: gs' bad rule: place.induct)
  case (1 m)
  then show ?case by (auto simp: placed_from_def firsts_ok_def first_record_def)
next
  case (2 m g gs)
  have ok: "firsts_ok g" "list_all firsts_ok gs" using "2.prems"(2) by simp_all
  let ?c = "compatibility (first_record g) (fst (snd m))"
  show ?case
  proof (cases "fst ?c = []")
    case False
    obtain hs b where h: "place m gs = (hs, b)" by (cases "place m gs")
    have gs': "gs' = g # hs" using "2.prems"(1) False h by (auto simp: Let_def first_record_def)
    have "placed_from m gs hs" using "2.IH" False h ok(2) by (simp add: first_record_def)
    moreover have "\<not> comparable (first_record g) (fst (snd m))" using False by (simp add: compatibility_comparable)
    ultimately show ?thesis using ok(1) unfolding placed_from_def gs' by (auto simp: list_all_iff)
  next
    case True
    obtain u where gs': "gs' = \<lparr>g_members = g_members g @ [m], g_unchanged = u\<rparr> # gs"
      using "2.prems"(1) True by (auto simp: Let_def first_record_def)
    have "comparable (first_record g) (fst (snd m))" using True by (simp add: compatibility_comparable)
    moreover have "g_members g \<noteq> []" using ok(1) by (simp add: firsts_ok_def)
    ultimately show ?thesis using ok unfolding placed_from_def gs'
      by (auto simp: firsts_ok_def first_record_def list_all_iff)
  qed
qed

definition groups_ok :: "member list \<Rightarrow> group list \<Rightarrow> bool" where
  "groups_ok ms gs \<longleftrightarrow> list_all firsts_ok gs \<and> mset (concat (map g_members gs)) = mset ms \<and>
     list_all (\<lambda>g. subseq (g_members g) ms) gs \<and>
     list_all (\<lambda>(l, r). \<not> comparable l r) (pairs_of (map first_record gs))"

lemma pairs_of_append: "set (pairs_of (xs @ [y])) = set (pairs_of xs) \<union> (\<lambda>x. (x, y)) ` set xs"
  by (induction xs) auto

lemma groups_ok_step:
  assumes "groups_ok ms gs" "place m gs = (gs', b)"
  shows "groups_ok (ms @ [m]) gs'"
proof -
  have p: "placed_from m gs gs'" using place_ok [OF assms(2)] assms(1) by (simp add: groups_ok_def)
  have sub: "list_all (\<lambda>g. subseq (g_members g) ms) gs" using assms(1) by (simp add: groups_ok_def)
  have "subseq (g_members g') (ms @ [m])" if "g' \<in> set gs'" for g'
  proof -
    have "g_members g' = [m] \<or> (\<exists>g \<in> set gs. g_members g' = g_members g \<or> g_members g' = g_members g @ [m])"
      using p that by (simp add: placed_from_def list_all_iff)
    moreover have "subseq [m] (ms @ [m])" by (rule list_emb_append2) simp
    moreover have "subseq (g_members g) (ms @ [m])" "subseq (g_members g @ [m]) (ms @ [m])" if "g \<in> set gs" for g
      using sub that by (auto simp: list_all_iff intro: list_emb_append_mono subseq_rev_drop_many)
    ultimately show ?thesis by auto
  qed
  moreover have "list_all (\<lambda>(l, r). \<not> comparable l r) (pairs_of (map first_record gs'))"
    using p assms(1) pairs_of_append [of "map first_record gs" "fst (snd m)"]
    by (auto simp: placed_from_def groups_ok_def list_all_iff)
  ultimately show ?thesis using p assms(1) by (simp add: placed_from_def groups_ok_def list_all_iff)
qed

lemma place_all_ok: "groups_ok ms (fst (place_all ms))"
proof (induction ms rule: rev_induct)
  case Nil
  then show ?case by (simp add: groups_ok_def place_all_def)
next
  case (snoc m ms)
  obtain gs bad where q: "place_all ms = (gs, bad)" by (cases "place_all ms")
  obtain gs' b where p: "place m gs = (gs', b)" by (cases "place m gs")
  have "place_all (ms @ [m]) = (gs', bad @ b)" using q p by (simp add: place_all_def)
  then show ?case using groups_ok_step [OF _ p] snoc q by simp
qed

lemma admit_run_id: "(case admit_run q of Inl (i, _) \<Rightarrow> i | Inr (i, _, _) \<Rightarrow> i) = fst q"
  by (cases q; cases "fst (snd q)") (auto simp: admit_run_def split: prod.splits)

lemma verdict_ids: "mset (map fst (rights (map admit_run runs))) + mset (map fst (lefts (map admit_run runs))) = mset (map fst runs)"
proof (induction runs)
  case (Cons q runs)
  then show ?case using admit_run_id [of q] by (cases "admit_run q") (auto split: prod.splits)
qed simp

text \<open>The groups of a batch comparison partition the runs: every run appears exactly once, in one group or
  among the unavailable ones; a group lists its members in request order, each comparable with the first;
  the first members of two groups are not comparable, so no run was split off without cause; and the payload
  shows exactly these groups.\<close>

theorem batch_groups_partition:
  assumes "comparability_groups runs = Inr table"
  shows "\<exists>d gs js. table = PDict d \<and> dget d ''groups'' = Some (PList js) \<and> list_all2 (\<lambda>g j. group_json g = Inr j) gs js \<and>
    groups_ok (rights (map admit_run runs)) gs \<and>
    mset (concat (map (\<lambda>g. map fst (g_members g)) gs)) + mset (map fst (lefts (map admit_run runs))) = mset (map fst runs)"
proof -
  define gs where "gs = fst (place_all (rights (map admit_run runs)))"
  obtain js where js: "rmap group_json gs = Inr js" and t: "\<exists>d. table = PDict d \<and> dget d ''groups'' = Some (PList js)"
    using assms by (auto simp: comparability_groups_def Let_def gs_def split: if_splits)
  have ok: "groups_ok (rights (map admit_run runs)) gs" unfolding gs_def by (rule place_all_ok)
  then have "mset (concat (map g_members gs)) = mset (rights (map admit_run runs))" by (simp add: groups_ok_def)
  then have "image_mset fst (mset (concat (map g_members gs))) = mset (map fst (rights (map admit_run runs)))" by simp
  moreover have "mset (concat (map (\<lambda>g. map fst (g_members g)) gs)) = image_mset fst (mset (concat (map g_members gs)))"
    by (induction gs) auto
  ultimately have ids: "mset (concat (map (\<lambda>g. map fst (g_members g)) gs)) + mset (map fst (lefts (map admit_run runs))) = mset (map fst runs)"
    using verdict_ids [of runs] by argo
  obtain d where "table = PDict d" "dget d ''groups'' = Some (PList js)" using t by blast
  then show ?thesis using js [unfolded rmap_Inr] ok ids by blast
qed

definition ex_batch :: "(string \<times> pydict option \<times> pydict option) list" where
  "ex_batch = [(''r1'', Some (ex_record ''a'' ''h''), None), (''r2'', Some (ex_record ''b'' ''h1''), None),
     (''r3'', Some (ex_record ''b'' ''h2''), None), (''r4'', None, None)]"

lemma batch_groups_partition_witness: "\<exists>gs. groups_ok (rights (map admit_run ex_batch)) gs"
proof -
  have "is_ok (comparability_groups ex_batch)" by code_simp
  then obtain t where "comparability_groups ex_batch = Inr t" unfolding is_ok_iff by blast
  from batch_groups_partition [OF this] show ?thesis by blast
qed

text \<open>
  Comparability is not transitive, because the settings hashes are compared only for equal models: two
  members of one group can contradict each other.
\<close>

lemma group_with_incomparable_members:
  "map (map fst \<circ> g_members) (fst (place_all (rights (map admit_run ex_batch)))) = [[''r1'', ''r2'', ''r3'']]"
  "fst (compatibility (ex_record ''b'' ''h1'') (ex_record ''b'' ''h2'')) = [''settings_hash'']"
  by code_simp+

end
