(* ===== verification/Egress.thy ===== *)
theory Egress
  imports Safety
begin

text \<open>
  \<open>ml/endpoint_egress.py\<close>: what a black-box endpoint target may connect to. The static check of a
  registration URL, the resolution and classification of a host, the exemptions of the allow list and
  the pins of a session against DNS rebinding. The address properties are those of \<open>ipaddress\<close> in
  Python 3.14, the version of the deployed images, where an IPv4-mapped address has the properties of
  the IPv4 one. The resolver is a parameter; the scope id of a resolved address is not represented.
\<close>

subsection \<open>Classes of addresses\<close>

datatype address_class = Public | Loopback | Private | LinkLocal | Multicast | Reserved | Unspecified

fun class_name :: "address_class \<Rightarrow> string" where
  "class_name Public = ''public''" | "class_name Loopback = ''loopback''" | "class_name Private = ''private''"
| "class_name LinkLocal = ''link_local''" | "class_name Multicast = ''multicast''"
| "class_name Reserved = ''reserved''" | "class_name Unspecified = ''unspecified''"

definition never_exempt :: "address_class list" where
  "never_exempt = [Multicast, Reserved, Unspecified]"

definition v4_private :: "ipnet list" where
  "v4_private = List.map_filter ip_network
     [''0.0.0.0/8'', ''10.0.0.0/8'', ''127.0.0.0/8'', ''169.254.0.0/16'', ''172.16.0.0/12'', ''192.0.0.0/24'',
      ''192.0.0.170/31'', ''192.0.2.0/24'', ''192.168.0.0/16'', ''198.18.0.0/15'', ''198.51.100.0/24'',
      ''203.0.113.0/24'', ''240.0.0.0/4'', ''255.255.255.255/32'']"

definition v4_private_exceptions :: "ipnet list" where
  "v4_private_exceptions = List.map_filter ip_network [''192.0.0.9/32'', ''192.0.0.10/32'']"

definition v6_private :: "ipnet list" where
  "v6_private = List.map_filter ip_network
     [''::1/128'', ''::/128'', ''::ffff:0:0/96'', ''64:ff9b:1::/48'', ''100::/64'', ''2001::/23'', ''2001:db8::/32'',
      ''2002::/16'', ''3fff::/20'', ''fc00::/7'', ''fe80::/10'']"

definition v6_private_exceptions :: "ipnet list" where
  "v6_private_exceptions = List.map_filter ip_network
     [''2001:1::1/128'', ''2001:1::2/128'', ''2001:3::/32'', ''2001:4:112::/48'', ''2001:20::/28'', ''2001:30::/28'']"

definition v6_reserved :: "ipnet list" where
  "v6_reserved = List.map_filter ip_network
     [''::/8'', ''100::/8'', ''200::/7'', ''400::/6'', ''800::/5'', ''1000::/4'', ''4000::/3'', ''6000::/3'', ''8000::/3'',
      ''a000::/3'', ''c000::/3'', ''e000::/4'', ''f000::/5'', ''f800::/6'', ''fe00::/9'']"

definition in_any :: "ipaddr \<Rightarrow> ipnet list \<Rightarrow> bool" where
  "in_any a ns = list_ex (in_network a) ns"

text \<open>An IPv4-mapped address is judged as the IPv4 address.\<close>

definition unmapped :: "ipaddr \<Rightarrow> ipaddr" where
  "unmapped a = (case a of V4 n \<Rightarrow> a | V6 n \<Rightarrow> (case ipv4_mapped n of Some m \<Rightarrow> V4 m | None \<Rightarrow> a))"

definition is_unspecified :: "ipaddr \<Rightarrow> bool" where
  "is_unspecified a = (case unmapped a of V4 n \<Rightarrow> n = 0 | V6 n \<Rightarrow> n = 0)"

definition is_link_local :: "ipaddr \<Rightarrow> bool" where
  "is_link_local a = (case unmapped a of V4 _ \<Rightarrow> in_block (unmapped a) ''169.254.0.0/16'' | V6 _ \<Rightarrow> in_block a ''fe80::/10'')"

definition is_multicast :: "ipaddr \<Rightarrow> bool" where
  "is_multicast a = (case unmapped a of V4 _ \<Rightarrow> in_block (unmapped a) ''224.0.0.0/4'' | V6 _ \<Rightarrow> in_block a ''ff00::/8'')"

definition is_reserved :: "ipaddr \<Rightarrow> bool" where
  "is_reserved a = (case unmapped a of V4 _ \<Rightarrow> in_block (unmapped a) ''240.0.0.0/4'' | V6 _ \<Rightarrow> in_any a v6_reserved)"

definition is_private :: "ipaddr \<Rightarrow> bool" where
  "is_private a = (case unmapped a of
      V4 _ \<Rightarrow> in_any (unmapped a) v4_private \<and> \<not> in_any (unmapped a) v4_private_exceptions
    | V6 _ \<Rightarrow> in_any a v6_private \<and> \<not> in_any a v6_private_exceptions)"

definition is_global :: "ipaddr \<Rightarrow> bool" where
  "is_global a = (case unmapped a of
      V4 _ \<Rightarrow> \<not> in_block (unmapped a) ''100.64.0.0/10'' \<and> \<not> is_private a
    | V6 _ \<Rightarrow> \<not> is_private a)"

definition plain_class :: "ipaddr \<Rightarrow> address_class" where
  "plain_class a =
     (if is_unspecified a then Unspecified else if is_loopback_ip a then Loopback
      else if is_link_local a then LinkLocal else if is_multicast a then Multicast
      else if is_reserved a then Reserved else if is_private a then Private
      else if is_global a then Public else Reserved)"

text \<open>The IPv4 address inside a mapped, 6to4 or Teredo address.\<close>

definition embedded_v4 :: "int \<Rightarrow> int option" where
  "embedded_v4 n = (case ipv4_mapped n of
      Some m \<Rightarrow> Some m
    | None \<Rightarrow> if n div 2 ^ 112 = 0x2002 then Some (n div 2 ^ 80 mod 2 ^ 32)
              else if n div 2 ^ 96 = 0x20010000 then Some (2 ^ 32 - 1 - n mod 2 ^ 32) else None)"

definition classify_address :: "ipaddr \<Rightarrow> address_class" where
  "classify_address a = (case a of
      V4 _ \<Rightarrow> plain_class a
    | V6 n \<Rightarrow> (case embedded_v4 n of
        None \<Rightarrow> plain_class a
      | Some m \<Rightarrow> if plain_class (V4 m) \<noteq> Public then plain_class (V4 m) else plain_class a))"

text \<open>\<open>str(ip)\<close>: dotted quad, or hextets with the first longest run of zeros compressed.\<close>

definition v4_str :: "int \<Rightarrow> string" where
  "v4_str n = join ''.'' (map dec [n div 2 ^ 24, n div 2 ^ 16 mod 256, n div 2 ^ 8 mod 256, n mod 256])"

definition hextets_of :: "int \<Rightarrow> int list" where
  "hextets_of n = map (\<lambda>i. n div 2 ^ (112 - 16 * i) mod 65536) [0..<8]"

definition zero_run :: "int list \<Rightarrow> nat" where
  "zero_run hs = length (takeWhile (\<lambda>h. h = 0) hs)"

definition best_run :: "int list \<Rightarrow> nat \<times> nat" where
  "best_run hs = foldl (\<lambda>(i, l) j. if l < zero_run (drop j hs) then (j, zero_run (drop j hs)) else (i, l)) (0, 0) [0..<length hs]"

definition v6_str :: "int \<Rightarrow> string" where
  "v6_str n = (case ipv4_mapped n of
      Some m \<Rightarrow> ''::ffff:'' @ v4_str m
    | None \<Rightarrow> (case best_run (hextets_of n) of (i, l) \<Rightarrow>
        if l \<le> 1 then join '':'' (map hex_of (hextets_of n))
        else join '':'' (map hex_of (take i (hextets_of n))) @ ''::'' @ join '':'' (map hex_of (drop (i + l) (hextets_of n)))))"

definition ip_str :: "ipaddr \<Rightarrow> string" where
  "ip_str a = (case a of V4 n \<Rightarrow> v4_str n | V6 n \<Rightarrow> v6_str n)"

lemma ip_str_examples:
  "ip_str (V4 0xC0A80001) = ''192.168.0.1''" "ip_str (V6 1) = ''::1''"
  "ip_str (V6 0x20010db8000000000001000000000001) = ''2001:db8::1:0:0:1''"
  by code_simp+

lemma classify_examples:
  "map_option classify_address (ip_address ''10.0.0.1'') = Some Private"
  "map_option classify_address (ip_address ''::ffff:127.0.0.1'') = Some Loopback"
  "map_option classify_address (ip_address ''2002:7f00:1::'') = Some Loopback"
  "map_option classify_address (ip_address ''169.254.169.254'') = Some LinkLocal"
  "map_option classify_address (ip_address ''8.8.8.8'') = Some Public"
  by code_simp+

subsection \<open>Refusals\<close>

datatype egress_code = UrlInvalid | NotAllowlisted | Refused

fun egress_code_name :: "egress_code \<Rightarrow> string" where
  "egress_code_name UrlInvalid = ''endpoint_url_invalid''"
| "egress_code_name NotAllowlisted = ''endpoint_not_allowlisted''"
| "egress_code_name Refused = ''egress_refused''"

record egress_refused =
  er_code :: egress_code
  er_rule :: string
  er_reason :: string
  er_host :: "string option"
  er_address :: "string option"

definition refused_detail :: "egress_refused \<Rightarrow> jdict" where
  "refused_detail e =
     [(''code'', JStr (egress_code_name (er_code e))), (''rule'', JStr (er_rule e)), (''reason'', JStr (er_reason e))] @
     (case er_host e of None \<Rightarrow> [] | Some h \<Rightarrow> [(''host'', JStr h)]) @
     (case er_address e of None \<Rightarrow> [] | Some a \<Rightarrow> [(''address'', JStr a)])"

text \<open>A refusal, or the \<open>ValueError\<close> of \<open>urlsplit\<close> that the static check lets through.\<close>

datatype egress_error = Egress egress_refused | UrlValueError

definition url_invalid :: "string \<Rightarrow> string \<Rightarrow> string option \<Rightarrow> (egress_error, 'a) result" where
  "url_invalid rule reason host =
     Inl (Egress \<lparr>er_code = UrlInvalid, er_rule = rule, er_reason = reason, er_host = host, er_address = None\<rparr>)"

definition refuse_egress :: "string \<Rightarrow> string \<Rightarrow> string \<Rightarrow> string option \<Rightarrow> (egress_error, 'a) result" where
  "refuse_egress rule reason host address =
     Inl (Egress \<lparr>er_code = Refused, er_rule = rule, er_reason = reason, er_host = Some host, er_address = address\<rparr>)"

definition quoted :: "string \<Rightarrow> string" where "quoted s = [CHR 0x27] @ s @ [CHR 0x27]"

subsection \<open>Hosts and the allow list\<close>

definition strip_ends :: "string \<Rightarrow> string" where
  "strip_ends s = rev (dropWhile (\<lambda>c. c \<in> set ''[]'') (rev (dropWhile (\<lambda>c. c \<in> set ''[]'') s)))"

definition normalise_host :: "string \<Rightarrow> string" where
  "normalise_host h = lower (strip_ends (strip h))"

definition literal_ip :: "string \<Rightarrow> (egress_error, ipaddr option) result" where
  "literal_ip host = (if CHR ''%'' \<in> set host
     then url_invalid ''host'' ''IPv6 zone identifiers are not permitted'' (Some host)
     else Inr (ip_address host))"

definition alnum_lower :: "char \<Rightarrow> bool" where
  "alnum_lower c \<longleftrightarrow> is_digit c \<or> (let n = of_char c :: int in 97 \<le> n \<and> n \<le> 122)"

text \<open>The label pattern; its \<open>$\<close> also matches before a final line feed.\<close>

definition label_body :: "string \<Rightarrow> bool" where
  "label_body l \<longleftrightarrow> l \<noteq> [] \<and> length l \<le> 63 \<and> alnum_lower (hd l) \<and> alnum_lower (last l) \<and>
     list_all (\<lambda>c. alnum_lower c \<or> c = CHR ''-'') l"

definition valid_label :: "string \<Rightarrow> bool" where
  "valid_label l \<longleftrightarrow> label_body l \<or> (l \<noteq> [] \<and> last l = CHR 0x0A \<and> label_body (butlast l))"

definition is_ascii :: "string \<Rightarrow> bool" where
  "is_ascii s \<longleftrightarrow> list_all (\<lambda>c. (of_char c :: int) < 128) s"

definition valid_hostname :: "string \<Rightarrow> bool" where
  "valid_hostname h \<longleftrightarrow> h \<noteq> [] \<and> length h \<le> 253 \<and> is_ascii h \<and> last h \<noteq> CHR ''.'' \<and>
     \<not> all_digits (last (split_on CHR ''.'' h)) \<and> list_all valid_label (split_on CHR ''.'' h)"

definition entry_ip :: "string \<Rightarrow> ipaddr option" where
  "entry_ip entry = ip_address (strip_ends entry)"

definition entry_network :: "string \<Rightarrow> ipnet option" where
  "entry_network entry = (if CHR ''/'' \<in> set entry then ip_network entry else None)"

definition entries :: "string list \<Rightarrow> string list" where
  "entries allowlist = filter (\<lambda>e. e \<noteq> []) (map (\<lambda>e. lower (strip e)) allowlist)"

text \<open>The kind of match of one entry.\<close>

definition entry_match :: "string \<Rightarrow> ipaddr option \<Rightarrow> string \<Rightarrow> string option" where
  "entry_match host ip entry = (case ip of
      Some a \<Rightarrow> (case entry_ip entry of
          Some b \<Rightarrow> if b = a then Some ''ip'' else None
        | None \<Rightarrow> (case entry_network entry of
            Some n \<Rightarrow> if in_network a n then Some ''cidr'' else None
          | None \<Rightarrow> if strip_ends entry = host then Some ''host'' else None))
    | None \<Rightarrow> if strip_ends entry = host then Some ''host'' else None)"

definition allowlist_match :: "string \<Rightarrow> string list \<Rightarrow> (egress_error, (string \<times> string) option) result" where
  "allowlist_match host allowlist = (let h = normalise_host host in
     rbind (literal_ip h) (\<lambda>ip.
       Inr (case find (\<lambda>e. entry_match h ip e \<noteq> None) (entries allowlist) of
           None \<Rightarrow> None | Some e \<Rightarrow> map_option (\<lambda>kind. (e, kind)) (entry_match h ip e))))"

text \<open>\<open>network.is_private\<close>: first and last address in one private block, neither in an exception.\<close>

definition net_first :: "ipnet \<Rightarrow> ipaddr" where
  "net_first n = (case n of N4 b p \<Rightarrow> V4 b | N6 b p \<Rightarrow> V6 b)"

definition net_last :: "ipnet \<Rightarrow> ipaddr" where
  "net_last n = (case n of N4 b p \<Rightarrow> V4 (b + 2 ^ (32 - p) - 1) | N6 b p \<Rightarrow> V6 (b + 2 ^ (128 - p) - 1))"

definition net_private :: "ipnet \<Rightarrow> bool" where
  "net_private n = (case n of
      N4 _ _ \<Rightarrow> list_ex (\<lambda>b. in_network (net_first n) b \<and> in_network (net_last n) b) v4_private \<and>
        list_all (\<lambda>b. \<not> in_network (net_first n) b \<and> \<not> in_network (net_last n) b) v4_private_exceptions
    | N6 _ _ \<Rightarrow> list_ex (\<lambda>b. in_network (net_first n) b \<and> in_network (net_last n) b) v6_private \<and>
        list_all (\<lambda>b. \<not> in_network (net_first n) b \<and> \<not> in_network (net_last n) b) v6_private_exceptions)"

definition entry_exempts :: "ipaddr \<Rightarrow> bool \<Rightarrow> string \<Rightarrow> string \<Rightarrow> bool" where
  "entry_exempts a alias host entry = (case entry_ip entry of
      Some b \<Rightarrow> b = a
    | None \<Rightarrow> (case entry_network entry of
        Some n \<Rightarrow> net_private n \<and> in_network a n
      | None \<Rightarrow> alias \<and> strip_ends entry = host))"

definition address_exempt :: "ipaddr \<Rightarrow> address_class \<Rightarrow> string \<Rightarrow> string list \<Rightarrow> bool" where
  "address_exempt a cls host allowlist \<longleftrightarrow> cls \<notin> set never_exempt \<and>
     list_ex (entry_exempts a (host \<in> set loopback_hosts \<and> cls \<in> {Loopback, Private}) host) (entries allowlist)"

subsection \<open>The static check of a URL\<close>

record parsed_endpoint =
  pe_url :: string
  pe_scheme :: string
  pe_host :: string
  pe_port :: int
  pe_path :: string
  pe_literal :: bool
  pe_class :: "address_class option"     \<comment> \<open>\<open>None\<close>: \<open>"hostname"\<close>\<close>
  pe_entry :: string
  pe_plaintext :: bool
  pe_plaintext_loopback :: bool

definition max_url_length :: nat where "max_url_length = 2048"

definition default_port :: "string \<Rightarrow> int option" where
  "default_port scheme = (if scheme = ''https'' then Some 443 else if scheme = ''http'' then Some 80 else None)"

definition url_path :: "string \<Rightarrow> string" where
  "url_path u = (let rest = snd (drop_scheme (clean_url u)) in
     takeWhile (\<lambda>c. c \<notin> set ''?#'')
       (if take 2 rest = ''//'' then dropWhile (\<lambda>c. c \<notin> set ''/?#'') (drop 2 rest) else rest))"

text \<open>\<open>parts.port\<close>: \<open>None\<close> is the \<open>ValueError\<close>.\<close>

definition netloc_port :: "string \<Rightarrow> string" where
  "netloc_port n = (let hp = after_last CHR ''@'' n in
     if CHR ''['' \<in> set hp then after CHR '':'' (after CHR '']'' (after CHR ''['' hp)) else after CHR '':'' hp)"

definition port_of :: "string \<Rightarrow> int option option" where
  "port_of text = (if text = [] then Some None
     else if \<not> all_digits text then None
     else if 65535 < nat_of_digits text then None else Some (Some (nat_of_digits text)))"

definition class_refusal :: "string \<Rightarrow> address_class \<Rightarrow> string" where
  "class_refusal what cls = what @ (if cls \<in> set never_exempt then ''no allowlist entry can permit it''
     else ''the allowlist must name it as that literal IP or a private CIDR containing it'')"

definition check_url_shape :: "string \<Rightarrow> (egress_error, string \<times> string \<times> int \<times> ipaddr option) result" where
  "check_url_shape url =
     (if url = [] then url_invalid ''url'' ''url must be a non-empty string'' None
      else if max_url_length < length url then url_invalid ''url'' ''url exceeds 2048 characters'' None
      else if list_ex (\<lambda>c. is_space c \<or> (of_char c :: int) < 32 \<or> 127 \<le> (of_char c :: int)) url then
        url_invalid ''url'' ''url contains whitespace, control or non-ASCII characters'' None
      else case url_netloc url of
        None \<Rightarrow> Inl UrlValueError
      | Some netloc \<Rightarrow>
          let scheme = (case fst (drop_scheme (clean_url url)) of None \<Rightarrow> [] | Some s \<Rightarrow> s);
              host = (case url_hostname url of Some (Some h) \<Rightarrow> h | _ \<Rightarrow> []);
              named = (if host = [] then None else Some host)
          in if default_port scheme = None then url_invalid ''scheme''
               (''scheme must be https (http only for loopback), got '' @ quoted (if scheme = [] then ''none'' else scheme)) None
             else if CHR ''@'' \<in> set netloc then
               url_invalid ''userinfo'' ''userinfo (user:password@) is not permitted in an endpoint URL'' named
             else if CHR ''?'' \<in> set url then
               url_invalid ''query'' ''query strings are not permitted in an endpoint URL'' named
             else if CHR ''#'' \<in> set url then
               url_invalid ''fragment'' ''fragments are not permitted in an endpoint URL'' named
             else if host = [] then url_invalid ''host'' ''url has no host'' None
             else case port_of (netloc_port netloc) of
               None \<Rightarrow> url_invalid ''port'' ''port is not a valid integer'' (Some host)
             | Some p \<Rightarrow>
                 let port = (case p of None \<Rightarrow> the (default_port scheme) | Some n \<Rightarrow> n) in
                 if port < 1 then url_invalid ''port'' (''port '' @ dec port @ '' is outside 1..65535'') (Some host)
                 else rbind (literal_ip host) (\<lambda>ip.
                   if ip = None \<and> \<not> valid_hostname host
                   then url_invalid ''host'' (quoted host @ '' is not a valid hostname or IP literal'') (Some host)
                   else Inr (scheme, host, port, ip)))"

definition endpoint_url :: "string \<Rightarrow> string \<Rightarrow> int \<Rightarrow> ipaddr option \<Rightarrow> string \<Rightarrow> string" where
  "endpoint_url scheme host port ip path =
     scheme @ ''://'' @ (case ip of Some (V6 _) \<Rightarrow> ''['' @ host @ '']'' | _ \<Rightarrow> host) @
     (if default_port scheme = Some port then [] else CHR '':'' # dec port) @ path"

definition not_allowlisted :: "string \<Rightarrow> (egress_error, 'a) result" where
  "not_allowlisted host = Inl (Egress \<lparr>er_code = NotAllowlisted, er_rule = ''not_allowlisted'',
     er_reason = ''host '' @ quoted host @ '' is not in target_allowlist'', er_host = Some host, er_address = None\<rparr>)"

definition admit_endpoint :: "string \<Rightarrow> string list \<Rightarrow> string \<times> string \<times> int \<times> ipaddr option
    \<Rightarrow> (egress_error, parsed_endpoint) result" where
  "admit_endpoint url allowlist shape = (case shape of (scheme, host, port, ip) \<Rightarrow>
     rbind (allowlist_match host allowlist) (\<lambda>m. case m of
       None \<Rightarrow> not_allowlisted host
     | Some (entry, _) \<Rightarrow>
         let cls = map_option classify_address ip;
             path = (if url_path url = [] then ''/'' else url_path url);
             loopback = (host \<in> set loopback_hosts \<or> cls = Some Loopback);
             plaintext = (scheme = ''http'')
         in rbind (case ip of
               Some a \<Rightarrow> if classify_address a \<noteq> Public \<and> \<not> address_exempt a (classify_address a) host allowlist
                 then refuse_egress ''address_class'' (class_refusal (''literal address '' @ host @ '' is '' @
                   class_name (classify_address a) @ ''; '') (classify_address a)) host (Some (ip_str a))
                 else Inr ()
             | None \<Rightarrow> Inr ())
            (\<lambda>_.
              if plaintext \<and> \<not> loopback \<and> cls \<notin> {Some Private, Some LinkLocal} then
                url_invalid ''plaintext'' (''http is only permitted for loopback or allowlisted private literal addresses; '' @
                  quoted host @ '' needs https'') (Some host)
              else Inr \<lparr>pe_url = endpoint_url scheme host port ip path, pe_scheme = scheme, pe_host = host, pe_port = port,
                pe_path = path, pe_literal = (ip \<noteq> None), pe_class = cls, pe_entry = entry, pe_plaintext = plaintext,
                pe_plaintext_loopback = (plaintext \<and> loopback)\<rparr>)))"

definition check_registration_url :: "string \<Rightarrow> string list \<Rightarrow> (egress_error, parsed_endpoint) result" where
  "check_registration_url url allowlist = rbind (check_url_shape url) (admit_endpoint url allowlist)"

subsection \<open>The check before a connection\<close>

text \<open>\<open>Inl\<close>: the name of the \<open>OSError\<close> class.\<close>

type_synonym resolver = "string \<Rightarrow> int \<Rightarrow> (string, string list) result"

type_synonym pins = "(string, ipaddr) dict"

record resolved_host =
  rh_host :: string
  rh_addresses :: "ipaddr list"
  rh_pinned :: ipaddr
  rh_literal :: bool
  rh_entry :: string

definition verify_pin :: "pins \<Rightarrow> string \<Rightarrow> string \<Rightarrow> (egress_error, unit) result" where
  "verify_pin ps host address = (let h = normalise_host host in
     case dget ps h of
       None \<Rightarrow> refuse_egress ''dns_rebinding'' (''no address is pinned for '' @ quoted h @ ''; run check_request_host first'') h (Some address)
     | Some pin \<Rightarrow>
         if ip_address (strip_ends (strip address)) = Some pin then Inr ()
         else refuse_egress ''dns_rebinding'' (''connection to '' @ address @ '' refused; '' @ quoted h @ '' is pinned to '' @ ip_str pin)
           h (Some address))"

fun parse_all :: "string list \<Rightarrow> ipaddr list option" where
  "parse_all [] = Some []"
| "parse_all (s # r) = (case ip_address (strip_ends (strip s)) of
      None \<Rightarrow> None | Some a \<Rightarrow> map_option (Cons a) (parse_all r))"

definition addresses_of :: "resolver \<Rightarrow> string \<Rightarrow> int \<Rightarrow> ipaddr option \<Rightarrow> (egress_error, ipaddr list) result" where
  "addresses_of resolve h port ip = (case ip of
      Some a \<Rightarrow> Inr [a]
    | None \<Rightarrow>
        if \<not> valid_hostname h then url_invalid ''host'' (quoted h @ '' is not a valid hostname or IP literal'') (Some h)
        else case resolve h port of
          Inl exc \<Rightarrow> refuse_egress ''dns_failure'' (''could not resolve '' @ quoted h @ '': '' @ exc) h None
        | Inr raw \<Rightarrow> (case parse_all raw of
            None \<Rightarrow> refuse_egress ''dns_failure'' (''resolver returned a non-address for '' @ quoted h) h None
          | Some as \<Rightarrow> if dedup as = [] then refuse_egress ''dns_empty'' (quoted h @ '' resolved to no address'') h None
              else Inr (dedup as)))"

definition check_address :: "string \<Rightarrow> bool \<Rightarrow> string list \<Rightarrow> ipaddr \<Rightarrow> (egress_error, unit) result" where
  "check_address h literal allowlist a = (let cls = classify_address a in
     if cls = Public then Inr ()
     else if cls = Loopback \<and> \<not> literal \<and> h \<notin> set loopback_hosts then
       refuse_egress ''address_class'' (quoted h @ '' resolves to the loopback address '' @ ip_str a) h (Some (ip_str a))
     else if \<not> address_exempt a cls h allowlist then
       refuse_egress ''address_class'' (quoted h @ '' resolves to '' @ ip_str a @ '' ('' @ class_name cls @ ''); '' @
         (if cls \<in> set never_exempt then ''no allowlist entry can permit it''
          else ''the allowlist does not name it as a literal IP or a private CIDR containing it'')) h (Some (ip_str a))
     else Inr ())"

fun check_all :: "('a \<Rightarrow> ('e, unit) result) \<Rightarrow> 'a list \<Rightarrow> ('e, unit) result" where
  "check_all f [] = Inr ()"
| "check_all f (x # xs) = rbind (f x) (\<lambda>_. check_all f xs)"

definition resolve_and_check :: "resolver \<Rightarrow> string \<Rightarrow> string list \<Rightarrow> int \<Rightarrow> (egress_error, ipaddr list) result" where
  "resolve_and_check resolve host allowlist port = (let h = normalise_host host in
     rbind (literal_ip h) (\<lambda>ip.
     rbind (addresses_of resolve h port ip) (\<lambda>as.
     rbind (check_all (check_address h (ip \<noteq> None) allowlist) as) (\<lambda>_. Inr as))))"

text \<open>The pins are those of the session, when there is one.\<close>

definition check_request_host :: "resolver \<Rightarrow> string list \<Rightarrow> string \<Rightarrow> int \<Rightarrow> bool \<Rightarrow> pins option
    \<Rightarrow> (egress_error, resolved_host) result \<times> pins option" where
  "check_request_host resolve allowlist host port recheck session = (let h = normalise_host host in
     case (rbind (literal_ip h) (\<lambda>ip. rbind (allowlist_match h allowlist) (\<lambda>m. Inr (ip, m)))) of
       Inl e \<Rightarrow> (Inl e, session)
     | Inr (ip, None) \<Rightarrow> (not_allowlisted h, session)
     | Inr (ip, Some (entry, _)) \<Rightarrow>
         (let pin = (case session of None \<Rightarrow> None | Some ps \<Rightarrow> dget ps h) in
          case (pin, recheck) of
            (Some a, False) \<Rightarrow> (Inr \<lparr>rh_host = h, rh_addresses = [a], rh_pinned = a, rh_literal = (ip \<noteq> None), rh_entry = entry\<rparr>, session)
          | _ \<Rightarrow> (case resolve_and_check resolve h allowlist port of
              Inl e \<Rightarrow> (Inl e, session)
            | Inr as \<Rightarrow> (case pin of
                Some a \<Rightarrow>
                  if a \<notin> set as then
                    (refuse_egress ''dns_rebinding'' (quoted h @ '' no longer resolves to the pinned address '' @ ip_str a) h
                       (Some (ip_str a)), session)
                  else (Inr \<lparr>rh_host = h, rh_addresses = as, rh_pinned = a, rh_literal = (ip \<noteq> None), rh_entry = entry\<rparr>, session)
              | None \<Rightarrow> (Inr \<lparr>rh_host = h, rh_addresses = as, rh_pinned = hd as, rh_literal = (ip \<noteq> None), rh_entry = entry\<rparr>,
                  map_option (dset h (hd as)) session)))))"

definition check_endpoint :: "resolver \<Rightarrow> string list \<Rightarrow> string \<Rightarrow> pins
    \<Rightarrow> (egress_error, parsed_endpoint \<times> resolved_host) result \<times> pins" where
  "check_endpoint resolve allowlist url ps = (case check_registration_url url allowlist of
      Inl e \<Rightarrow> (Inl e, ps)
    | Inr p \<Rightarrow> (case check_request_host resolve allowlist (pe_host p) (pe_port p) False (Some ps) of
        (Inl e, s) \<Rightarrow> (Inl e, the s)
      | (Inr r, s) \<Rightarrow> (Inr (p, r), the s)))"

subsection \<open>What a session may connect to\<close>

definition reachable_address :: "string list \<Rightarrow> string \<Rightarrow> ipaddr \<Rightarrow> bool" where
  "reachable_address allowlist h a \<longleftrightarrow> classify_address a = Public \<or>
     (classify_address a \<notin> {Multicast, Reserved, Unspecified} \<and>
      list_ex (\<lambda>e. entry_ip e = Some a \<or>
        (case entry_network e of None \<Rightarrow> False | Some n \<Rightarrow> net_private n \<and> in_network a n) \<or>
        (h \<in> set loopback_hosts \<and> classify_address a \<in> {Loopback, Private} \<and> strip_ends e = h)) (entries allowlist))"

definition admitted_host :: "string list \<Rightarrow> string \<Rightarrow> bool" where
  "admitted_host allowlist h \<longleftrightarrow> list_ex (\<lambda>e. strip_ends e = h \<or>
     (case ip_address h of None \<Rightarrow> False | Some a \<Rightarrow> entry_ip e = Some a \<or>
        (case entry_network e of None \<Rightarrow> False | Some n \<Rightarrow> in_network a n))) (entries allowlist)"

definition pins_ok :: "string list \<Rightarrow> pins \<Rightarrow> bool" where
  "pins_ok allowlist ps \<longleftrightarrow> (\<forall>h a. dget ps h = Some a \<longrightarrow> admitted_host allowlist (normalise_host h) \<and> reachable_address allowlist (normalise_host h) a)"

lemma check_all_Inr: "check_all f xs = Inr u \<longleftrightarrow> list_all (\<lambda>x. f x = Inr ()) xs"
  by (induction xs) auto

lemma address_exempt_reachable:
  assumes "address_exempt a (classify_address a) h al" shows "reachable_address al h a"
proof -
  obtain e where e: "e \<in> set (entries al)"
    "entry_exempts a (h \<in> set loopback_hosts \<and> classify_address a \<in> {Loopback, Private}) h e"
    and c: "classify_address a \<notin> {Multicast, Reserved, Unspecified}"
    using assms by (auto simp: address_exempt_def never_exempt_def list_ex_iff)
  then have "entry_ip e = Some a \<or> (case entry_network e of None \<Rightarrow> False | Some n \<Rightarrow> net_private n \<and> in_network a n) \<or>
      (h \<in> set loopback_hosts \<and> classify_address a \<in> {Loopback, Private} \<and> strip_ends e = h)"
    unfolding entry_exempts_def by (cases "entry_ip e"; cases "entry_network e") simp_all
  then show ?thesis using c e(1) unfolding reachable_address_def list_ex_iff by blast
qed

lemma check_address_reachable:
  assumes "check_address h literal al a = Inr ()" shows "reachable_address al h a"
proof (cases "classify_address a = Public")
  case True
  then show ?thesis by (simp add: reachable_address_def)
next
  case False
  with assms have "address_exempt a (classify_address a) h al"
    by (simp add: check_address_def Let_def refuse_egress_def split: if_splits)
  then show ?thesis by (rule address_exempt_reachable)
qed

lemma resolve_and_check_reachable:
  assumes "resolve_and_check resolve h al port = Inr as"
  shows "as \<noteq> [] \<and> list_all (reachable_address al (normalise_host h)) as"
proof -
  obtain ip where a: "addresses_of resolve (normalise_host h) port ip = Inr as"
    and c: "check_all (check_address (normalise_host h) (ip \<noteq> None) al) as = Inr ()"
    using assms by (auto simp: resolve_and_check_def Let_def)
  have "as \<noteq> []" using a
    by (auto simp: addresses_of_def url_invalid_def refuse_egress_def split: option.splits sum.splits if_splits)
  then show ?thesis using c by (auto simp: check_all_Inr list_all_iff intro: check_address_reachable)
qed

lemma entry_match_admits:
  assumes "entry_match h (ip_address h) e \<noteq> None" "e \<in> set (entries al)"
  shows "admitted_host al h"
proof -
  have "strip_ends e = h \<or> (case ip_address h of None \<Rightarrow> False | Some a \<Rightarrow> entry_ip e = Some a \<or>
        (case entry_network e of None \<Rightarrow> False | Some n \<Rightarrow> in_network a n))"
    using assms(1) unfolding entry_match_def
    by (cases "ip_address h"; cases "entry_ip e"; cases "entry_network e") (simp_all split: if_splits)
  then show ?thesis using assms(2) unfolding admitted_host_def list_ex_iff by blast
qed

lemma allowlist_match_admits:
  assumes "allowlist_match host al = Inr (Some m)" shows "admitted_host al (normalise_host host)"
proof -
  let ?h = "normalise_host host"
  obtain ip e where ip: "literal_ip ?h = Inr ip" and e: "find (\<lambda>e. entry_match ?h ip e \<noteq> None) (entries al) = Some e"
    using assms by (auto simp: allowlist_match_def Let_def split: option.splits)
  have "ip = ip_address ?h" using ip by (auto simp: literal_ip_def url_invalid_def split: if_splits)
  moreover have "entry_match ?h ip e \<noteq> None" "e \<in> set (entries al)" using e by (auto simp: find_Some_iff)
  ultimately show ?thesis using entry_match_admits by blast
qed

lemma check_request_host_Inr:
  assumes "check_request_host resolve al host port recheck (Some ps) = (Inr r, s)" "pins_ok al ps"
  obtains ps' where "s = Some ps'" "rh_host r = normalise_host host" "pins_ok al ps'"
    "dget ps' (normalise_host host) = Some (rh_pinned r)" "\<forall>h a. dget ps h = Some a \<longrightarrow> dget ps' h = Some a"
proof -
  let ?h = "normalise_host host"
  obtain ip entry kind where m: "literal_ip ?h = Inr ip" "allowlist_match ?h al = Inr (Some (entry, kind))"
    using assms(1) unfolding check_request_host_def Let_def
    by (auto simp: not_allowlisted_def split: sum.splits option.splits)
  have adm: "admitted_host al (normalise_host ?h)" using m(2) by (rule allowlist_match_admits)
  show thesis
  proof (cases "dget ps ?h")
    case None
    then obtain as where as: "resolve_and_check resolve ?h al port = Inr as"
      and r: "rh_host r = ?h" "rh_pinned r = hd as" and s: "s = Some (dset ?h (hd as) ps)"
      using assms(1) m unfolding check_request_host_def Let_def by (auto split: sum.splits)
    have "reachable_address al (normalise_host ?h) (hd as)"
      using resolve_and_check_reachable [OF as] by (cases as) auto
    then have "pins_ok al (dset ?h (hd as) ps)" using assms(2) adm by (auto simp: pins_ok_def)
    then show thesis using that [OF s r(1)] r None by auto
  next
    case (Some a)
    then have "s = Some ps \<and> rh_host r = ?h \<and> rh_pinned r = a"
      using assms(1) m unfolding check_request_host_def Let_def
      by (auto simp: refuse_egress_def split: sum.splits bool.splits if_splits)
    then show thesis using Some assms(2) by (intro that [of ps]) simp_all
  qed
qed

lemma check_request_host_Inl:
  "check_request_host resolve al host port recheck (Some ps) = (Inl e, s) \<Longrightarrow> s = Some ps"
  unfolding check_request_host_def Let_def
  by (auto simp: refuse_egress_def split: sum.splits option.splits bool.splits if_splits prod.splits)

text \<open>A session: the requests of a job, each with the answers its resolution gets.\<close>

definition request_step :: "string list \<Rightarrow> pins \<Rightarrow> resolver \<times> string \<times> int \<times> bool \<Rightarrow> pins" where
  "request_step al ps q = (case q of (resolve, host, port, recheck) \<Rightarrow>
     the (snd (check_request_host resolve al host port recheck (Some ps))))"

definition session_pins :: "string list \<Rightarrow> (resolver \<times> string \<times> int \<times> bool) list \<Rightarrow> pins" where
  "session_pins al qs = foldl (request_step al) [] qs"

lemma request_step_ok: "pins_ok al ps \<Longrightarrow> pins_ok al (request_step al ps q)"
proof -
  assume ok: "pins_ok al ps"
  obtain resolve host port recheck where q: "q = (resolve, host, port, recheck)" by (metis prod_cases4)
  obtain x s where c: "check_request_host resolve al host port recheck (Some ps) = (x, s)" by fastforce
  show ?thesis
  proof (cases x)
    case (Inl e)
    then show ?thesis using check_request_host_Inl [OF c [unfolded Inl]] ok c by (simp add: request_step_def q)
  next
    case (Inr r)
    obtain ps' where "s = Some ps'" "pins_ok al ps'" using check_request_host_Inr [OF c [unfolded Inr] ok] .
    then show ?thesis using c by (simp add: request_step_def q)
  qed
qed

lemma session_pins_ok: "pins_ok al (session_pins al qs)"
proof -
  have "pins_ok al ps \<Longrightarrow> pins_ok al (foldl (request_step al) ps qs)" for ps
    by (induction qs arbitrary: ps) (simp_all add: request_step_ok)
  moreover have "pins_ok al []" by (simp add: pins_ok_def)
  ultimately show ?thesis unfolding session_pins_def by blast
qed

text \<open>C7. After any requests of a session, whatever the resolvers answered, an accepted request names a
  host the allow list admits and an address that is public or that the allow list exempts (literally, as a
  private network, or as the local alias), never a multicast, reserved or unspecified one. The address is
  pinned: earlier pins stay, and the socket check accepts for that host exactly the pinned address, so a
  rebinding of the name cannot redirect the connection.\<close>

theorem egress_session_safe:
  assumes "check_request_host resolve al host port recheck (Some (session_pins al qs)) = (Inr r, Some ps')"
  shows "admitted_host al (normalise_host (rh_host r)) \<and>
    reachable_address al (normalise_host (rh_host r)) (rh_pinned r) \<and>
    classify_address (rh_pinned r) \<notin> {Multicast, Reserved, Unspecified} \<and>
    (\<forall>h a. dget (session_pins al qs) h = Some a \<longrightarrow> dget ps' h = Some a) \<and>
    (verify_pin ps' host address = Inr () \<longleftrightarrow> ip_address (strip_ends (strip address)) = Some (rh_pinned r))"
proof -
  obtain ps'' where s: "Some ps' = Some ps''" and h: "rh_host r = normalise_host host" and ok: "pins_ok al ps''"
    and pin: "dget ps'' (normalise_host host) = Some (rh_pinned r)"
    and old: "\<forall>h a. dget (session_pins al qs) h = Some a \<longrightarrow> dget ps'' h = Some a"
    using check_request_host_Inr [OF assms session_pins_ok] by blast
  have "reachable_address al (normalise_host (rh_host r)) (rh_pinned r)" "admitted_host al (normalise_host (rh_host r))"
    using ok pin by (simp_all add: pins_ok_def h)
  moreover from this(1) have "classify_address (rh_pinned r) \<notin> {Multicast, Reserved, Unspecified}"
    by (auto simp: reachable_address_def)
  ultimately show ?thesis using s old pin by (simp add: verify_pin_def Let_def refuse_egress_def)
qed

definition ex_resolver :: resolver where
  "ex_resolver host port = Inr [''93.184.216.34'']"

lemma egress_session_safe_witness: "verify_pin [(''api.example.org'', V4 1572395042)] ''api.example.org'' ''93.184.216.34'' = Inr ()"
proof -
  have p: "session_pins [''api.example.org''] [] = []" by (simp add: session_pins_def)
  have "check_request_host ex_resolver [''api.example.org''] ''api.example.org'' 443 False (Some (session_pins [''api.example.org''] [])) =
      (Inr \<lparr>rh_host = ''api.example.org'', rh_addresses = [V4 1572395042], rh_pinned = V4 1572395042, rh_literal = False,
        rh_entry = ''api.example.org''\<rparr>, Some [(''api.example.org'', V4 1572395042)])"
    unfolding p by code_simp
  moreover have "ip_address (strip_ends (strip ''93.184.216.34'')) = Some (V4 1572395042)" by code_simp
  ultimately show ?thesis using egress_session_safe by fastforce
qed

end
