(* ===== verification/EgressUrl.thy ===== *)
theory EgressUrl
  imports Egress
begin

text \<open>
  The registration check of \<open>ml/endpoint_egress.py\<close> on its own output: the canonical URL it stores
  passes the check again and yields the same endpoint. A stored endpoint is re-checked before every
  session, so this is what keeps a registered target usable.
\<close>

subsection \<open>Characters\<close>

text \<open>Facts on characters are facts on their codes.\<close>

lemma int_code: "(of_char c :: int) = int (of_char c)"
  by (simp add: of_nat_of_char)

lemma char_code:
  obtains n :: nat where "c = char_of n" "n < 256"
  by (rule that [of "of_char c"]) simp_all

lemma char_of_lit: "n < 256 \<Longrightarrow> char_of (n :: nat) = d \<longleftrightarrow> n = of_char d"
  by (simp add: char_of_eq_iff take_bit_eq_mod)

lemmas code_simps = lower_char_def is_space_def is_digit_def alnum_lower_def Let_def int_code char_of_lit

definition url_char :: "char \<Rightarrow> bool" where
  "url_char c \<longleftrightarrow> \<not> is_space c \<and> 32 \<le> (of_char c :: int) \<and> (of_char c :: int) < 127"

definition delims :: string where "delims = ''@/?#[]:%''"

lemma lower_char_facts:
  "lower_char (lower_char c) = lower_char c" "url_char c \<Longrightarrow> url_char (lower_char c)"
  "d \<in> set delims \<Longrightarrow> lower_char c = d \<longleftrightarrow> c = d"
  by (rule char_code [of c]; simp del: of_nat_of_char add: code_simps url_char_def delims_def; fastforce)+

lemma url_char_facts:
  "url_char c \<Longrightarrow> c \<notin> {CHR 0x09, CHR 0x0D, CHR 0x0A}" "is_digit c \<Longrightarrow> url_char c \<and> c \<notin> set delims"
  "alnum_lower c \<Longrightarrow> url_char c \<and> c \<notin> set delims \<and> lower_char c = c"
  by (rule char_code [of c]; simp del: of_nat_of_char add: code_simps url_char_def delims_def; fastforce)+

lemma lower_idem: "lower (lower s) = lower s"
  using lower_char_facts by (simp add: lower_def)

lemma lower_delim: "d \<in> set delims \<Longrightarrow> d \<in> set (lower s) \<Longrightarrow> d \<in> set s"
proof -
  assume d: "d \<in> set delims" "d \<in> set (lower s)"
  then obtain c where c: "c \<in> set s" "lower_char c = d" unfolding lower_def by auto
  then show "d \<in> set s" using lower_char_facts(3) [OF d(1), of c] by simp
qed

lemma lower_url_chars: "list_all url_char s \<Longrightarrow> list_all url_char (lower s)"
  using lower_char_facts by (auto simp: lower_def list_all_iff)

subsection \<open>Splitting\<close>

lemma takeWhile_absent: "c \<notin> set a \<Longrightarrow> takeWhile (\<lambda>x. x \<noteq> c) a = a"
  and dropWhile_absent: "c \<notin> set a \<Longrightarrow> dropWhile (\<lambda>x. x \<noteq> c) a = []"
  by (auto simp: takeWhile_eq_all_conv dropWhile_eq_Nil_conv)

lemma before_append [simp]: "c \<notin> set a \<Longrightarrow> before c (a @ c # b) = a"
  by (induction a) (auto simp: before_def)

lemma after_append [simp]: "c \<notin> set a \<Longrightarrow> after c (a @ c # b) = b"
  by (induction a) (auto simp: after_def)

lemma before_absent: "c \<notin> set a \<Longrightarrow> before c a = a"
  by (simp add: before_def takeWhile_absent)

lemma after_absent: "c \<notin> set a \<Longrightarrow> after c a = []"
  by (simp add: after_def dropWhile_absent)

lemma after_last_absent: "c \<notin> set a \<Longrightarrow> after_last c a = a"
  by (simp add: after_last_def takeWhile_absent)

lemma set_before: "set (before c s) \<subseteq> set s - {c}"
  by (auto simp: before_def dest: set_takeWhileD)

lemma set_after: "set (after c s) \<subseteq> set s"
  unfolding after_def by (meson order_trans set_drop_subset set_dropWhileD subsetI)

lemma split_on_chars: "c \<in> set s \<Longrightarrow> c = d \<or> (\<exists>l \<in> set (split_on d s). c \<in> set l)"
  by (induction s) (auto split: list.splits if_splits)

lemma split_on_not_Nil [simp]: "split_on d s \<noteq> []"
  by (cases s) (auto split: list.splits)

lemma take_hd_split: "take 1 s = [c] \<Longrightarrow> c \<noteq> d \<Longrightarrow> \<exists>r. hd (split_on d s) = c # r"
  by (cases s) (auto split: list.splits)

subsection \<open>Address literals\<close>

lemma v4_chars:
  assumes "v4_int s = Some n" "c \<in> set s"
  shows "c = CHR ''.'' \<or> is_digit c"
proof -
  have "\<forall>l \<in> set (split_on CHR ''.'' s). parse_octet l \<noteq> None"
    using assms(1) by (auto simp: v4_int_def split: list.splits option.splits)
  then have "list_all is_digit l" if "l \<in> set (split_on CHR ''.'' s)" for l
    using that by (auto simp: parse_octet_def all_digits_def split: if_splits)
  then show ?thesis using split_on_chars [OF assms(2), of "CHR ''.''"] by (auto simp: list_all_iff)
qed

lemma hextets_head: "hextets (p # ps) = Some n \<Longrightarrow> parse_hextet p \<noteq> None"
proof
  assume h: "hextets (p # ps) = Some n" "parse_hextet p = None"
  have "foldl (\<lambda>acc p. case (acc, parse_hextet p) of (Some n, Some h) \<Rightarrow> Some (n * 65536 + h) | _ \<Rightarrow> None) None ps = None"
    by (induction ps) auto
  then show False using h by (simp add: hextets_def)
qed

lemma v6_parts_head: "v6_parts ps = Some n \<Longrightarrow> hd ps = [] \<or> parse_hextet (hd ps) \<noteq> None"
proof -
  assume p: "v6_parts ps = Some n"
  show ?thesis
  proof (cases "hd ps = []")
    case False
    obtain x xs where ps: "ps = x # xs" using p by (cases ps) (auto simp: v6_parts_def)
    have i: "0 < i" if "inner_empty ps = [i]" for i
    proof -
      have "i \<in> set (inner_empty ps)" using that by simp
      then show ?thesis by (simp add: inner_empty_def)
    qed
    show ?thesis
    proof (cases "inner_empty ps")
      case Nil
      then have "hextets (x # xs) = Some n" using p by (auto simp: v6_parts_def ps split: if_splits)
      then show ?thesis using hextets_head ps by simp
    next
      case (Cons j js)
      with p have js: "js = []" by (auto simp: v6_parts_def split: if_splits list.splits)
      obtain k where k: "j = Suc k" using i [of j] Cons js by (cases j) auto
      have "\<exists>m. hextets (take j ps) = Some m"
        using p Cons js False by (auto simp: v6_parts_def Let_def split: if_splits option.splits)
      then show ?thesis using hextets_head ps k by auto
    qed
  qed simp
qed

lemma v6_not_future:
  assumes "ip_address h = Some (V6 n)"
  shows "take 1 h \<noteq> ''v''" "CHR ''/'' \<notin> set h"
proof -
  have p: "parse_v6 h = Some n" using assms by (auto simp: ip_address_def split: option.splits)
  then show "CHR ''/'' \<notin> set h" by (auto simp: parse_v6_def split: if_splits)
  show "take 1 h \<noteq> ''v''"
  proof
    assume v: "take 1 h = ''v''"
    then obtain r where "h = CHR ''v'' # r" by (cases h) auto
    then have "take 1 (before CHR ''%'' h) = ''v''" by (simp add: before_def)
    moreover have n: "v6_int (before CHR ''%'' h) = Some n" using p by (auto simp: parse_v6_def split: if_splits)
    ultimately obtain r' where r': "hd (split_on CHR '':'' (before CHR ''%'' h)) = CHR ''v'' # r'"
      using take_hd_split by force
    let ?ps = "split_on CHR '':'' (before CHR ''%'' h)"
    have "3 \<le> length ?ps" using n by (auto simp: v6_int_def Let_def split: if_splits)
    then have "hd (butlast ?ps @ q) = hd ?ps" for q by (cases ?ps) (auto split: if_splits)
    then have "\<exists>ps. v6_parts ps = Some n \<and> hd ps = hd ?ps"
      using n by (auto simp: v6_int_def Let_def split: if_splits option.splits)
    then have "parse_hextet (CHR ''v'' # r') \<noteq> None" using v6_parts_head r' by fastforce
    moreover have "\<not> is_hexdigit CHR ''v''" by code_simp
    ultimately show False by (simp add: parse_hextet_def split: if_splits)
  qed
qed

subsection \<open>The port\<close>

lemma nat_of_digits_dec: "0 \<le> n \<Longrightarrow> nat_of_digits (dec_pos n) = n"
proof (induction n rule: dec_pos.induct)
  case (1 n)
  show ?case
  proof (cases "n < 10")
    case True
    then show ?thesis using 1(2) by (simp add: dec_pos.simps [of n] nat_of_digits_def of_char_digit)
  next
    case False
    have "nat_of_digits (dec_pos n) = 10 * nat_of_digits (dec_pos (n div 10)) + n mod 10"
      using False by (subst dec_pos.simps) (simp add: nat_of_digits_def of_char_digit)
    then show ?thesis using 1 False by simp
  qed
qed

lemma dec_digits: "0 \<le> n \<Longrightarrow> list_all is_digit (dec n)"
  using dec_pos_chars [of n] by (auto simp: dec_def list_all_iff is_digit_def Let_def)

lemma port_of_dec: "0 \<le> n \<Longrightarrow> n \<le> 65535 \<Longrightarrow> port_of (dec n) = Some (Some n)"
  using dec_digits [of n] by (simp add: port_of_def all_digits_def dec_def nat_of_digits_dec)

definition port_text :: "string \<Rightarrow> int \<Rightarrow> string" where
  "port_text scheme port = (if default_port scheme = Some port then [] else CHR '':'' # dec port)"

definition host_text :: "string \<Rightarrow> ipaddr option \<Rightarrow> string" where
  "host_text host ip = (case ip of Some (V6 _) \<Rightarrow> ''['' @ host @ '']'' | _ \<Rightarrow> host)"

lemma port_text_chars:
  assumes "0 \<le> port"
  shows "c \<in> set (port_text scheme port) \<Longrightarrow> c = CHR '':'' \<or> is_digit c"
  using dec_digits [OF assms] by (auto simp: port_text_def list_all_iff split: if_splits)

subsection \<open>What an accepted URL consists of\<close>

lemma set_netloc:
  assumes "url_netloc u = Some n"
  shows "set n \<subseteq> set u - set ''/?#''"
proof -
  have "set (snd (drop_scheme v)) \<subseteq> set v" for v
    using set_after by (simp add: drop_scheme_def Let_def)
  moreover have "set (clean_url u) \<subseteq> set u" by (auto simp: clean_url_def dest: set_dropWhileD)
  moreover have "set (netloc_of r) \<subseteq> set r - set ''/?#''" for r
    by (auto simp: netloc_of_def dest: set_takeWhileD in_set_dropD)
  ultimately show ?thesis using assms by (fastforce simp: url_netloc_def Let_def split: if_splits)
qed

lemma set_url_path: "set (url_path u) \<subseteq> set u - set ''?#''"
proof -
  have "set (snd (drop_scheme v)) \<subseteq> set v" for v
    using set_after by (simp add: drop_scheme_def Let_def)
  moreover have "set (clean_url u) \<subseteq> set u" by (auto simp: clean_url_def dest: set_dropWhileD)
  ultimately show ?thesis
    by (auto simp: url_path_def Let_def dest!: set_takeWhileD set_dropWhileD in_set_dropD split: if_splits)
qed

lemma url_path_head:
  assumes "url_netloc u = Some n" "n \<noteq> []"
  shows "url_path u = [] \<or> hd (url_path u) = CHR ''/''"
proof -
  let ?r = "snd (drop_scheme (clean_url u))"
  have t: "take 2 ?r = ''//''" using assms by (auto simp: url_netloc_def netloc_of_def Let_def split: if_splits)
  let ?d = "dropWhile (\<lambda>c. c \<notin> set ''/?#'') (drop 2 ?r)"
  have "?d = [] \<or> hd ?d \<in> set ''/?#''" using hd_dropWhile [of "\<lambda>c. c \<notin> set ''/?#''" "drop 2 ?r"] by blast
  moreover have "url_path u = takeWhile (\<lambda>c. c \<notin> set ''?#'') ?d"
    by (simp only: url_path_def Let_def t refl if_True)
  moreover have "takeWhile (\<lambda>c. c \<notin> set ''?#'') d = [] \<or> hd (takeWhile (\<lambda>c. c \<notin> set ''?#'') d) = CHR ''/''"
    if "d = [] \<or> hd d \<in> set ''/?#''" for d
    using that by (cases d) auto
  ultimately show ?thesis by presburger
qed

lemma port_of_range: "port_of t = Some (Some n) \<Longrightarrow> n \<le> 65535"
  by (auto simp: port_of_def split: if_splits)

lemma default_port_range: "default_port s = Some n \<Longrightarrow> 1 \<le> n \<and> n \<le> 65535"
  by (auto simp: default_port_def split: if_splits)

lemma check_url_shape_parts:
  assumes "check_url_shape u = Inr (scheme, host, port, ip)"
  obtains n where "list_all url_char u" "CHR ''?'' \<notin> set u" "CHR ''#'' \<notin> set u" "url_netloc u = Some n" "CHR ''@'' \<notin> set n"
    "default_port scheme \<noteq> None" "host \<noteq> []" "url_hostname u = Some (Some host)" "literal_ip host = Inr ip"
    "ip = None \<longrightarrow> valid_hostname host" "1 \<le> port" "port \<le> 65535"
proof -
  have "list_all url_char u" using assms
    by (auto simp: check_url_shape_def url_invalid_def url_char_def list_ex_iff list_all_iff not_less split: if_splits)
  moreover obtain n where n: "url_netloc u = Some n" using assms
    by (auto simp: check_url_shape_def url_invalid_def split: if_splits option.splits)
  moreover have "host \<noteq> [] \<and> url_hostname u = Some (Some host)"
    using assms n by (auto simp: check_url_shape_def url_invalid_def Let_def split: if_splits option.splits)
  moreover have "CHR ''?'' \<notin> set u \<and> CHR ''#'' \<notin> set u \<and> CHR ''@'' \<notin> set n \<and> default_port scheme \<noteq> None"
    using assms n by (auto simp: check_url_shape_def url_invalid_def Let_def split: if_splits option.splits)
  moreover have "literal_ip host = Inr ip \<and> (ip = None \<longrightarrow> valid_hostname host)"
    using assms n by (auto simp: check_url_shape_def url_invalid_def Let_def split: if_splits option.splits)
  moreover have "1 \<le> port \<and> port \<le> 65535"
    using assms n by (auto simp: check_url_shape_def url_invalid_def Let_def not_less
        dest: port_of_range default_port_range split: if_splits option.splits)
  ultimately show thesis using that by blast
qed

lemma hostname_source:
  assumes "url_netloc u = Some n" "url_hostname u = Some (Some host)" "CHR ''@'' \<notin> set n" "CHR ''%'' \<notin> set host"
  obtains h where "host = lower h" "set h \<subseteq> set n" "CHR '']'' \<notin> set h"
proof -
  define h where "h = (if CHR ''['' \<in> set n then before CHR '']'' (after CHR ''['' n) else before CHR '':'' n)"
  have host: "host = lower (before CHR ''%'' h) @ (if CHR ''%'' \<in> set h then CHR ''%'' # after CHR ''%'' h else [])"
    using assms(1,2) after_last_absent [OF assms(3)] by (auto simp: url_hostname_def Let_def h_def split: if_splits)
  then have p: "CHR ''%'' \<notin> set h" using assms(4) by auto
  show thesis
  proof (rule that)
    show "host = lower h" using host p by (simp add: before_absent)
    show "set h \<subseteq> set n" using set_before set_after unfolding h_def by (auto split: if_splits) (meson in_mono Diff_subset subset_trans)+
    have "(CHR ''['' \<in> set n) = (CHR '']'' \<in> set n)" using assms(1) by (auto simp: url_netloc_def Let_def split: if_splits)
    then show "CHR '']'' \<notin> set h" using set_before unfolding h_def by (auto split: if_splits)
  qed
qed

lemma host_chars:
  assumes "check_url_shape u = Inr (scheme, host, port, ip)"
  shows "lower host = host" "list_all url_char host" "d \<in> set ''@?#]%'' \<Longrightarrow> d \<notin> set host"
proof -
  obtain n where u: "list_all url_char u" "CHR ''?'' \<notin> set u" "CHR ''#'' \<notin> set u" and n: "url_netloc u = Some n" "CHR ''@'' \<notin> set n"
    and h: "url_hostname u = Some (Some host)" "literal_ip host = Inr ip"
    using check_url_shape_parts [OF assms] .
  have p: "CHR ''%'' \<notin> set host" using h(2) by (auto simp: literal_ip_def url_invalid_def split: if_splits)
  obtain s where s: "host = lower s" "set s \<subseteq> set n" "CHR '']'' \<notin> set s" using hostname_source [OF n(1) h(1) n(2) p] .
  have su: "set s \<subseteq> set u" using s(2) set_netloc [OF n(1)] by blast
  show "lower host = host" by (simp add: s(1) lower_idem)
  show "list_all url_char host" using su u(1) lower_url_chars [of s] by (auto simp: s(1) list_all_iff)
  assume d: "d \<in> set ''@?#]%''"
  show "d \<notin> set host"
  proof
    assume i: "d \<in> set host"
    then have "d \<in> set s" using lower_delim [of d s] d unfolding s(1) by (auto simp: delims_def)
    then show False using d i p s(2,3) su n(2) u(2,3) by auto
  qed
qed

text \<open>Outside brackets a host has none of the delimiters of a network location.\<close>

lemma plain_host_chars:
  assumes "literal_ip host = Inr ip" "ip = None \<longrightarrow> valid_hostname host" "list_all url_char host" "\<And>n. ip \<noteq> Some (V6 n)"
    and d: "d \<in> set ''/[]:''"
  shows "d \<notin> set host"
proof
  assume i: "d \<in> set host"
  have dd: "d \<noteq> CHR ''.''" "d \<noteq> CHR ''-''" "\<not> is_digit d" "\<not> alnum_lower d" "d \<noteq> CHR 0x0A"
    using d url_char_facts(2,3) [of d] by (auto simp: delims_def)
  show False
  proof (cases ip)
    case None
    then have v: "valid_hostname host" using assms(2) by simp
    obtain l where l: "l \<in> set (split_on CHR ''.'' host)" "d \<in> set l" using split_on_chars [OF i, of "CHR ''.''"] dd by blast
    then have "valid_label l" using v by (simp add: valid_hostname_def list_all_iff)
    then have "label_body l \<or> (label_body (butlast l) \<and> l \<noteq> [] \<and> last l = CHR 0x0A)" by (auto simp: valid_label_def)
    moreover have "d \<in> set (butlast l)" if "l \<noteq> []" "last l = CHR 0x0A"
      using that l(2) dd by (metis append_butlast_last_id in_set_butlast_appendI rotate1.simps(2) set_ConsD set_append set_rotate1 Un_iff)
    ultimately show False using l(2) dd by (auto simp: label_body_def list_all_iff)
  next
    case (Some a)
    then obtain m where "v4_int host = Some m" using assms(1,4)
      by (cases a) (auto simp: literal_ip_def ip_address_def parse_v4_def url_invalid_def split: if_splits option.splits)
    then show False using v4_chars i dd by blast
  qed
qed

subsection \<open>Reading the canonical URL\<close>

definition canonical :: "string \<Rightarrow> string \<Rightarrow> int \<Rightarrow> ipaddr option \<Rightarrow> string \<Rightarrow> bool" where
  "canonical scheme host port ip path \<longleftrightarrow> default_port scheme \<noteq> None \<and> host \<noteq> [] \<and>
     literal_ip host = Inr ip \<and> (ip = None \<longrightarrow> valid_hostname host) \<and> 1 \<le> port \<and> port \<le> 65535 \<and>
     lower host = host \<and> list_all url_char host \<and> (\<forall>d \<in> set ''@?#]%''. d \<notin> set host) \<and>
     list_all url_char path \<and> set path \<inter> set ''?#'' = {} \<and> path \<noteq> [] \<and> hd path = CHR ''/''"

lemma endpoint_url_text:
  "endpoint_url scheme host port ip path = scheme @ ''://'' @ host_text host ip @ port_text scheme port @ path"
  by (simp add: endpoint_url_def host_text_def port_text_def)

lemma canonical_netloc_chars:
  assumes "canonical scheme host port ip path" "c \<in> set (host_text host ip @ port_text scheme port)"
  shows "url_char c" "c \<notin> set ''@?#/''"
proof -
  have p: "c = CHR '':'' \<or> is_digit c" if "c \<in> set (port_text scheme port)"
    using port_text_chars [of port c scheme] that assms(1) by (simp add: canonical_def)
  have slash: "CHR ''/'' \<notin> set host"
  proof (cases "\<exists>n. ip = Some (V6 n)")
    case True
    then obtain n where "ip_address host = Some (V6 n)"
      using assms(1) by (auto simp: canonical_def literal_ip_def split: if_splits)
    then show ?thesis using v6_not_future by blast
  next
    case False
    then show ?thesis using assms(1) plain_host_chars [of host ip "CHR ''/''"] by (simp add: canonical_def)
  qed
  have c: "c \<in> set host \<or> c \<in> set ''[]:'' \<or> is_digit c"
    using assms(2) p by (auto simp: host_text_def split: option.splits ipaddr.splits)
  have l: "url_char CHR ''['' \<and> url_char CHR '']'' \<and> url_char CHR '':''" by code_simp
  show "url_char c" using c l url_char_facts(2) assms(1) by (auto simp: canonical_def list_all_iff)
  show "c \<notin> set ''@?#/''" using c url_char_facts(2) [of c] assms(1) slash by (auto simp: canonical_def delims_def)
qed

lemma canonical_chars:
  assumes "canonical scheme host port ip path"
  shows "list_all url_char (endpoint_url scheme host port ip path)" (is ?a)
    "CHR ''?'' \<notin> set (endpoint_url scheme host port ip path) \<and> CHR ''#'' \<notin> set (endpoint_url scheme host port ip path)" (is ?b)
proof -
  let ?n = "host_text host ip @ port_text scheme port"
  have s: "scheme = ''https'' \<or> scheme = ''http''" using assms by (auto simp: canonical_def default_port_def split: if_splits)
  have "list_all url_char (''https://'') \<and> list_all url_char (''http://'')" by code_simp
  then have sc: "list_all url_char (scheme @ ''://'')" using s by auto
  have e: "endpoint_url scheme host port ip path = (scheme @ ''://'') @ ?n @ path" by (simp add: endpoint_url_text)
  have n: "list_all url_char ?n" "set ?n \<inter> set ''?#'' = {}" using canonical_netloc_chars [OF assms] by (auto simp: list_all_iff)
  show ?a unfolding e list_all_append using n sc assms by (simp add: canonical_def)
  have "set (scheme @ ''://'') \<inter> set ''?#'' = {}" using s by auto
  then show ?b unfolding e set_append using n(2) assms by (auto simp: canonical_def)
qed

lemma canonical_split:
  assumes c: "canonical scheme host port ip path"
  defines "v \<equiv> endpoint_url scheme host port ip path"
  shows "drop_scheme (clean_url v) = (Some scheme, ''//'' @ host_text host ip @ port_text scheme port @ path)"
proof -
  have s: "scheme = ''https'' \<or> scheme = ''http''" using c by (auto simp: canonical_def default_port_def split: if_splits)
  then obtain r where v: "v = CHR ''h'' # r" by (auto simp: v_def endpoint_url_text)
  have "filter (\<lambda>c. c \<notin> {CHR 0x09, CHR 0x0D, CHR 0x0A}) v = v"
    using canonical_chars(1) [OF c] url_char_facts(1) by (auto simp: v_def list_all_iff intro!: filter_True)
  then have "clean_url v = v" by (simp add: clean_url_def v)
  then show ?thesis using s unfolding v_def endpoint_url_text
    by (auto simp: drop_scheme_def before_def after_def Let_def ascii_alpha_def scheme_char_def lower_def lower_char_def is_digit_def)
qed

lemma canonical_path:
  assumes "canonical scheme host port ip path"
  shows "netloc_of (''//'' @ host_text host ip @ port_text scheme port @ path) = host_text host ip @ port_text scheme port"
    "url_path (endpoint_url scheme host port ip path) = path"
proof -
  let ?n = "host_text host ip @ port_text scheme port"
  obtain q where q: "path = CHR ''/'' # q" using assms by (cases path) (auto simp: canonical_def)
  have n: "\<And>c. c \<in> set ?n \<Longrightarrow> c \<notin> set ''/?#''" using canonical_netloc_chars(2) [OF assms] by auto
  have t: "takeWhile (\<lambda>c. c \<notin> set ''/?#'') (?n @ path) = ?n" "dropWhile (\<lambda>c. c \<notin> set ''/?#'') (?n @ path) = path"
    using n by (subst takeWhile_append2 dropWhile_append2; simp add: q)+
  then show "netloc_of (''//'' @ host_text host ip @ port_text scheme port @ path) = ?n" by (simp add: netloc_of_def)
  have "takeWhile (\<lambda>c. c \<notin> set ''?#'') path = path" using assms by (auto simp: canonical_def takeWhile_eq_all_conv)
  then show "url_path (endpoint_url scheme host port ip path) = path"
    using t(2) by (simp add: url_path_def canonical_split [OF assms] Let_def)
qed

lemma canonical_reads:
  assumes c: "canonical scheme host port ip path"
  defines "v \<equiv> endpoint_url scheme host port ip path" and "n \<equiv> host_text host ip @ port_text scheme port"
  shows "url_netloc v = Some n" "url_hostname v = Some (Some host)"
    "netloc_port n = (if default_port scheme = Some port then [] else dec port)"
proof -
  have at: "CHR ''@'' \<notin> set n" using canonical_netloc_chars(2) [OF c] by (auto simp: n_def)
  note al = after_last_absent [OF at]
  have nn: "netloc_of (snd (drop_scheme (clean_url v))) = n"
    using canonical_path(1) [OF c] canonical_split [OF c] by (simp add: v_def n_def)
  have pt: "d \<notin> set (port_text scheme port)" if "d \<in> set ''[]''" for d
    using that port_text_chars [of port d scheme] c url_char_facts(2) [of d] by (auto simp: canonical_def delims_def)
  have pc: "CHR '':'' \<notin> set (dec port)"
    using dec_digits [of port] c url_char_facts(2) [of "CHR '':''"] by (auto simp: canonical_def delims_def list_all_iff)
  have h: "CHR '']'' \<notin> set host" "CHR ''%'' \<notin> set host" "host \<noteq> []" "lower host = host" using c by (auto simp: canonical_def)
  have "url_netloc v = Some n \<and> url_hostname v = Some (Some host) \<and>
    netloc_port n = (if default_port scheme = Some port then [] else dec port)"
  proof (cases "\<exists>m. ip = Some (V6 m)")
    case True
    then obtain m where m: "ip = Some (V6 m)" "ip_address host = Some (V6 m)"
      using c by (auto simp: canonical_def literal_ip_def split: if_splits)
    have n: "n = [] @ CHR ''['' # host @ CHR '']'' # port_text scheme port" by (simp add: n_def host_text_def m(1))
    have bs: "before CHR ''['' n = []" "after CHR ''['' n = host @ CHR '']'' # port_text scheme port"
      unfolding n by (simp_all only: before_append after_append list.set empty_iff not_False_eq_True)
    have "bracket_ok n"
      using v6_not_future(1) [OF m(2)] by (simp add: bracket_ok_def al bs h(1) m(2) Let_def port_text_def) (simp add: n)
    then have u: "url_netloc v = Some n" by (simp add: url_netloc_def nn Let_def) (simp add: n)
    have i: "CHR ''['' \<in> set n" by (simp add: n)
    show ?thesis
      using u i h by (simp add: url_hostname_def netloc_port_def al bs Let_def before_absent after_absent port_text_def) (simp add: after_def)
  next
    case False
    then have pl: "d \<notin> set host" if "d \<in> set ''/[]:''" for d
      using that c plain_host_chars [of host ip d] by (auto simp: canonical_def)
    have n: "n = host @ port_text scheme port" using False by (auto simp: n_def host_text_def split: option.splits ipaddr.splits)
    have br: "CHR ''['' \<notin> set n" "CHR '']'' \<notin> set n" using pl pt by (auto simp: n)
    have hp: "before CHR '':'' n = host" "after CHR '':'' n = (if default_port scheme = Some port then [] else dec port)"
      using pl [of "CHR '':''"] by (auto simp: n port_text_def before_absent after_absent)
    have u: "url_netloc v = Some n" using br by (simp add: url_netloc_def nn Let_def)
    show ?thesis using u br h by (simp add: url_hostname_def netloc_port_def al hp Let_def before_absent)
  qed
  then show "url_netloc v = Some n" "url_hostname v = Some (Some host)"
    "netloc_port n = (if default_port scheme = Some port then [] else dec port)" by blast+
qed

lemma shape_intro:
  assumes "u \<noteq> []" "length u \<le> max_url_length"
    "\<not> list_ex (\<lambda>c. is_space c \<or> (of_char c :: int) < 32 \<or> 127 \<le> (of_char c :: int)) u"
    "url_netloc u = Some n" "drop_scheme (clean_url u) = (Some scheme, r)" "url_hostname u = Some (Some host)"
    "default_port scheme \<noteq> None" "CHR ''@'' \<notin> set n" "CHR ''?'' \<notin> set u" "CHR ''#'' \<notin> set u" "host \<noteq> []"
    "port_of (netloc_port n) = Some p" "(case p of None \<Rightarrow> the (default_port scheme) | Some m \<Rightarrow> m) = port"
    "1 \<le> port" "literal_ip host = Inr ip" "ip = None \<longrightarrow> valid_hostname host"
  shows "check_url_shape u = Inr (scheme, host, port, ip)"
proof -
  have "scheme \<noteq> []" using assms(7) by (auto simp: default_port_def)
  moreover have "\<not> (ip = None \<and> \<not> valid_hostname host)" using assms(16) by blast
  ultimately show ?thesis
    using assms(1-15) by (simp only: check_url_shape_def Let_def option.case sum.case fst_conv rbind_simps
        if_False not_less simp_thms if_cancel) (simp add: not_less)
qed

lemma canonical_shape:
  assumes c: "canonical scheme host port ip path" and l: "length (endpoint_url scheme host port ip path) \<le> max_url_length"
  shows "check_url_shape (endpoint_url scheme host port ip path) = Inr (scheme, host, port, ip)"
proof -
  let ?v = "endpoint_url scheme host port ip path"
  have e: "?v \<noteq> []" using c by (simp add: endpoint_url_def canonical_def)
  have bad: "\<not> list_ex (\<lambda>c. is_space c \<or> (of_char c :: int) < 32 \<or> 127 \<le> (of_char c :: int)) ?v"
    using canonical_chars(1) [OF c] by (auto simp: url_char_def list_ex_iff list_all_iff)
  have at: "CHR ''@'' \<notin> set (host_text host ip @ port_text scheme port)" using canonical_netloc_chars(2) [OF c] by auto
  have port: "case port_of (netloc_port (host_text host ip @ port_text scheme port)) of None \<Rightarrow> False
      | Some p \<Rightarrow> (case p of None \<Rightarrow> the (default_port scheme) | Some n \<Rightarrow> n) = port"
  proof -
    have "port_of (dec port) = Some (Some port)" using c port_of_dec [of port] by (simp add: canonical_def)
    moreover have "port_of [] = Some None" by (simp add: port_of_def)
    ultimately show ?thesis unfolding canonical_reads(3) [OF c] by simp
  qed
  then obtain p where p: "port_of (netloc_port (host_text host ip @ port_text scheme port)) = Some p"
    "(case p of None \<Rightarrow> the (default_port scheme) | Some n \<Rightarrow> n) = port" by (auto split: option.splits)
  show ?thesis
    using shape_intro [OF e l bad canonical_reads(1) [OF c] canonical_split [OF c] canonical_reads(2) [OF c] _ at _ _ _ p]
      c canonical_chars(2) [OF c] by (simp add: canonical_def)
qed

lemma shape_canonical:
  assumes s: "check_url_shape u = Inr (scheme, host, port, ip)"
  shows "canonical scheme host port ip (if url_path u = [] then ''/'' else url_path u)"
proof -
  obtain n where u: "list_all url_char u" "CHR ''?'' \<notin> set u" "CHR ''#'' \<notin> set u" and n: "url_netloc u = Some n"
    and h: "default_port scheme \<noteq> None" "host \<noteq> []" "url_hostname u = Some (Some host)" "literal_ip host = Inr ip"
      "ip = None \<longrightarrow> valid_hostname host" "1 \<le> port" "port \<le> 65535"
    using check_url_shape_parts [OF s] .
  have "n \<noteq> []" using h(3) n by (auto simp: url_hostname_def Let_def after_last_def before_def)
  then have "url_path u = [] \<or> hd (url_path u) = CHR ''/''" by (rule url_path_head [OF n])
  moreover have "list_all url_char (url_path u)" using set_url_path [of u] u(1) by (auto simp: list_all_iff)
  moreover have "set (url_path u) \<inter> set ''?#'' = {}" using set_url_path [of u] by auto
  moreover have "url_char CHR ''/''" by code_simp
  moreover have "\<forall>d \<in> set ''@?#]%''. d \<notin> set host" using host_chars(3) [OF s] by blast
  ultimately show ?thesis using h host_chars(1,2) [OF s] unfolding canonical_def by auto
qed

lemma guarded_Inr: "rbind m (\<lambda>_. if c then url_invalid r s h else Inr q) = Inr p \<Longrightarrow> p = q"
  by (auto simp: url_invalid_def split: if_splits)

lemma admit_endpoint_url:
  assumes "admit_endpoint u al (scheme, host, port, ip) = Inr p"
  shows "pe_url p = endpoint_url scheme host port ip (if url_path u = [] then ''/'' else url_path u)"
proof -
  obtain m where m: "allowlist_match host al = Inr m"
    using assms by (cases "allowlist_match host al") (simp_all add: admit_endpoint_def)
  obtain e k where e: "m = Some (e, k)"
  proof (cases m)
    case None
    then show ?thesis using assms m by (simp add: admit_endpoint_def not_allowlisted_def)
  next
    case (Some x)
    then show ?thesis using that by (cases x) simp
  qed
  show ?thesis using assms
    by (simp only: admit_endpoint_def prod.case m e rbind_simps option.case Let_def) (drule guarded_Inr, simp)
qed

text \<open>C28. Registration is stable: the canonical URL that \<open>check_registration_url\<close> stores for an accepted
  target passes the same check again with the same result, scheme, host, port, path, address class,
  matching entry and URL, whatever the case of the host, the default ports, the brackets of an IPv6 literal
  and the missing path of the URL that was registered, as long as the canonical form still fits the length
  limit (it can be one character longer, for the added path).\<close>

theorem registration_url_stable:
  assumes "check_registration_url u al = Inr p" "length (pe_url p) \<le> max_url_length"
  shows "check_registration_url (pe_url p) al = Inr p"
proof -
  obtain scheme host port ip where s: "check_url_shape u = Inr (scheme, host, port, ip)"
    and a: "admit_endpoint u al (scheme, host, port, ip) = Inr p"
    using assms(1) by (auto simp: check_registration_url_def)
  let ?path = "if url_path u = [] then ''/'' else url_path u"
  note c = shape_canonical [OF s]
  have url: "pe_url p = endpoint_url scheme host port ip ?path"
    using a by (rule admit_endpoint_url)
  have "url_path (pe_url p) = ?path" "?path \<noteq> []" unfolding url using canonical_path(2) [OF c] by simp_all
  then have "(if url_path (pe_url p) = [] then ''/'' else url_path (pe_url p)) = ?path" by simp
  then have "admit_endpoint (pe_url p) al (scheme, host, port, ip) = admit_endpoint u al (scheme, host, port, ip)"
    unfolding admit_endpoint_def by simp
  then show ?thesis using canonical_shape [OF c] assms(2) a by (simp add: check_registration_url_def url)
qed

lemma registration_url_stable_witness:
  "check_registration_url ''https://[2001:4860:4860::8888]:8443/'' [''2001:4860:4860::8888''] =
   check_registration_url ''HTTPS://[2001:4860:4860::8888]:08443'' [''2001:4860:4860::8888'']"
proof -
  let ?p = "\<lparr>pe_url = ''https://[2001:4860:4860::8888]:8443/'', pe_scheme = ''https'', pe_host = ''2001:4860:4860::8888'',
     pe_port = 8443, pe_path = ''/'', pe_literal = True, pe_class = Some Public, pe_entry = ''2001:4860:4860::8888'',
     pe_plaintext = False, pe_plaintext_loopback = False\<rparr>"
  have a: "check_registration_url ''HTTPS://[2001:4860:4860::8888]:08443'' [''2001:4860:4860::8888''] = Inr ?p" by code_simp
  have l: "length (pe_url ?p) \<le> max_url_length" by code_simp
  show ?thesis using registration_url_stable [OF a l] a by simp
qed

text \<open>The static check lets the \<open>ValueError\<close> of \<open>urlsplit\<close> through for an unbalanced bracket.\<close>

lemma bracket_url_raises: "check_registration_url ''https://[::1'' al = Inl UrlValueError"
proof -
  have "check_url_shape ''https://[::1'' = Inl UrlValueError" by code_simp
  then show ?thesis by (simp add: check_registration_url_def)
qed

end
