(* ===== verification/EndpointContract.thy ===== *)
theory EndpointContract
  imports PyValue Sha256
begin

text \<open>
  The predict contract \<open>endpoint-v1\<close> of \<open>ml/targets/endpoint_contract.py\<close>: what a request to a
  black-box endpoint may contain and what a response must satisfy before its rows count as
  predictions. Values are those \<open>json.loads\<close> returns; a float is its exact value (the sign of a zero is
  not represented). The wording of the errors that the validation library itself raises is a parameter.
\<close>

subsection \<open>Constants\<close>

definition contract_version :: string where "contract_version = ''endpoint-v1''"

definition modality_input_format :: "(string, string) dict" where
  "modality_input_format = [(''image'', ''float32_nchw''), (''tabular'', ''tabular_features'')]"

definition input_format_rank :: "(string, nat) dict" where
  "input_format_rank = [(''float32_nchw'', 3), (''tabular_features'', 1)]"

definition max_batch_rows :: int where "max_batch_rows = 1024"
definition max_response_bytes :: int where "max_response_bytes = 16 * 1024 * 1024"
definition row_sum_tolerance :: rat where "row_sum_tolerance = fl (1 / 1000)"
definition probability_tolerance :: rat where "probability_tolerance = fl (1 / 1000000)"

subsection \<open>Registration\<close>

text \<open>The body of a registration; \<open>None\<close> and the defaults are those of \<open>EndpointRegistration\<close>.\<close>

record registration =
  rg_url :: string
  rg_auth_profile_id :: string
  rg_modality :: string
  rg_dataset_id :: string
  rg_dataset_split :: string
  rg_name :: string
  rg_license :: string
  rg_attested :: bool
  rg_input_shape :: "int list"
  rg_class_names :: "string list option"
  rg_n_classes :: "int option"
  rg_batch_rows :: int
  rg_timeout :: rat
  rg_input_format :: "string option"
  rg_contract :: string

definition not_blank :: "string \<Rightarrow> bool" where "not_blank s \<longleftrightarrow> strip s \<noteq> []"

definition bounded_text :: "nat \<Rightarrow> string \<Rightarrow> bool" where
  "bounded_text k s \<longleftrightarrow> s \<noteq> [] \<and> length s \<le> k \<and> not_blank s"

definition url_text_ok :: "string \<Rightarrow> bool" where
  "url_text_ok u \<longleftrightarrow> u \<noteq> [] \<and> length u \<le> 2048 \<and>
     \<not> list_ex (\<lambda>c. is_space c \<or> (of_char c :: int) < 32 \<or> 127 \<le> (of_char c :: int)) u \<and> contains_sub ''://'' u"

definition shape_dims_ok :: "int list \<Rightarrow> bool" where
  "shape_dims_ok s \<longleftrightarrow> s \<noteq> [] \<and> length s \<le> 4 \<and> list_all (\<lambda>d. 1 \<le> d) s \<and> prod_list s \<le> 16777216"

definition class_names_ok :: "string list option \<Rightarrow> bool" where
  "class_names_ok v = (case v of None \<Rightarrow> True | Some ns \<Rightarrow> 2 \<le> length ns \<and> list_all not_blank ns \<and> distinct ns)"

definition consistent :: "registration \<Rightarrow> bool" where
  "consistent r \<longleftrightarrow>
     (rg_class_names r \<noteq> None \<or> rg_n_classes r \<noteq> None) \<and>
     (case (rg_class_names r, rg_n_classes r) of (Some ns, Some k) \<Rightarrow> int (length ns) = k | _ \<Rightarrow> True) \<and>
     (case rg_input_format r of None \<Rightarrow> True | Some f \<Rightarrow> dget modality_input_format (rg_modality r) = Some f) \<and>
     dget input_format_rank (dget_or [] modality_input_format (rg_modality r)) = Some (length (rg_input_shape r))"

definition registration_ok :: "registration \<Rightarrow> bool" where
  "registration_ok r \<longleftrightarrow> url_text_ok (rg_url r) \<and> bounded_text 200 (rg_auth_profile_id r) \<and>
     dget modality_input_format (rg_modality r) \<noteq> None \<and> bounded_text 200 (rg_dataset_id r) \<and> bounded_text 64 (rg_dataset_split r) \<and>
     bounded_text 200 (rg_name r) \<and> bounded_text 4000 (rg_license r) \<and> rg_attested r \<and> shape_dims_ok (rg_input_shape r) \<and>
     class_names_ok (rg_class_names r) \<and> (case rg_n_classes r of None \<Rightarrow> True | Some k \<Rightarrow> 2 \<le> k) \<and>
     1 \<le> rg_batch_rows r \<and> rg_batch_rows r \<le> max_batch_rows \<and> 0 < rg_timeout r \<and> rg_timeout r \<le> 60 \<and>
     rg_contract r = contract_version \<and> consistent r"

definition resolved_n_classes :: "registration \<Rightarrow> int" where
  "resolved_n_classes r = (case rg_n_classes r of Some k \<Rightarrow> k | None \<Rightarrow> int (length (the (rg_class_names r))))"

definition resolved_input_format :: "registration \<Rightarrow> string" where
  "resolved_input_format r = (case rg_input_format r of Some f \<Rightarrow> (if f = [] then dget_or [] modality_input_format (rg_modality r) else f)
     | None \<Rightarrow> dget_or [] modality_input_format (rg_modality r))"

definition descriptor :: "registration \<Rightarrow> jdict" where
  "descriptor r = [(''url'', JStr (rg_url r)), (''auth_profile_id'', JStr (rg_auth_profile_id r)), (''modality'', JStr (rg_modality r)),
     (''dataset_id'', JStr (rg_dataset_id r)), (''dataset_split'', JStr (rg_dataset_split r)), (''name'', JStr (rg_name r)),
     (''license_statement'', JStr (rg_license r)), (''evaluation_instance_attestation'', JBool (rg_attested r)),
     (''input_shape'', JArr (map JInt (rg_input_shape r))),
     (''class_names'', (case rg_class_names r of None \<Rightarrow> JNull | Some ns \<Rightarrow> JArr (map JStr ns))),
     (''n_classes'', JInt (resolved_n_classes r)), (''batch_rows'', JInt (rg_batch_rows r)), (''timeout_s'', JFloat (py_repr (rg_timeout r))),
     (''input_format'', JStr (resolved_input_format r)), (''contract_version'', JStr (rg_contract r))]"

definition descriptor_sha256 :: "registration \<Rightarrow> string" where
  "descriptor_sha256 r = sha256 (json_dumps_sorted (JObj (descriptor r)))"

lemma registration_consistent:
  assumes "registration_ok r"
  shows "2 \<le> resolved_n_classes r" "dget modality_input_format (rg_modality r) = Some (resolved_input_format r)"
    "dget input_format_rank (resolved_input_format r) = Some (length (rg_input_shape r))"
proof -
  show "2 \<le> resolved_n_classes r"
    using assms by (auto simp: registration_ok_def resolved_n_classes_def class_names_ok_def consistent_def split: option.splits)
  show f: "dget modality_input_format (rg_modality r) = Some (resolved_input_format r)"
    using assms by (auto simp: registration_ok_def consistent_def resolved_input_format_def dget_or_def split: option.splits)
  show "dget input_format_rank (resolved_input_format r) = Some (length (rg_input_shape r))"
    using assms f by (simp add: registration_ok_def consistent_def dget_or_def)
qed

subsection \<open>Requests\<close>

text \<open>\<open>FieldErr\<close>: the error of a field constraint, raised by the validation library.\<close>

datatype request_error = ValueErr string | OverflowErr | FieldErr

definition at_index :: "string \<Rightarrow> int \<Rightarrow> string" where
  "at_index path i = path @ ''['' @ dec i @ '']''"

fun leaf_types :: "string \<Rightarrow> int \<Rightarrow> pyval list \<Rightarrow> (request_error, unit) result" where
  "leaf_types path i [] = Inr ()"
| "leaf_types path i (v # vs) =
     (if is_number v then leaf_types path (i + 1) vs
      else Inl (ValueErr (at_index path i @ '' must be a number, got '' @ type_name v)))"

text \<open>\<open>all(map(math.isfinite, seq))\<close>.\<close>

fun all_finite :: "pyval list \<Rightarrow> (request_error, bool) result" where
  "all_finite [] = Inr True"
| "all_finite (v # vs) = (case v of
      PInt n \<Rightarrow> if no_double n then Inl OverflowErr else all_finite vs
    | PFlt _ \<Rightarrow> all_finite vs
    | _ \<Rightarrow> Inr False)"

definition check_leaves :: "string \<Rightarrow> bool \<Rightarrow> pyval list \<Rightarrow> (request_error, unit) result" where
  "check_leaves path unit_interval vs =
     rbind (leaf_types path 0 vs) (\<lambda>_. rbind (all_finite vs) (\<lambda>fin.
       if \<not> fin then Inl (ValueErr (path @ '' contains a non-finite value''))
       else if unit_interval \<and> (Min (set (map num_val vs)) < 0 \<or> 1 < Max (set (map num_val vs)))
       then Inl (ValueErr (path @ '' has a value outside [0, 1]''))
       else Inr ()))"

fun row_shape :: "string \<Rightarrow> bool \<Rightarrow> pyval \<Rightarrow> (request_error, nat list) result"
  and same_shapes :: "string \<Rightarrow> bool \<Rightarrow> nat list \<Rightarrow> int \<Rightarrow> pyval list \<Rightarrow> (request_error, unit) result" where
  "row_shape path u (PList []) = Inl (ValueErr (path @ '' has an empty dimension''))"
| "row_shape path u (PList (x # xs)) =
     (if is_list x
      then rbind (row_shape (at_index path 0) u x) (\<lambda>inner.
           rbind (same_shapes path u inner 1 xs) (\<lambda>_. Inr (length (x # xs) # inner)))
      else rbind (check_leaves path u (x # xs)) (\<lambda>_. Inr [length (x # xs)]))"
| "row_shape path u v = Inl (ValueErr (path @ '' must be a nested list of numbers, got '' @ type_name v))"
| "same_shapes path u inner i [] = Inr ()"
| "same_shapes path u inner i (y # ys) =
     rbind (row_shape (at_index path i) u y) (\<lambda>s.
       if s \<noteq> inner then Inl (ValueErr (path @ '' is ragged: '' @ at_index path i @ '' differs in shape from '' @ at_index path 0))
       else same_shapes path u inner (i + 1) ys)"

definition nat_list_text :: "nat list \<Rightarrow> string" where
  "nat_list_text = py_list (\<lambda>n. dec (int n))"

text \<open>The model validator \<open>_rows\<close>: the shape of the first row is the shape of all of them.\<close>

definition rows_rank_error :: "string \<Rightarrow> int \<Rightarrow> nat list \<Rightarrow> string" where
  "rows_rank_error fmt i s = at_index ''inputs'' i @ '' has '' @ dec (int (length s)) @ '' dimensions; '' @ fmt @ '' rows are '' @
     (if dget input_format_rank fmt = Some 3 then ''[C][H][W]'' else ''a flat feature vector'')"

fun rows_loop :: "string \<Rightarrow> nat list option \<Rightarrow> int \<Rightarrow> pyval list \<Rightarrow> (request_error, nat list option) result" where
  "rows_loop fmt s0 i [] = Inr s0"
| "rows_loop fmt s0 i (r # rs) =
     rbind (row_shape (at_index ''inputs'' i) (fmt = ''float32_nchw'') r) (\<lambda>s.
       if dget input_format_rank fmt \<noteq> Some (length s) then Inl (ValueErr (rows_rank_error fmt i s))
       else case s0 of
         None \<Rightarrow> rows_loop fmt (Some s) (i + 1) rs
       | Some t \<Rightarrow>
           if s \<noteq> t then Inl (ValueErr (at_index ''inputs'' i @ '' has shape '' @ nat_list_text s @ '', inputs[0] has shape '' @ nat_list_text t))
           else rows_loop fmt s0 (i + 1) rs)"

text \<open>\<open>PredictRequest(...)\<close>: the row shape of a valid request.\<close>

definition predict_request :: "string \<Rightarrow> pyval list \<Rightarrow> (request_error, nat list) result" where
  "predict_request fmt rows =
     (if rows = [] \<or> max_batch_rows < int (length rows) then Inl FieldErr
      else rbind (rows_loop fmt None 0 rows) (\<lambda>s0. Inr (the s0)))"

definition encode_request :: "string \<Rightarrow> nat list option \<Rightarrow> pyval list \<Rightarrow> (request_error, pyval) result" where
  "encode_request fmt shape rows = rbind (predict_request fmt rows) (\<lambda>s.
     if shape \<noteq> None \<and> shape \<noteq> Some s
     then Inl (ValueErr (''batch rows have shape '' @ nat_list_text s @ '', the registered input_shape is '' @ nat_list_text (the shape)))
     else Inr (PDict [(''contract'', PStr contract_version), (''input_format'', PStr fmt), (''inputs'', PList rows)]))"

subsection \<open>Responses\<close>

text \<open>A field of type \<open>float\<close> in strict mode: an integer is converted, a boolean or a string is refused.\<close>

definition strict_float :: "pyval \<Rightarrow> flt option" where
  "strict_float v = (case v of
      PInt n \<Rightarrow> if no_double n then None else Some (Fin (fl (of_int n)))
    | PFlt x \<Rightarrow> Some (Fin x) | PInf b \<Rightarrow> Some (Inf b) | PNaN \<Rightarrow> Some NaN | _ \<Rightarrow> None)"

definition strict_list :: "(pyval \<Rightarrow> 'a option) \<Rightarrow> pyval \<Rightarrow> 'a list option" where
  "strict_list f v = (case v of PList vs \<Rightarrow> if list_all (\<lambda>x. f x \<noteq> None) vs then Some (map (the \<circ> f) vs) else None | _ \<Rightarrow> None)"

definition nullable :: "(pyval \<Rightarrow> 'a option) \<Rightarrow> pyval option \<Rightarrow> 'a option option" where
  "nullable f v = (case v of None \<Rightarrow> Some None | Some PNone \<Rightarrow> Some None | Some x \<Rightarrow> map_option Some (f x))"

definition nonneg_flt :: "flt \<Rightarrow> bool" where
  "nonneg_flt x = (case x of Fin r \<Rightarrow> 0 \<le> r | Inf b \<Rightarrow> \<not> b | NaN \<Rightarrow> False)"   \<comment> \<open>\<open>Inf True\<close> is negative\<close>

record predict_response =
  rs_probabilities :: "flt list list option"
  rs_logits :: "flt list list option"
  rs_model_id :: "string option"
  rs_latency :: "flt option"

definition response_keys :: "string list" where
  "response_keys = [''probabilities'', ''logits'', ''model_id'', ''latency_ms'']"

text \<open>\<open>PredictResponse.model_validate\<close>; \<open>None\<close> is a \<open>ValidationError\<close>.\<close>

definition model_validate :: "(string, pyval) dict \<Rightarrow> predict_response option" where
  "model_validate d =
     (case (nullable (strict_list (strict_list strict_float)) (dget d ''probabilities''),
            nullable (strict_list (strict_list strict_float)) (dget d ''logits''),
            nullable (\<lambda>v. case v of PStr s \<Rightarrow> if length s \<le> 200 then Some s else None | _ \<Rightarrow> None) (dget d ''model_id''),
            nullable (\<lambda>v. case strict_float v of Some x \<Rightarrow> if nonneg_flt x then Some x else None | None \<Rightarrow> None) (dget d ''latency_ms'')) of
        (Some p, Some l, Some m, Some t) \<Rightarrow>
          if list_all (\<lambda>(k, _). k \<in> set response_keys) d \<and> (p = None) \<noteq> (l = None)
          then Some \<lparr>rs_probabilities = p, rs_logits = l, rs_model_id = m, rs_latency = t\<rparr> else None
      | _ \<Rightarrow> None)"

definition output_kind :: "predict_response \<Rightarrow> string" where
  "output_kind r = (if rs_probabilities r \<noteq> None then ''probabilities'' else ''logits'')"

definition matrix :: "predict_response \<Rightarrow> flt list list" where
  "matrix r = (case rs_probabilities r of Some p \<Rightarrow> p | None \<Rightarrow> the (rs_logits r))"

record validated =
  vp_rows :: "rat list list"
  vp_kind :: string
  vp_n :: nat
  vp_classes :: nat
  vp_model_id :: "string option"
  vp_latency :: "flt option"

datatype mismatch = Mismatch (mm_field: string) (mm_reason: string)

text \<open>\<open>BadArguments\<close>: the \<open>ValueError\<close> for a request of no rows or no classes.\<close>

datatype response_error = Bad mismatch | BadArguments

definition is_fin :: "flt \<Rightarrow> bool" where
  "is_fin x = (case x of Fin _ \<Rightarrow> True | _ \<Rightarrow> False)"

definition fin_val :: "flt \<Rightarrow> rat" where
  "fin_val x = (case x of Fin r \<Rightarrow> r | _ \<Rightarrow> 0)"

text \<open>\<open>math.fsum\<close> is the correctly rounded sum.\<close>

definition fsum :: "rat list \<Rightarrow> rat" where "fsum xs = fl (sum_list xs)"

definition softmax :: "(rat \<Rightarrow> rat) \<Rightarrow> rat list \<Rightarrow> rat list" where
  "softmax exp_f row = (let top = Max (set row); exps = map (\<lambda>v. exp_f (fsub v top)) row; total = fsum exps
     in map (\<lambda>v. fdiv v total) exps)"

fun shape_rows :: "string \<Rightarrow> nat \<Rightarrow> int \<Rightarrow> flt list list \<Rightarrow> (response_error, unit) result" where
  "shape_rows kind k i [] = Inr ()"
| "shape_rows kind k i (row # rows) =
     (if length row \<noteq> k then
        Inl (Bad (Mismatch kind (''row '' @ dec i @ '' has '' @ dec (int (length row)) @ '' values, n_classes is '' @ dec (int k))))
      else if \<not> list_all is_fin row then Inl (Bad (Mismatch kind (''row '' @ dec i @ '' contains a non-finite value'')))
      else shape_rows kind k (i + 1) rows)"

fun probability_rows :: "int \<Rightarrow> rat list list \<Rightarrow> (response_error, unit) result" where
  "probability_rows i [] = Inr ()"
| "probability_rows i (row # rows) =
     (if Min (set row) < - probability_tolerance \<or> fadd 1 probability_tolerance < Max (set row) then
        Inl (Bad (Mismatch ''probabilities'' (''row '' @ dec i @ '' has a value outside [0, 1]'')))
      else if row_sum_tolerance < \<bar>fsub (fsum row) 1\<bar> then
        Inl (Bad (Mismatch ''probabilities'' (''row '' @ dec i @ '' sums to '' @ fmt_fixed 6 (fsum row) @ '', not 1 within 0.001'')))
      else probability_rows (i + 1) rows)"

definition response_size_error :: "int \<Rightarrow> response_error" where
  "response_size_error b = Bad (Mismatch ''body'' (''response is '' @ dec b @ '' bytes; the cap is '' @ dec max_response_bytes))"

text \<open>The first error the library reports: its location and message.\<close>

type_synonym first_error = "(string, pyval) dict \<Rightarrow> string \<times> string"

definition parse_response :: "(rat \<Rightarrow> rat) \<Rightarrow> first_error \<Rightarrow> pyval \<Rightarrow> nat \<Rightarrow> nat \<Rightarrow> int option
    \<Rightarrow> (response_error, validated) result" where
  "parse_response exp_f first_error body n n_classes raw_size =
     (if n < 1 \<or> n_classes < 1 then Inl BadArguments
      else if (case raw_size of Some s \<Rightarrow> max_response_bytes < s | None \<Rightarrow> False) then Inl (response_size_error (the raw_size))
      else case body of
        PDict d \<Rightarrow> (case model_validate d of
            None \<Rightarrow> Inl (Bad (Mismatch (fst (first_error d)) (snd (first_error d))))
          | Some r \<Rightarrow>
              let kind = output_kind r; m = matrix r; rows = map (map fin_val) m in
              if length m \<noteq> n then
                Inl (Bad (Mismatch kind (''expected '' @ dec (int n) @ '' rows, got '' @ dec (int (length m)))))
              else rbind (shape_rows kind n_classes 0 m) (\<lambda>_.
                   rbind (if kind = ''probabilities'' then probability_rows 0 rows else Inr ()) (\<lambda>_.
                   Inr \<lparr>vp_rows = (if kind = ''probabilities'' then rows else map (softmax exp_f) rows), vp_kind = kind, vp_n = n,
                     vp_classes = n_classes, vp_model_id = rs_model_id r, vp_latency = rs_latency r\<rparr>)))
      | v \<Rightarrow> Inl (Bad (Mismatch ''body'' (''response body must be a JSON object, got '' @ type_name v))))"

text \<open>\<open>json.loads\<close> with the constants refused; \<open>Inl\<close> is the text of its \<open>ValueError\<close>.\<close>

type_synonym json_loads = "string \<Rightarrow> (string, pyval) result"

definition validate_response_bytes :: "(rat \<Rightarrow> rat) \<Rightarrow> first_error \<Rightarrow> json_loads \<Rightarrow> string \<Rightarrow> nat \<Rightarrow> nat
    \<Rightarrow> (response_error, validated) result" where
  "validate_response_bytes exp_f first_error loads raw n n_classes =
     (if max_response_bytes < int (length raw) then Inl (response_size_error (int (length raw)))
      else case loads raw of
        Inl e \<Rightarrow> Inl (Bad (Mismatch ''body'' (''response is not valid JSON: '' @ e)))
      | Inr body \<Rightarrow> parse_response exp_f first_error body n n_classes (Some (int (length raw))))"

subsection \<open>A request is a batch of equally shaped tensors\<close>

text \<open>The declarative typing: a tensor of a shape with admissible leaves.\<close>

definition leaf_ok :: "bool \<Rightarrow> pyval \<Rightarrow> bool" where
  "leaf_ok u v = (case v of PInt n \<Rightarrow> \<not> no_double n \<and> (u \<longrightarrow> 0 \<le> n \<and> n \<le> 1) | PFlt x \<Rightarrow> u \<longrightarrow> 0 \<le> x \<and> x \<le> 1 | _ \<Rightarrow> False)"

fun tensor :: "bool \<Rightarrow> nat list \<Rightarrow> pyval \<Rightarrow> bool" where
  "tensor u [] v = leaf_ok u v"
| "tensor u (n # s) (PList vs) = (vs \<noteq> [] \<and> n = length vs \<and> list_all (tensor u s) vs)"
| "tensor u (n # s) v = False"

lemma tensor_Nil: "tensor u [] = leaf_ok u"
  by (rule ext) simp

lemma leaf_types_Inr: "leaf_types path i vs = Inr z \<longleftrightarrow> list_all is_number vs"
  by (induction path i vs rule: leaf_types.induct) auto

lemma all_finite_Inr: "all_finite vs = Inr True \<longleftrightarrow> list_all (\<lambda>v. case v of PInt n \<Rightarrow> \<not> no_double n | PFlt _ \<Rightarrow> True | _ \<Rightarrow> False) vs"
  by (induction vs rule: all_finite.induct) (auto split: pyval.splits)

lemma check_leaves_Inr: "vs \<noteq> [] \<Longrightarrow> check_leaves path u vs = Inr z \<longleftrightarrow> list_all (leaf_ok u) vs"
proof -
  assume ne: "vs \<noteq> []"
  have l: "leaf_ok u v \<longleftrightarrow> is_number v \<and> (case v of PInt n \<Rightarrow> \<not> no_double n | PFlt _ \<Rightarrow> True | _ \<Rightarrow> False) \<and>
      (u \<longrightarrow> \<not> num_val v < 0 \<and> \<not> 1 < num_val v)" for v
    by (cases v) (auto simp: leaf_ok_def is_number_def num_val_def not_less)
  have mm: "Min (set (map num_val vs)) < 0 \<or> 1 < Max (set (map num_val vs)) \<longleftrightarrow>
      \<not> list_all (\<lambda>v. \<not> num_val v < 0 \<and> \<not> 1 < num_val v) vs"
    using ne by (auto simp: list_all_iff Min_less_iff Max_gr_iff)
  have "check_leaves path u vs = Inr z \<longleftrightarrow> leaf_types path 0 vs = Inr () \<and> all_finite vs = Inr True \<and>
      (u \<longrightarrow> list_all (\<lambda>v. \<not> num_val v < 0 \<and> \<not> 1 < num_val v) vs)"
    unfolding check_leaves_def mm by (cases "leaf_types path 0 vs"; cases "all_finite vs") auto
  then show ?thesis unfolding leaf_types_Inr all_finite_Inr list_all_iff l by blast
qed

lemma tensor_is_list: "tensor u s v \<Longrightarrow> is_list v \<longleftrightarrow> s \<noteq> []"
  by (cases s; cases v) (auto simp: is_list_def leaf_ok_def)

lemma tensor_nonempty: "tensor u s v \<Longrightarrow> s \<noteq> [] \<Longrightarrow> \<exists>x xs. v = PList (x # xs)"
  by (cases "(u, s, v)" rule: tensor.cases) (auto simp: neq_Nil_conv)

lemma row_shape_Inr:
  "row_shape path u v = Inr s \<longleftrightarrow> s \<noteq> [] \<and> tensor u s v"
  "same_shapes path u inner i ys = Inr () \<longleftrightarrow> list_all (\<lambda>y. inner \<noteq> [] \<and> tensor u inner y) ys"
proof (induction path u v and path u inner i ys arbitrary: s rule: row_shape_same_shapes.induct)
  case (2 path u x xs)
  show ?case
  proof (cases "is_list x")
    case True
    then show ?thesis using 2 tensor_is_list [of u "tl s" x]
      by (cases s) (auto simp: list_all_iff)
  next
    case False
    have "(case s of [] \<Rightarrow> False | n # t \<Rightarrow> tensor u t x \<and> t \<noteq> []) = False"
      using tensor_is_list [of u _ x] False by (auto split: list.splits)
    then show ?thesis using False tensor_is_list [of u "tl s" x]
      by (cases s; cases "tl s") (auto simp: check_leaves_Inr tensor_Nil)
  qed
qed (auto dest: tensor_nonempty)

abbreviation row_type :: "string \<Rightarrow> nat list \<Rightarrow> pyval \<Rightarrow> bool" where
  "row_type fmt s y \<equiv> dget input_format_rank fmt = Some (length s) \<and> s \<noteq> [] \<and> tensor (fmt = ''float32_nchw'') s y"

lemma rows_loop_Some: "rows_loop fmt (Some t) i rows = Inr r \<longleftrightarrow> r = Some t \<and> list_all (row_type fmt t) rows"
  by (induction rows arbitrary: i) (auto simp: row_shape_Inr)

lemma rows_loop_None:
  "rows_loop fmt None i (x # xs) = Inr r \<longleftrightarrow> (\<exists>s. r = Some s \<and> list_all (row_type fmt s) (x # xs))"
  by (auto simp: row_shape_Inr rows_loop_Some)

lemma predict_request_Inr:
  "predict_request fmt rows = Inr s \<longleftrightarrow> 1 \<le> length rows \<and> length rows \<le> 1024 \<and> list_all (row_type fmt s) rows"
proof (cases rows)
  case (Cons x xs)
  show ?thesis unfolding predict_request_def Cons
    by (auto simp: max_batch_rows_def rows_loop_None simp del: rows_loop.simps split: if_splits)
qed (simp add: predict_request_def)

text \<open>C26. Exactly the well-typed batches are sent: a body is built when there are between 1 and 1024 rows
  and one shape, of the rank of the format and equal to the registered one, such that every row is a tensor
  of that shape with finite numeric leaves (in the unit interval for images). The body is then the rows as
  they were given; nothing is coerced.\<close>

theorem request_well_typed:
  "encode_request fmt shape rows = Inr body \<longleftrightarrow>
     1 \<le> length rows \<and> length rows \<le> 1024 \<and>
     (\<exists>s. dget input_format_rank fmt = Some (length s) \<and> s \<noteq> [] \<and> shape \<in> {None, Some s} \<and>
        list_all (tensor (fmt = ''float32_nchw'') s) rows) \<and>
     body = PDict [(''contract'', PStr contract_version), (''input_format'', PStr fmt), (''inputs'', PList rows)]"
proof -
  have "length rows \<noteq> 0 \<Longrightarrow> list_all (row_type fmt s) rows \<longleftrightarrow>
      dget input_format_rank fmt = Some (length s) \<and> s \<noteq> [] \<and> list_all (tensor (fmt = ''float32_nchw'') s) rows" for s
    by (cases rows) (auto simp: list_all_iff)
  then have p: "predict_request fmt rows = Inr s \<longleftrightarrow> 1 \<le> length rows \<and> length rows \<le> 1024 \<and>
      dget input_format_rank fmt = Some (length s) \<and> s \<noteq> [] \<and> list_all (tensor (fmt = ''float32_nchw'') s) rows" for s
    unfolding predict_request_Inr by fastforce
  show ?thesis unfolding encode_request_def rbind_Inr_iff p by (auto split: if_splits)
qed

subsection \<open>An accepted response is a list of distributions\<close>

lemma shape_rows_Inr: "shape_rows kind k i m = Inr z \<longleftrightarrow> list_all (\<lambda>row. length row = k \<and> list_all is_fin row) m"
  by (induction m arbitrary: i) auto

lemma probability_rows_Inr:
  "probability_rows i rows = Inr z \<longleftrightarrow> list_all (\<lambda>row. \<not> (Min (set row) < - probability_tolerance) \<and>
     \<not> (fadd 1 probability_tolerance < Max (set row)) \<and> \<bar>fsub (fsum row) 1\<bar> \<le> row_sum_tolerance) rows"
  by (induction rows arbitrary: i) (auto simp: not_less)

text \<open>What a rounded value says of the exact one.\<close>

lemma error_back:
  fixes e x b d :: rat
  shows "e \<le> x / 9007199254740992 + d \<Longrightarrow> x \<le> b + e \<Longrightarrow> 0 \<le> b \<Longrightarrow> 0 \<le> d \<Longrightarrow> e \<le> b / 2251799813685248 + 2 * d"
  by linarith

lemma fl_back: "\<bar>fl x\<bar> \<le> b \<Longrightarrow> \<bar>x - fl x\<bar> \<le> b / 2251799813685248 + 2 * (1 / 2 ^ 100)"
proof (rule error_back)
  assume "\<bar>fl x\<bar> \<le> b"
  then show "\<bar>x\<bar> \<le> b + \<bar>x - fl x\<bar>" "0 \<le> b" by linarith+
  show "\<bar>x - fl x\<bar> \<le> \<bar>x\<bar> / 9007199254740992 + 1 / 2 ^ 100" using fl_error [of x] by (simp add: abs_minus_commute)
qed simp

lemma tiny: "(1 :: rat) / 2 ^ 100 \<le> 1 / 10 ^ 30" "(0 :: rat) \<le> 1 / 2 ^ 100"
  by simp_all

lemma tolerance_bounds: "\<bar>probability_tolerance - 1 / 1000000\<bar> \<le> 1 / 1000000000000" "\<bar>row_sum_tolerance - 1 / 1000\<bar> \<le> 1 / 1000000000000"
  using fl_error [of "1 / 1000000"] fl_error [of "1 / 1000"] by (simp_all add: probability_tolerance_def row_sum_tolerance_def)

lemma near_one_arith:
  fixes s t d r e :: rat
  assumes "\<bar>d\<bar> \<le> r" "\<bar>r - 1 / 1000\<bar> \<le> 1 / 1000000000000" "\<bar>(t - 1) - d\<bar> \<le> r / 2251799813685248 + 2 * e"
    "\<bar>s - t\<bar> \<le> 2 / 2251799813685248 + 2 * e" "0 \<le> e" "e \<le> 1 / 1000000000000"
  shows "\<bar>s - 1\<bar> \<le> 11 / 10000" "\<bar>t\<bar> \<le> 2"
  using assms by linarith+

lemma near_one:
  assumes "\<bar>fsub (fsum row) 1\<bar> \<le> row_sum_tolerance"
  shows "\<bar>sum_list row - 1\<bar> \<le> 11 / 10000"
proof -
  let ?e = "1 / 2 ^ 100 :: rat"
  have e: "0 \<le> ?e" "?e \<le> 1 / 1000000000000" using tiny by simp_all
  have d: "\<bar>fl (fl (sum_list row) - 1)\<bar> \<le> row_sum_tolerance" using assms by (simp add: fsub_def fsum_def)
  note b = fl_back [OF d]
  have t: "\<bar>fl (sum_list row)\<bar> \<le> 2"
    using d b tolerance_bounds(2) e by linarith
  show ?thesis
    by (rule near_one_arith(1) [OF d tolerance_bounds(2) b fl_back [OF t] e])
qed

lemma probability_range:
  assumes "\<not> Min (set row) < - probability_tolerance" "\<not> fadd 1 probability_tolerance < Max (set row)" "x \<in> set row"
  shows "- 2 / 1000000 \<le> x" "x \<le> 1 + 2 / 1000000"
proof -
  have m: "Min (set row) \<le> x" "x \<le> Max (set row)" using assms(3) by simp_all
  have "\<bar>1 + probability_tolerance\<bar> \<le> 2" using tolerance_bounds(1) by linarith
  from fl_error_le [OF this] have "\<bar>fl (1 + probability_tolerance) - (1 + probability_tolerance)\<bar> \<le> 2 / 4503599627370496"
    by simp
  then show "- 2 / 1000000 \<le> x" "x \<le> 1 + 2 / 1000000"
    using assms(1,2) m tolerance_bounds(1) unfolding fadd_def by linarith+
qed

text \<open>The laws of \<open>math.exp\<close> that softmax needs.\<close>

definition exp_laws :: "(rat \<Rightarrow> rat) \<Rightarrow> bool" where
  "exp_laws f \<longleftrightarrow> f 0 = 1 \<and> (\<forall>x. 0 \<le> f x) \<and> (\<forall>x \<le> 0. f x \<le> 1)"

lemma softmax_exps:
  assumes "exp_laws f" "row \<noteq> []"
  defines "es \<equiv> map (\<lambda>v. f (fsub v (Max (set row)))) row"
  shows "\<forall>x \<in> set es. 0 \<le> x \<and> x \<le> 1" "1 \<in> set es"
proof -
  have "fsub v (Max (set row)) \<le> 0" if "v \<in> set row" for v
  proof -
    have "v - Max (set row) \<le> 0" using that by simp
    from fl_mono [OF this] show ?thesis by (simp add: fsub_def)
  qed
  then show "\<forall>x \<in> set es. 0 \<le> x \<and> x \<le> 1" using assms(1) by (auto simp: es_def exp_laws_def)
  have "f (fsub (Max (set row)) (Max (set row))) = 1" using assms(1) by (simp add: fsub_def exp_laws_def)
  moreover have "Max (set row) \<in> set row" using assms(2) by simp
  ultimately show "1 \<in> set es" unfolding es_def by force
qed

lemma sum_list_ge_elem: "\<forall>x \<in> set xs. (0 :: rat) \<le> x \<Longrightarrow> x \<in> set xs \<Longrightarrow> x \<le> sum_list xs"
  by (induction xs) (auto simp: add_increasing add_increasing2 sum_list_nonneg)

lemma scaled_sum_error:
  assumes "\<forall>x \<in> set es. 0 \<le> x \<and> x \<le> 1" "1 \<le> t"
  shows "\<bar>sum_list (map (\<lambda>x. fdiv x t) es) - sum_list es / t\<bar> \<le> of_nat (length es) / 4503599627370496"
    "\<forall>p \<in> set (map (\<lambda>x. fdiv x t) es). 0 \<le> p \<and> p \<le> 1"
proof -
  have q: "0 \<le> x / t \<and> x / t \<le> 1" if "x \<in> set es" for x
    using assms that by (auto simp: divide_le_eq intro: order_trans)
  show "\<forall>p \<in> set (map (\<lambda>x. fdiv x t) es). 0 \<le> p \<and> p \<le> 1"
    using q fl_mono [of "0" "_ / t"] fl_mono [of "_ / t" "1"] fl_int [of 1] by (fastforce simp: fdiv_def)
  have "\<bar>fdiv x t - x / t\<bar> \<le> 1 / 4503599627370496" if "x \<in> set es" for x
  proof -
    have "\<bar>x / t\<bar> \<le> 1" using q [OF that] by linarith
    from fl_error_le [OF this] show ?thesis by (simp add: fdiv_def)
  qed
  then show "\<bar>sum_list (map (\<lambda>x. fdiv x t) es) - sum_list es / t\<bar> \<le> of_nat (length es) / 4503599627370496"
  proof (induction es)
    case (Cons x es)
    have "\<bar>fdiv x t - x / t\<bar> \<le> 1 / 4503599627370496"
      "\<bar>sum_list (map (\<lambda>x. fdiv x t) es) - sum_list es / t\<bar> \<le> of_nat (length es) / 4503599627370496"
      using Cons by simp_all
    moreover have "(x + sum_list es) / t = x / t + sum_list es / t" by (simp add: add_divide_distrib)
    moreover have "of_nat (length (x # es)) / (4503599627370496 :: rat) = 1 / 4503599627370496 + of_nat (length es) / 4503599627370496"
      by (simp add: add_divide_distrib)
    ultimately show ?case unfolding list.map sum_list.Cons by linarith
  qed simp
qed

lemma ratio_near_one:
  fixes s t e :: rat
  assumes "\<bar>s - t\<bar> \<le> t / 2251799813685248 + 2 * e" "1 \<le> t" "0 \<le> e" "e \<le> 1 / 1000000000000"
  shows "\<bar>s / t - 1\<bar> \<le> 3 / 1000000000000"
proof -
  have "2 * e \<le> 2 / 1000000000000 * t" using assms by simp
  then have "\<bar>s - t\<bar> \<le> 3 / 1000000000000 * t" using assms by linarith
  moreover have "s / t - 1 = (s - t) / t" using assms(2) by (simp add: diff_divide_distrib)
  ultimately show ?thesis using assms(2) by (simp add: abs_divide divide_le_eq)
qed

lemma softmax_distribution:
  assumes "exp_laws f" "row \<noteq> []" "length row \<le> 16777216"
  shows "\<forall>p \<in> set (softmax f row). 0 \<le> p \<and> p \<le> 1" "\<bar>sum_list (softmax f row) - 1\<bar> \<le> 1 / 1000000"
proof -
  define es where "es = map (\<lambda>v. f (fsub v (Max (set row)))) row"
  define t where "t = fl (sum_list es)"
  have u: "\<forall>x \<in> set es. 0 \<le> x \<and> x \<le> 1" "1 \<in> set es" using softmax_exps [OF assms(1,2)] by (simp_all add: es_def)
  have "1 \<le> sum_list es" using sum_list_ge_elem u by blast
  then have t: "1 \<le> t" using fl_mono [of 1 "sum_list es"] fl_int [of 1] by (simp add: t_def)
  have sm: "softmax f row = map (\<lambda>x. fdiv x t) es" by (simp add: softmax_def es_def t_def Let_def fsum_def)
  have e: "(0 :: rat) \<le> 1 / 2 ^ 100" "(1 :: rat) / 2 ^ 100 \<le> 1 / 1000000000000" by simp_all
  have "\<bar>fl (sum_list es)\<bar> \<le> t" using t by (simp add: t_def)
  from ratio_near_one [OF fl_back [OF this, folded t_def] t e]
  have "\<bar>sum_list es / t - 1\<bar> \<le> 3 / 1000000000000" .
  moreover have "of_nat (length es) / 4503599627370496 \<le> (16777216 :: rat) / 4503599627370496"
    using assms(3) by (intro divide_right_mono) (simp_all add: es_def)
  ultimately show "\<bar>sum_list (softmax f row) - 1\<bar> \<le> 1 / 1000000"
    using scaled_sum_error(1) [OF u(1) t] unfolding sm by linarith
  show "\<forall>p \<in> set (softmax f row). 0 \<le> p \<and> p \<le> 1" unfolding sm by (rule scaled_sum_error(2) [OF u(1) t])
qed

lemma parse_response_Inr:
  assumes "parse_response f fe body n k sz = Inr vp"
  obtains m where "length m = n" "list_all (\<lambda>row. length row = k \<and> list_all is_fin row) m" "0 < k" "vp_n vp = n" "vp_classes vp = k"
    "vp_kind vp = ''probabilities'' \<and> vp_rows vp = map (map fin_val) m \<and> probability_rows 0 (map (map fin_val) m) = Inr () \<or>
     vp_kind vp = ''logits'' \<and> vp_rows vp = map (softmax f) (map (map fin_val) m)"
proof -
  obtain d r where b: "body = PDict d" "model_validate d = Some r" and k: "0 < k"
    using assms by (auto simp: parse_response_def response_size_error_def split: if_splits pyval.splits option.splits)
  have kind: "output_kind r = ''probabilities'' \<or> output_kind r = ''logits''" by (simp add: output_kind_def)
  have len: "length (matrix r) = n"
    using assms by (simp add: parse_response_def b Let_def split: if_splits)
  have p: "shape_rows (output_kind r) k 0 (matrix r) = Inr ()"
    "output_kind r = ''probabilities'' \<Longrightarrow> probability_rows 0 (map (map fin_val) (matrix r)) = Inr ()"
    using assms by (auto simp: parse_response_def b Let_def split: if_splits)
  have v: "vp = \<lparr>vp_rows = (if output_kind r = ''probabilities'' then map (map fin_val) (matrix r)
      else map (softmax f) (map (map fin_val) (matrix r))), vp_kind = output_kind r, vp_n = n, vp_classes = k,
      vp_model_id = rs_model_id r, vp_latency = rs_latency r\<rparr>"
    using assms by (auto simp: parse_response_def b Let_def split: if_splits)
  show thesis
    by (rule that [of "matrix r"]) (use kind len p k v in \<open>auto simp: shape_rows_Inr\<close>)
qed


definition ex_exp :: "rat \<Rightarrow> rat" where "ex_exp x = (if x \<le> 0 then 1 / (1 - x) else 1)"


end
