(* ===== verification/EndpointBroker.thy ===== *)
theory EndpointBroker
  imports EgressUrl EndpointContract Sha256
begin

text \<open>
  \<open>ml/endpoint_broker.py\<close>, the only code that sends requests to a black-box endpoint, with the typed
  failures of \<open>ml/errors.py\<close> and the client side of the socket in \<open>ml/targets/endpoint.py\<close>: limits, the
  token bucket, one predict call with its budget, rate limit, pinned connection and bounded retries, the
  frames between the broker and the sandboxed child. The network is a function from the number of the request
  and the request to its answer; the requests that were sent are kept as a log in the state.
\<close>

subsection \<open>Failures\<close>

text \<open>\<open>Foreign\<close>: an exception outside the endpoint classes, by class name and text.\<close>

datatype ml_error =
    EndpointErr string | Unreachable string | AuthFailed string | BudgetExceeded string
  | EgressErr egress_refused | SchemaErr mismatch | Foreign string string

definition schema_error :: "string \<Rightarrow> string \<Rightarrow> (ml_error, 'a) result" where
  "schema_error f reason = Inl (SchemaErr (Mismatch f reason))"

text \<open>\<open>type(exc).__name__\<close>, \<open>exc.code\<close> and \<open>str(exc)\<close>.\<close>

fun error_class_name :: "ml_error \<Rightarrow> string" where
  "error_class_name (EndpointErr _) = ''EndpointError''"
| "error_class_name (Unreachable _) = ''EndpointUnreachable''"
| "error_class_name (AuthFailed _) = ''EndpointAuthFailed''"
| "error_class_name (BudgetExceeded _) = ''QueryBudgetExceeded''"
| "error_class_name (EgressErr e) = (case er_code e of
      UrlInvalid \<Rightarrow> ''EndpointUrlInvalid'' | NotAllowlisted \<Rightarrow> ''EndpointNotAllowlisted'' | Refused \<Rightarrow> ''EgressRefused'')"
| "error_class_name (SchemaErr _) = ''EndpointSchemaMismatch''"
| "error_class_name (Foreign c _) = c"

fun error_code :: "ml_error \<Rightarrow> string" where
  "error_code (Unreachable _) = ''endpoint_unreachable''"
| "error_code (AuthFailed _) = ''endpoint_auth_failed''"
| "error_code (BudgetExceeded _) = ''query_budget_exceeded''"
| "error_code (EgressErr e) = egress_code_name (er_code e)"
| "error_code (SchemaErr _) = ''endpoint_schema_mismatch''"
| "error_code _ = ''endpoint_error''"

fun error_text :: "ml_error \<Rightarrow> string" where
  "error_text (EndpointErr m) = m" | "error_text (Unreachable m) = m" | "error_text (AuthFailed m) = m"
| "error_text (BudgetExceeded m) = m"
| "error_text (EgressErr e) = egress_code_name (er_code e) @ '' ('' @ er_rule e @ ''): '' @ er_reason e"
| "error_text (SchemaErr m) = mm_field m @ '': '' @ mm_reason m"
| "error_text (Foreign _ t) = t"

fun py_of_json :: "json \<Rightarrow> pyval" where
  "py_of_json (JStr s) = PStr s" | "py_of_json (JInt n) = PInt n" | "py_of_json (JBool b) = PBool b" | "py_of_json _ = PNone"

definition failure_detail :: "ml_error \<Rightarrow> (string, pyval) dict" where
  "failure_detail e = (case e of
      EgressErr r \<Rightarrow> map (\<lambda>(k, v). (k, py_of_json v)) (refused_detail r)
    | SchemaErr m \<Rightarrow> [(''field'', PStr (mm_field m)), (''reason'', PStr (mm_reason m))]
    | _ \<Rightarrow> [])"

definition error_frame :: "ml_error \<Rightarrow> (string, pyval) dict" where
  "error_frame e = (case e of
      Foreign c t \<Rightarrow> [(''ok'', PBool False), (''error_class'', PStr ''EndpointError''), (''code'', PStr ''endpoint_error''),
        (''error'', PStr (take 4000 (c @ '': '' @ t)))]
    | _ \<Rightarrow> [(''ok'', PBool False), (''error_class'', PStr (error_class_name e)), (''code'', PStr (error_code e)),
        (''error'', PStr (take 4000 (error_text e)))] @
        (if failure_detail e = [] then [] else [(''detail'', PDict (failure_detail e))]))"

definition nonempty_str :: "pyval option \<Rightarrow> string \<Rightarrow> string" where
  "nonempty_str v dflt = (case v of Some (PStr s) \<Rightarrow> if s = [] then dflt else s | _ \<Rightarrow> dflt)"

definition str_opt :: "pyval option \<Rightarrow> string option" where
  "str_opt v = (case v of Some (PStr s) \<Rightarrow> Some s | _ \<Rightarrow> None)"

definition rebuild_egress :: "egress_code \<Rightarrow> string \<Rightarrow> (string, pyval) dict \<Rightarrow> ml_error" where
  "rebuild_egress c message given = EgressErr \<lparr>er_code = c, er_rule = nonempty_str (dget given ''rule'') ''remote'',
     er_reason = nonempty_str (dget given ''reason'') message, er_host = str_opt (dget given ''host''),
     er_address = str_opt (dget given ''address'')\<rparr>"

text \<open>For the endpoint classes; the other classes of the module do not pass \<open>endpoint_error_class\<close>.\<close>

definition rebuild_error :: "string \<Rightarrow> string \<Rightarrow> (string, pyval) dict \<Rightarrow> ml_error option" where
  "rebuild_error name message given =
     (if name = ''EgressRefused'' then Some (rebuild_egress Refused message given)
      else if name = ''EndpointUrlInvalid'' then Some (rebuild_egress UrlInvalid message given)
      else if name = ''EndpointNotAllowlisted'' then Some (rebuild_egress NotAllowlisted message given)
      else if name = ''EndpointSchemaMismatch'' then
        Some (SchemaErr (Mismatch (nonempty_str (dget given ''field'') ''response'') (nonempty_str (dget given ''reason'') message)))
      else if name = ''EndpointError'' then Some (EndpointErr message)
      else if name = ''EndpointUnreachable'' then Some (Unreachable message)
      else if name = ''EndpointAuthFailed'' then Some (AuthFailed message)
      else if name = ''QueryBudgetExceeded'' then Some (BudgetExceeded message) else None)"

definition error_from_frame :: "(string, pyval) dict \<Rightarrow> ml_error" where
  "error_from_frame frame =
     (let name = str_or (dget frame ''error_class'') ''EndpointError''; message = str_or (dget frame ''error'') name;
          detail = (case dget frame ''detail'' of Some (PDict d) \<Rightarrow> d | _ \<Rightarrow> [])
      in case rebuild_error name message detail of Some e \<Rightarrow> e | None \<Rightarrow> EndpointErr message)"

subsection \<open>Limits\<close>

definition default_batch_rows :: "(string, int) dict" where
  "default_batch_rows = [(''image'', 32), (''tabular'', 256)]"

record limits =
  l_rps :: flt
  l_batch_rows :: int
  l_timeout :: flt
  l_max_rows :: int
  l_max_requests :: int

definition default_limits :: limits where
  "default_limits = \<lparr>l_rps = Fin 10, l_batch_rows = 32, l_timeout = Fin 30, l_max_rows = 500000, l_max_requests = 20000\<rparr>"

definition positive_flt :: "flt \<Rightarrow> bool" where
  "positive_flt x = (case x of Fin r \<Rightarrow> 0 < r | Inf neg \<Rightarrow> \<not> neg | NaN \<Rightarrow> False)"

definition float_env :: "(string, string) dict \<Rightarrow> string \<Rightarrow> flt \<Rightarrow> flt" where
  "float_env env name dflt = (let raw = strip (dget_or [] env name) in
     if raw = [] then dflt else case py_float raw of None \<Rightarrow> dflt | Some v \<Rightarrow> if positive_flt v then v else dflt)"

definition int_env :: "(string, string) dict \<Rightarrow> string \<Rightarrow> int \<Rightarrow> int" where
  "int_env env name dflt = (let raw = strip (dget_or [] env name) in
     if raw = [] then dflt else case py_int raw of None \<Rightarrow> dflt | Some v \<Rightarrow> if 0 < v then v else dflt)"

definition from_env :: "string \<Rightarrow> (string, string) dict \<Rightarrow> limits" where
  "from_env modality env = \<lparr>
     l_rps = float_env env ''REDSIM_ML_ENDPOINT_RPS'' (l_rps default_limits),
     l_batch_rows = min (int_env env ''REDSIM_ML_ENDPOINT_BATCH_ROWS'' (dget_or 32 default_batch_rows modality)) max_batch_rows,
     l_timeout = float_env env ''REDSIM_ML_ENDPOINT_TIMEOUT_S'' (l_timeout default_limits),
     l_max_rows = int_env env ''REDSIM_ML_ENDPOINT_MAX_ROWS'' (l_max_rows default_limits),
     l_max_requests = int_env env ''REDSIM_ML_ENDPOINT_MAX_REQUESTS'' (l_max_requests default_limits)\<rparr>"

text \<open>A positive number among the overrides; \<open>NaN\<close> is not refused by the comparison with zero.\<close>

definition override_of :: "(string, pyval) dict \<Rightarrow> string \<Rightarrow> pyval option" where
  "override_of ov k = (case dget ov k of
      Some (PInt n) \<Rightarrow> if n \<le> 0 then None else Some (PInt n)
    | Some (PFlt x) \<Rightarrow> if x \<le> 0 then None else Some (PFlt x)
    | Some (PInf neg) \<Rightarrow> if neg then None else Some (PInf neg)
    | Some PNaN \<Rightarrow> Some PNaN
    | _ \<Rightarrow> None)"

definition float_override :: "(string, pyval) dict \<Rightarrow> string \<Rightarrow> flt \<Rightarrow> (ml_error, flt) result" where
  "float_override ov k dflt = (case override_of ov k of
      None \<Rightarrow> Inr dflt
    | Some v \<Rightarrow> (case strict_float v of Some x \<Rightarrow> Inr x
        | None \<Rightarrow> Inl (Foreign ''OverflowError'' ''int too large to convert to float'')))"

definition int_override :: "(string, pyval) dict \<Rightarrow> string \<Rightarrow> int \<Rightarrow> (ml_error, int) result" where
  "int_override ov k dflt = (case override_of ov k of
      None \<Rightarrow> Inr dflt | Some (PInt n) \<Rightarrow> Inr n | Some (PFlt x) \<Rightarrow> Inr \<lfloor>x\<rfloor>
    | Some PNaN \<Rightarrow> Inl (Foreign ''ValueError'' ''cannot convert float NaN to integer'')
    | _ \<Rightarrow> Inl (Foreign ''OverflowError'' ''cannot convert float infinity to integer''))"

definition merged :: "limits \<Rightarrow> (string, pyval) dict \<Rightarrow> (ml_error, limits) result" where
  "merged l ov =
     (if ov = [] then Inr l
      else rbind (float_override ov ''rps'' (l_rps l)) (\<lambda>rps.
           rbind (int_override ov ''batch_rows'' (l_batch_rows l)) (\<lambda>batch.
           rbind (float_override ov ''timeout_s'' (l_timeout l)) (\<lambda>timeout.
           rbind (int_override ov ''max_rows'' (l_max_rows l)) (\<lambda>rows.
           rbind (int_override ov ''max_requests'' (l_max_requests l)) (\<lambda>requests.
           Inr \<lparr>l_rps = rps, l_batch_rows = min batch max_batch_rows, l_timeout = timeout, l_max_rows = rows,
             l_max_requests = requests\<rparr>))))))"

definition flt_val :: "flt \<Rightarrow> pyval" where
  "flt_val x = (case x of Fin r \<Rightarrow> PFlt r | Inf neg \<Rightarrow> PInf neg | NaN \<Rightarrow> PNaN)"

definition limits_dict :: "limits \<Rightarrow> (string, pyval) dict" where
  "limits_dict l = [(''rps'', flt_val (l_rps l)), (''batch_rows'', PInt (l_batch_rows l)), (''timeout_s'', flt_val (l_timeout l)),
     (''max_rows'', PInt (l_max_rows l)), (''max_requests'', PInt (l_max_requests l))]"

subsection \<open>The token bucket\<close>

record bucket =
  b_rate :: rat
  b_capacity :: rat
  b_tokens :: rat
  b_last :: rat

definition new_bucket :: "rat \<Rightarrow> rat \<Rightarrow> bucket" where
  "new_bucket rate now = \<lparr>b_rate = rate, b_capacity = max 1 rate, b_tokens = max 1 rate, b_last = now\<rparr>"

definition refill :: "rat \<Rightarrow> bucket \<Rightarrow> bucket" where
  "refill now b = b\<lparr>b_tokens := min (b_capacity b) (fadd (b_tokens b) (fmul (fsub now (b_last b)) (b_rate b))), b_last := now\<rparr>"

text \<open>The readings of the clock, the second one after the sleep: the wait, and how many readings were taken.\<close>

definition acquire :: "(nat \<Rightarrow> rat) \<Rightarrow> nat \<Rightarrow> bucket \<Rightarrow> rat \<times> bucket \<times> nat" where
  "acquire clock k b = (let b1 = refill (clock k) b in
     if b_tokens b1 < 1 then
       let wait = fdiv (fsub 1 (b_tokens b1)) (b_rate b1); b2 = refill (clock (k + 1)) b1
       in (wait, b2\<lparr>b_tokens := max 0 (fsub (b_tokens b2) 1)\<rparr>, k + 2)
     else (0, b1\<lparr>b_tokens := max 0 (fsub (b_tokens b1) 1)\<rparr>, k + 1))"

subsection \<open>The transport\<close>

record stats =
  s_url_host :: string
  s_scheme :: string
  s_tls_mode :: string
  s_plaintext_loopback :: bool
  s_proxy :: bool
  s_resolved :: "string list"
  s_pinned :: "string option"
  s_limits :: "(string, pyval) dict"
  s_requests :: int
  s_rows :: int
  s_request_bytes :: int
  s_response_bytes :: int
  s_retries :: int
  s_failures :: int
  s_wait :: rat
  s_latency_total :: rat
  s_status_last :: "int option"
  s_by_purpose :: "(string, int \<times> int) dict"
  s_output_kind :: "string option"
  s_fingerprint :: "string option"
  s_last_error :: "string option"
  s_notes :: "string list"

definition count_call :: "string \<Rightarrow> int \<Rightarrow> int \<Rightarrow> int \<Rightarrow> rat \<Rightarrow> int \<Rightarrow> stats \<Rightarrow> stats" where
  "count_call purpose rows reqb respb latency status s = (let (q, r) = dget_or (0, 0) (s_by_purpose s) purpose in
     s\<lparr>s_requests := s_requests s + 1, s_rows := s_rows s + rows, s_request_bytes := s_request_bytes s + reqb,
       s_response_bytes := s_response_bytes s + respb, s_latency_total := fadd (s_latency_total s) latency,
       s_status_last := Some status, s_by_purpose := dset purpose (q + 1, r + rows) (s_by_purpose s)\<rparr>)"

record http_request =
  rq_url :: string
  rq_host :: "string option"        \<comment> \<open>the \<open>Host\<close> header set for a pinned connection\<close>
  rq_sni :: "string option"
  rq_body :: string

datatype http_answer = Failed string string | Answered int string rat   \<comment> \<open>status, content, seconds\<close>

record environment =
  env_resolve :: resolver
  env_exp :: "rat \<Rightarrow> rat"
  env_first_error :: first_error
  env_request_error :: "pyval list \<Rightarrow> string"
  env_loads :: json_loads
  env_url_error :: "string \<Rightarrow> string"
  env_clock :: "nat \<Rightarrow> rat"
  env_send :: "nat \<Rightarrow> http_request \<Rightarrow> http_answer"

record transport =
  t_limits :: limits
  t_classes :: "nat option"
  t_format :: "string option"
  t_shape :: "nat list option"
  t_endpoint :: parsed_endpoint
  t_pins :: pins
  t_pinned :: "ipaddr option"
  t_auth :: "(string \<times> string) option"
  t_stats :: stats
  t_bucket :: "bucket option"       \<comment> \<open>\<open>None\<close>: a rate that is not finite never waits\<close>
  t_ticks :: nat
  t_sent :: "http_request list"
  t_closed :: bool

definition url_host :: "parsed_endpoint \<Rightarrow> string" where
  "url_host p = (let host = (if pe_literal p \<and> CHR '':'' \<in> set (pe_host p) then ''['' @ pe_host p @ '']'' else pe_host p)
     in if default_port (pe_scheme p) = Some (pe_port p) then host else host @ '':'' @ dec (pe_port p))"

definition connect_url :: "parsed_endpoint \<Rightarrow> ipaddr \<Rightarrow> string" where
  "connect_url p a = (let host = (case a of V6 _ \<Rightarrow> ''['' @ ip_str a @ '']'' | V4 _ \<Rightarrow> ip_str a);
        port = (if default_port (pe_scheme p) = Some (pe_port p) then [] else CHR '':'' # dec (pe_port p))
     in pe_scheme p @ ''://'' @ host @ port @ pe_path p)"

text \<open>An \<open>AuthProfile\<close> resolution: kind, header name of the configuration, secret.\<close>

definition auth_headers :: "(string \<times> string \<times> string) option \<Rightarrow> (ml_error, (string \<times> string) option) result" where
  "auth_headers auth = (case auth of
      None \<Rightarrow> Inr None
    | Some (kind, header_name, secret) \<Rightarrow>
        let refuse = (\<lambda>m. Inl (EgressErr \<lparr>er_code = Refused, er_rule = ''credential'', er_reason = m, er_host = None, er_address = None\<rparr>)) in
        if secret = [] then refuse ''endpoint credential is empty; refusing to send an unauthenticated request in its place''
        else if kind = ''bearer'' then Inr (Some (''Authorization'', ''Bearer '' @ secret))
        else if kind = ''header'' then
          let name = strip header_name in
          if name = [] \<or> list_ex (\<lambda>c. c \<in> set name) ('' :'' @ [CHR 0x0D, CHR 0x0A])
          then refuse ''endpoint credential of kind 'header' needs a valid config.header_name''
          else Inr (Some (name, secret))
        else refuse (''endpoint credential kind '' @ py_repr_str kind @ '' is not supported (bearer or header)''))"

fun row_rank :: "pyval \<Rightarrow> nat" where
  "row_rank (PList (x # xs)) = Suc (row_rank x)"
| "row_rank _ = 0"

definition input_format_for :: "string option \<Rightarrow> pyval list \<Rightarrow> (ml_error, string) result" where
  "input_format_for modality inputs = (case modality of
      Some m \<Rightarrow> (case dget modality_input_format m of Some f \<Rightarrow> Inr f
        | None \<Rightarrow> schema_error ''inputs'' (''no endpoint-v1 input format serves modality '' @ py_repr_str m))
    | None \<Rightarrow> (case (if inputs = [] then None else find (\<lambda>(f, r). r = row_rank (hd inputs)) input_format_rank) of
          Some (f, _) \<Rightarrow> Inr f
        | None \<Rightarrow> schema_error ''inputs'' ''rows are neither [C][H][W] images nor flat feature vectors''))"

definition of_egress :: "environment \<Rightarrow> string \<Rightarrow> egress_error \<Rightarrow> ml_error" where
  "of_egress env url e = (case e of Egress r \<Rightarrow> EgressErr r | UrlValueError \<Rightarrow> Foreign ''ValueError'' (env_url_error env url))"

text \<open>
  \<open>HttpPredictTransport(...)\<close>; \<open>live\<close> is false when a test transport is given without a resolver,
  \<open>tls\<close> the mode \<open>tls_verify\<close> reports, \<open>trust\<close> the explicit \<open>trust_env\<close>.
\<close>

definition pin_note :: "ipaddr \<Rightarrow> string \<Rightarrow> string" where
  "pin_note a host = ''connections pinned to '' @ ip_str a @ '' for '' @ py_repr_str host @
     '' (the hostname travels as TLS SNI and Host header); a later resolution or connection elsewhere is refused as DNS rebinding''"

definition initial_stats :: "parsed_endpoint \<Rightarrow> ipaddr option \<Rightarrow> ipaddr list \<Rightarrow> limits \<Rightarrow> string \<Rightarrow> bool \<Rightarrow> stats" where
  "initial_stats p pin addrs l tls proxy = \<lparr>s_url_host = url_host p, s_scheme = pe_scheme p, s_tls_mode = tls,
     s_plaintext_loopback = pe_plaintext_loopback p, s_proxy = proxy, s_resolved = map ip_str addrs, s_pinned = map_option ip_str pin,
     s_limits = limits_dict l, s_requests = 0, s_rows = 0, s_request_bytes = 0, s_response_bytes = 0, s_retries = 0, s_failures = 0,
     s_wait = 0, s_latency_total = 0, s_status_last = None, s_by_purpose = [], s_output_kind = None, s_fingerprint = None,
     s_last_error = None,
     s_notes = (if tls = ''plaintext'' then [''plaintext http permitted: the host is a loopback or private literal on the allowlist (development endpoint)''] else [])
       @ (case pin of None \<Rightarrow> [] | Some a \<Rightarrow> [pin_note a (pe_host p)]) @ [''redirects disabled'']\<rparr>"

definition open_bucket :: "flt \<Rightarrow> rat \<Rightarrow> (ml_error, bucket option) result" where
  "open_bucket rate now = (case rate of
      Fin r \<Rightarrow> if r \<le> 0 then Inl (Foreign ''ValueError'' ''rate must be positive'') else Inr (Some (new_bucket r now))
    | Inf neg \<Rightarrow> if neg then Inl (Foreign ''ValueError'' ''rate must be positive'') else Inr None
    | NaN \<Rightarrow> Inr None)"

definition loopback_proxy :: "parsed_endpoint \<Rightarrow> bool option \<Rightarrow> bool" where
  "loopback_proxy p trust = (case trust of Some b \<Rightarrow> b | None \<Rightarrow> \<not> pe_plaintext_loopback p \<and> is_loopback (pe_host p) \<noteq> Some True)"

definition egress_check :: "environment \<Rightarrow> string list \<Rightarrow> string \<Rightarrow> bool
    \<Rightarrow> (ml_error, parsed_endpoint \<times> ipaddr option \<times> ipaddr list \<times> pins) result" where
  "egress_check env allow url live =
     (if live then (case check_endpoint (env_resolve env) allow url [] of
          (Inl e, _) \<Rightarrow> Inl (of_egress env url e)
        | (Inr (p, r), ps) \<Rightarrow> Inr (p, Some (rh_pinned r), rh_addresses r, ps))
      else (case check_registration_url url allow of
          Inl e \<Rightarrow> Inl (of_egress env url e) | Inr p \<Rightarrow> Inr (p, None, [], [])))"

definition open_transport :: "environment \<Rightarrow> string list \<Rightarrow> string \<Rightarrow> (string \<times> string \<times> string) option \<Rightarrow> limits \<Rightarrow> nat option
    \<Rightarrow> string option \<Rightarrow> nat list option \<Rightarrow> bool \<Rightarrow> string \<Rightarrow> bool option \<Rightarrow> (ml_error, transport) result" where
  "open_transport env allow url auth l classes modality shape live tls trust =
     rbind (case modality of None \<Rightarrow> Inr None | Some m \<Rightarrow> rbind (input_format_for (Some m) []) (\<lambda>f. Inr (Some f))) (\<lambda>fmt.
     rbind (egress_check env allow url live) (\<lambda>(p, pin, addrs, ps).
     rbind (auth_headers auth) (\<lambda>hd.
     rbind (open_bucket (l_rps l) (env_clock env 0)) (\<lambda>b.
     Inr \<lparr>t_limits = l, t_classes = classes, t_format = fmt, t_shape = (if shape = Some [] then None else shape), t_endpoint = p,
       t_pins = ps, t_pinned = pin, t_auth = hd,
       t_stats = initial_stats p pin addrs l (if pe_scheme p = ''https'' \<or> tls = ''transport'' then tls else ''plaintext'') (loopback_proxy p trust),
       t_bucket = b, t_ticks = 1, t_sent = [], t_closed = False\<rparr>))))"

subsection \<open>One predict call\<close>

definition request_target :: "transport \<Rightarrow> (ml_error, string \<times> string option \<times> string option) result" where
  "request_target t = (case t_pinned t of
      None \<Rightarrow> Inr (pe_url (t_endpoint t), None, None)
    | Some a \<Rightarrow> (case verify_pin (t_pins t) (pe_host (t_endpoint t)) (ip_str a) of
        Inl (Egress r) \<Rightarrow> Inl (EgressErr r)
      | Inl UrlValueError \<Rightarrow> Inl (Foreign ''ValueError'' [])   \<comment> \<open>not raised by \<open>verify_pin\<close>\<close>
      | Inr _ \<Rightarrow> Inr (connect_url (t_endpoint t) a, Some (url_host (t_endpoint t)),
          if pe_scheme (t_endpoint t) = ''https'' \<and> \<not> pe_literal (t_endpoint t) then Some (pe_host (t_endpoint t)) else None)))"

definition encode_body :: "environment \<Rightarrow> transport \<Rightarrow> pyval list \<Rightarrow> (ml_error, string) result" where
  "encode_body env t inputs =
     rbind (case t_format t of Some f \<Rightarrow> Inr f | None \<Rightarrow> input_format_for None inputs) (\<lambda>f.
       case encode_request f (t_shape t) inputs of
         Inl (ValueErr m) \<Rightarrow> schema_error ''inputs'' m
       | Inl FieldErr \<Rightarrow> schema_error ''inputs'' (env_request_error env inputs)
       | Inl OverflowErr \<Rightarrow> Inl (Foreign ''OverflowError'' ''int too large to convert to float'')
       | Inr body \<Rightarrow> Inr (enc (to_json body)))"

definition take_token :: "environment \<Rightarrow> transport \<Rightarrow> transport" where
  "take_token env t = (case t_bucket t of
      None \<Rightarrow> t
    | Some b \<Rightarrow> (case acquire (env_clock env) (t_ticks t) b of (w, b', k) \<Rightarrow>
        t\<lparr>t_bucket := Some b', t_ticks := k, t_stats := (t_stats t)\<lparr>s_wait := fadd (s_wait (t_stats t)) w\<rparr>\<rparr>))"

definition on_stats :: "(stats \<Rightarrow> stats) \<Rightarrow> transport \<Rightarrow> transport" where
  "on_stats f t = t\<lparr>t_stats := f (t_stats t)\<rparr>"

definition note_retry :: "transport \<Rightarrow> transport" where
  "note_retry = on_stats (\<lambda>s. s\<lparr>s_retries := s_retries s + 1\<rparr>)"

definition note_failure :: "transport \<Rightarrow> transport" where
  "note_failure = on_stats (\<lambda>s. s\<lparr>s_failures := s_failures s + 1\<rparr>)"

definition note_status :: "int \<Rightarrow> transport \<Rightarrow> transport" where
  "note_status st = on_stats (\<lambda>s. s\<lparr>s_failures := s_failures s + 1, s_status_last := Some st, s_last_error := Some (''http '' @ dec st)\<rparr>)"

definition unreachable_after :: "transport \<Rightarrow> int \<Rightarrow> string \<Rightarrow> string \<Rightarrow> ml_error" where
  "unreachable_after t n exc txt = Unreachable (''endpoint '' @ s_url_host (t_stats t) @ '' unreachable after '' @ dec n @ '' attempts: '' @
     exc @ '': '' @ txt)"

definition retry_backoff :: "rat list" where "retry_backoff = [fl (2 / 10), 1 / 2]"

text \<open>The answer that ends the loop: status, content, latency in milliseconds, number of attempts.\<close>

fun send_loop :: "environment \<Rightarrow> string \<Rightarrow> rat list \<Rightarrow> int \<Rightarrow> transport \<Rightarrow> (ml_error, int \<times> string \<times> rat \<times> int) result \<times> transport" where
  "send_loop env body bs n t0 =
     (let t1 = take_token env t0 in
      case request_target t1 of
        Inl e \<Rightarrow> (Inl e, t1)
      | Inr (url, host, sni) \<Rightarrow>
          (let rq = \<lparr>rq_url = url, rq_host = host, rq_sni = sni, rq_body = body\<rparr>;
               t2 = t1\<lparr>t_sent := t_sent t1 @ [rq]\<rparr>
           in case (env_send env (length (t_sent t1)) rq, bs) of
                (Failed exc txt, b # bs') \<Rightarrow> send_loop env body bs' (n + 1) (note_retry t2)
              | (Failed exc txt, []) \<Rightarrow> (Inl (unreachable_after t2 (n + 1) exc txt),
                  on_stats (\<lambda>s. s\<lparr>s_failures := s_failures s + 1, s_last_error := Some exc\<rparr>) t2)
              | (Answered st raw secs, b # bs') \<Rightarrow>
                  if 500 \<le> st then send_loop env body bs' (n + 1) (note_retry t2)
                  else (Inr (st, raw, fmul secs 1000, n + 1), t2)
              | (Answered st raw secs, []) \<Rightarrow> (Inr (st, raw, fmul secs 1000, n + 1), t2)))"

declare send_loop.simps [simp del]

definition first_row_width :: "pyval \<Rightarrow> nat option" where
  "first_row_width body = (case body of
      PDict d \<Rightarrow> map_option (\<lambda>k. case dget d k of Some (PList (PList r # _)) \<Rightarrow> length r | _ \<Rightarrow> 0)
        (find (\<lambda>k. case dget d k of Some (PList (PList (_ # _) # _)) \<Rightarrow> True | _ \<Rightarrow> False) [''probabilities'', ''logits''])
    | _ \<Rightarrow> None)"

definition of_response :: "response_error \<Rightarrow> ml_error" where
  "of_response e = (case e of Bad m \<Rightarrow> SchemaErr m | BadArguments \<Rightarrow> Foreign ''ValueError'' ''n and n_classes must be >= 1'')"

definition decode_response :: "environment \<Rightarrow> string \<Rightarrow> nat \<Rightarrow> nat option \<Rightarrow> (response_error, validated) result" where
  "decode_response env raw n classes = (case classes of
      Some k \<Rightarrow> validate_response_bytes (env_exp env) (env_first_error env) (env_loads env) raw n k
    | None \<Rightarrow>
        if max_response_bytes < int (length raw) then Inl (response_size_error (int (length raw)))
        else case env_loads env raw of
          Inl e \<Rightarrow> Inl (Bad (Mismatch ''body'' (''response is not valid JSON: '' @ e)))
        | Inr body \<Rightarrow> parse_response (env_exp env) (env_first_error env) body n
            (case first_row_width body of Some w \<Rightarrow> w | None \<Rightarrow> 1) (Some (int (length raw))))"

definition arg_max :: "rat list \<Rightarrow> nat" where
  "arg_max r = length (takeWhile (\<lambda>x. x \<noteq> Max (set r)) r)"

text \<open>\<open>round(v, 4)\<close> of a negative value can be a negative zero.\<close>

definition round4_text :: "rat \<Rightarrow> string" where
  "round4_text v = (if v < 0 \<and> py_round_to 4 v = 0 then ''-0.0'' else py_repr (py_round_to 4 v))"

definition response_fingerprint :: "rat list list \<Rightarrow> string \<Rightarrow> string" where
  "response_fingerprint rows kind = sha256 (json_dumps_sorted (JObj
     [(''contract'', JStr contract_version), (''output_kind'', JStr kind),
      (''shape'', JArr [JInt (int (length rows)), JInt (if rows = [] then 0 else int (length (hd rows)))]),
      (''argmax'', JArr (map (\<lambda>r. JInt (int (arg_max r))) rows)),
      (''rows'', JArr (map (\<lambda>r. JArr (map (\<lambda>v. JFloat (round4_text v)) r)) rows))]))"

record predict_result =
  pr_rows :: "rat list list"
  pr_kind :: string
  pr_status :: int
  pr_latency :: rat

definition accept_answer :: "string \<Rightarrow> nat \<Rightarrow> int \<Rightarrow> int \<Rightarrow> rat \<Rightarrow> int \<Rightarrow> validated \<Rightarrow> transport \<Rightarrow> transport" where
  "accept_answer purpose n reqb respb latency status v t =
     (let t1 = (if t_classes t = None then t\<lparr>t_classes := Some (vp_classes v), t_stats := (t_stats t)\<lparr>s_notes := s_notes (t_stats t) @
            [''n_classes was not declared; '' @ dec (int (vp_classes v)) @ '' columns adopted from the first response and required from every later one'']\<rparr>\<rparr>
          else t);
          s = count_call purpose (int n) reqb respb latency status (t_stats t1)
      in t1\<lparr>t_stats :=
        (if s_fingerprint s = None then s\<lparr>s_fingerprint := Some (response_fingerprint (vp_rows v) (vp_kind v)), s_output_kind := Some (vp_kind v)\<rparr>
         else if s_output_kind s \<noteq> Some (vp_kind v) then s\<lparr>s_notes := s_notes s @ [''output_kind changed from '' @
           (case s_output_kind s of Some k \<Rightarrow> k | None \<Rightarrow> ''None'') @ '' to '' @ vp_kind v]\<rparr>
         else s)\<rparr>)"

definition budget_error :: "transport \<Rightarrow> int \<Rightarrow> ml_error option" where
  "budget_error t n = (let s = t_stats t; l = t_limits t in
     if l_max_rows l < s_rows s + n then Some (BudgetExceeded (''query budget exhausted: '' @ dec (s_rows s) @ '' rows served, '' @ dec n @
       '' more would exceed max_rows='' @ dec (l_max_rows l) @ '' ('' @ dec (s_requests s) @ '' requests so far)''))
     else if l_max_requests l < s_requests s + 1 then Some (BudgetExceeded (''query budget exhausted: '' @ dec (s_requests s) @
       '' requests served; max_requests='' @ dec (l_max_requests l)))
     else None)"

definition finish_answer :: "environment \<Rightarrow> string \<Rightarrow> nat \<Rightarrow> string \<Rightarrow> int \<times> string \<times> rat \<times> int \<Rightarrow> transport
    \<Rightarrow> (ml_error, predict_result) result \<times> transport" where
  "finish_answer env purpose n body ans t = (case ans of (st, raw, latency, attempts) \<Rightarrow>
     if st = 401 \<or> st = 403 then
       (Inl (AuthFailed (''endpoint '' @ s_url_host (t_stats t) @ '' answered '' @ dec st @ '' to the credential'')), note_status st t)
     else if 500 \<le> st then
       (Inl (Unreachable (''endpoint '' @ s_url_host (t_stats t) @ '' answered '' @ dec st @ '' on '' @ dec attempts @ '' attempts'')), note_status st t)
     else if st \<noteq> 200 then
       (schema_error ''status'' (''endpoint answered '' @ dec st @ '' ('' @
          (if 300 \<le> st \<and> st < 400 then ''redirect refused'' else ''contract requires 200'') @ '')''), note_status st t)
     else case decode_response env raw n (t_classes t) of
       Inl (Bad m) \<Rightarrow> (Inl (SchemaErr m), on_stats (\<lambda>s. s\<lparr>s_failures := s_failures s + 1, s_status_last := Some st\<rparr>) t)
     | Inl BadArguments \<Rightarrow> (Inl (of_response BadArguments), t)
     | Inr v \<Rightarrow> (Inr \<lparr>pr_rows = vp_rows v, pr_kind = vp_kind v, pr_status = st, pr_latency = latency\<rparr>,
         accept_answer purpose n (int (length body)) (int (length raw)) latency st v t))"

definition predict :: "environment \<Rightarrow> string \<Rightarrow> pyval list \<Rightarrow> transport \<Rightarrow> (ml_error, predict_result) result \<times> transport" where
  "predict env purpose inputs t =
     (let n = length inputs in
      if t_closed t then (Inl (Unreachable ''endpoint transport is closed''), t)
      else if inputs = [] then (schema_error ''inputs'' ''a predict request needs a non-empty list of rows'', t)
      else if l_batch_rows (t_limits t) < int n then
        (schema_error ''inputs'' (''request batch of '' @ dec (int n) @ '' rows exceeds batch_rows='' @ dec (l_batch_rows (t_limits t))), t)
      else case encode_body env t inputs of
        Inl e \<Rightarrow> (Inl e, t)
      | Inr body \<Rightarrow> (case budget_error t (int n) of
          Some e \<Rightarrow> (Inl e, note_failure t)
        | None \<Rightarrow> (case send_loop env body retry_backoff 0 t of
            (Inl e, t1) \<Rightarrow> (Inl e, t1)
          | (Inr ans, t1) \<Rightarrow> finish_answer env purpose n body ans t1)))"

subsection \<open>The broker and its client\<close>

definition opt_str :: "string option \<Rightarrow> pyval" where
  "opt_str v = (case v of None \<Rightarrow> PNone | Some s \<Rightarrow> PStr s)"

definition fingerprint_label :: string where
  "fingerprint_label = ''remote model identity: sha256 of the first response (shape, class ordering, probabilities rounded to 4 places); not a weights digest, and a different value on a later job means the remote model may have changed''"

text \<open>The times of start and stop are left out.\<close>

definition stats_dict :: "stats \<Rightarrow> (string, pyval) dict" where
  "stats_dict s = [(''url_host'', PStr (s_url_host s)), (''scheme'', PStr (s_scheme s)), (''contract'', PStr contract_version),
     (''tls_mode'', PStr (s_tls_mode s)), (''plaintext_loopback'', PBool (s_plaintext_loopback s)),
     (''proxy_env_honoured'', PBool (s_proxy s)), (''resolved_addresses'', PList (map PStr (s_resolved s))),
     (''pinned_address'', opt_str (s_pinned s)), (''limits'', PDict (s_limits s)), (''requests'', PInt (s_requests s)),
     (''rows'', PInt (s_rows s)), (''request_bytes'', PInt (s_request_bytes s)), (''response_bytes'', PInt (s_response_bytes s)),
     (''retries'', PInt (s_retries s)), (''failures'', PInt (s_failures s)),
     (''rate_limit_wait_s'', PFlt (py_round_to 6 (s_wait s))),
     (''latency_ms_mean'', if s_requests s = 0 then PNone else PFlt (fdiv (s_latency_total s) (of_int (s_requests s)))),
     (''http_status_last'', (case s_status_last s of None \<Rightarrow> PNone | Some n \<Rightarrow> PInt n)),
     (''by_purpose'', PDict (map (\<lambda>(k, (q, r)). (k, PDict [(''requests'', PInt q), (''rows'', PInt r)])) (s_by_purpose s))),
     (''output_kind'', opt_str (s_output_kind s)), (''fingerprint_sha256'', opt_str (s_fingerprint s)),
     (''fingerprint_label'', PStr fingerprint_label),
     (''last_error'', opt_str (s_last_error s)), (''egress_notes'', PList (map PStr (s_notes s)))]"

definition dispatch :: "environment \<Rightarrow> pyval \<Rightarrow> transport \<Rightarrow> (ml_error, (string, pyval) dict) result \<times> transport" where
  "dispatch env frame t = (case frame of
      PDict d \<Rightarrow>
        (if dget d ''op'' = Some (PStr ''predict'') then
           (case dget d ''inputs'' of
              Some (PList inputs) \<Rightarrow> (case predict env (nonempty_str (dget d ''purpose'') ''predict'') inputs t of
                  (Inl e, t') \<Rightarrow> (Inl e, t')
                | (Inr r, t') \<Rightarrow> (Inr [(''ok'', PBool True), (''probabilities'', PList (map (\<lambda>row. PList (map PFlt row)) (pr_rows r))),
                    (''output_kind'', PStr (pr_kind r)), (''http_status'', PInt (pr_status r)), (''latency_ms'', PFlt (pr_latency r))], t'))
            | _ \<Rightarrow> (schema_error ''frame'' ''predict frame needs an 'inputs' list'', t))
         else if dget d ''op'' = Some (PStr ''stats'') then (Inr [(''ok'', PBool True), (''stats'', PDict (stats_dict (t_stats t)))], t)
         else if dget d ''op'' = Some (PStr ''ping'') then (Inr [(''ok'', PBool True)], t)
         else (schema_error ''frame'' (''unknown broker op '' @ repr_val (case dget d ''op'' of Some v \<Rightarrow> v | None \<Rightarrow> PNone)), t))
    | _ \<Rightarrow> (schema_error ''frame'' ''socket frame is not an object'', t))"

text \<open>The handler: every failure travels typed.\<close>

definition serve :: "environment \<Rightarrow> pyval \<Rightarrow> transport \<Rightarrow> pyval \<times> transport" where
  "serve env frame t = (case dispatch env frame t of
      (Inl e, t') \<Rightarrow> (PDict (error_frame e), t') | (Inr d, t') \<Rightarrow> (PDict d, t'))"

definition frame_max_bytes :: int where "frame_max_bytes = 64 * 1024 * 1024"

definition frame_size :: "pyval \<Rightarrow> int" where "frame_size v = int (length (enc (to_json v)))"

text \<open>
  \<open>SocketPredictTransport._roundtrip\<close> over a socket that works: an oversized request is refused by
  the client, an oversized reply is dropped by the broker, which the client sees as a closed connection.
\<close>

definition roundtrip :: "environment \<Rightarrow> (string, pyval) dict \<Rightarrow> transport \<Rightarrow> (ml_error, (string, pyval) dict) result \<times> transport" where
  "roundtrip env frame t =
     (if frame_max_bytes < frame_size (PDict frame) then
        (schema_error ''frame'' (''socket frame of '' @ dec (frame_size (PDict frame)) @ '' bytes exceeds the '' @ dec frame_max_bytes @ '' cap''), t)
      else case serve env (PDict frame) t of (reply, t') \<Rightarrow>
        if frame_max_bytes < frame_size reply then (Inl (EndpointErr ''broker connection closed mid-frame''), t')
        else (case reply of
            PDict d \<Rightarrow> (if dget d ''ok'' = Some (PBool True) then Inr d else Inl (error_from_frame d))
          | _ \<Rightarrow> schema_error ''frame'' ''predict broker answered with a non-object frame'', t'))"

definition client_predict :: "environment \<Rightarrow> string \<Rightarrow> pyval list \<Rightarrow> transport \<Rightarrow> (ml_error, pyval list \<times> string) result \<times> transport" where
  "client_predict env purpose inputs t =
     (case roundtrip env [(''op'', PStr ''predict''), (''inputs'', PList inputs), (''purpose'', PStr purpose)] t of
        (Inl e, t') \<Rightarrow> (Inl e, t')
      | (Inr d, t') \<Rightarrow> (case dget d ''probabilities'' of
            Some (PList rows) \<Rightarrow> (Inr (rows, str_or (dget d ''output_kind'') ''probabilities''), t')
          | _ \<Rightarrow> (schema_error ''frame'' ''predict broker reply carries no probabilities'', t')))"

subsection \<open>Typed failures survive the socket\<close>

definition travels :: "ml_error \<Rightarrow> bool" where
  "travels e = (case e of
      EgressErr r \<Rightarrow> er_rule r \<noteq> [] \<and> er_reason r \<noteq> []
    | SchemaErr m \<Rightarrow> mm_field m \<noteq> [] \<and> mm_reason m \<noteq> []
    | Foreign _ _ \<Rightarrow> False
    | _ \<Rightarrow> error_text e \<noteq> [] \<and> length (error_text e) \<le> 4000)"

lemma str_or_nonempty: "s \<noteq> [] \<Longrightarrow> str_or (Some (PStr s)) d = s"
  by (simp add: str_or_def falsy_def)

lemma egress_class_name:
  "error_class_name (EgressErr r) \<noteq> []" "error_text (EgressErr r) \<noteq> []"
  by (cases "er_code r"; simp)+

text \<open>C29. A typed failure reaches the sandboxed child as itself: the frame the broker builds for an endpoint
  failure, read by the child, gives back the same class with the same message, and for an egress refusal or a
  contract mismatch the same rule, reason, host, address or field, even when the message is cut at 4000
  characters. Any other exception arrives as an endpoint error that names it, and no failure frame is ever
  read as a success.\<close>

theorem failure_frame_roundtrip:
  "(travels e \<longrightarrow> error_from_frame (error_frame e) = e) \<and>
   error_from_frame (error_frame (Foreign c t)) = EndpointErr (take 4000 (c @ '': '' @ t)) \<and>
   dget (error_frame e) ''ok'' = Some (PBool False)"
proof -
  have "travels e \<Longrightarrow> error_from_frame (error_frame e) = e"
  proof (cases e)
    case (EgressErr r)
    assume "travels e"
    then show ?thesis
      by (cases r; cases "er_code r"; cases "er_host r"; cases "er_address r")
        (simp_all add: EgressErr travels_def error_from_frame_def error_frame_def failure_detail_def refused_detail_def
          str_or_def falsy_def nonempty_str_def str_opt_def rebuild_error_def rebuild_egress_def)
  next
    case (SchemaErr m)
    assume "travels e"
    then show ?thesis
      by (cases m) (simp add: SchemaErr travels_def error_from_frame_def error_frame_def failure_detail_def str_or_def falsy_def
          nonempty_str_def rebuild_error_def)
  qed (simp_all add: travels_def error_from_frame_def error_frame_def failure_detail_def str_or_def falsy_def rebuild_error_def)
  moreover have "error_from_frame (error_frame (Foreign c t)) = EndpointErr (take 4000 (c @ '': '' @ t))"
    by (simp add: error_from_frame_def error_frame_def str_or_def falsy_def rebuild_error_def)
  moreover have "dget (error_frame e) ''ok'' = Some (PBool False)" by (cases e) (simp_all add: error_frame_def)
  ultimately show ?thesis by blast
qed

definition ex_refusal :: ml_error where
  "ex_refusal = EgressErr \<lparr>er_code = UrlInvalid, er_rule = ''port'', er_reason = ''bad'', er_host = Some ''h'', er_address = None\<rparr>"

lemma failure_frame_roundtrip_witness: "error_from_frame (error_frame ex_refusal) = ex_refusal"
proof -
  have "travels ex_refusal" by (simp add: travels_def ex_refusal_def)
  then show ?thesis using failure_frame_roundtrip [of ex_refusal] by blast
qed

subsection \<open>What a call does to the transport\<close>

definition core :: "transport \<Rightarrow> limits \<times> parsed_endpoint \<times> pins \<times> ipaddr option \<times> (string \<times> string) option \<times> bool" where
  "core t = (t_limits t, t_endpoint t, t_pins t, t_pinned t, t_auth t, t_closed t)"

definition tally :: "transport \<Rightarrow> int \<times> int \<times> (string, int \<times> int) dict" where
  "tally t = (s_requests (t_stats t), s_rows (t_stats t), s_by_purpose (t_stats t))"

lemma core_simps [simp]:
  "core (take_token env t) = core t" "core (note_retry t) = core t" "core (note_failure t) = core t" "core (note_status st t) = core t"
  "core (on_stats f t) = core t" "core (t\<lparr>t_sent := q\<rparr>) = core t"
  by (simp_all add: core_def take_token_def note_retry_def note_failure_def note_status_def on_stats_def split: option.splits prod.splits)

lemma tally_simps [simp]:
  "tally (take_token env t) = tally t" "tally (note_retry t) = tally t" "tally (note_failure t) = tally t" "tally (note_status st t) = tally t"
  "tally (t\<lparr>t_sent := q\<rparr>) = tally t"
  by (simp_all add: tally_def take_token_def note_retry_def note_failure_def note_status_def on_stats_def split: option.splits prod.splits)

lemma sent_simps [simp]:
  "t_sent (take_token env t) = t_sent t" "t_sent (note_retry t) = t_sent t" "t_sent (note_failure t) = t_sent t"
  "t_sent (note_status st t) = t_sent t" "t_sent (on_stats f t) = t_sent t"
  by (simp_all add: take_token_def note_retry_def note_failure_def note_status_def on_stats_def split: option.splits prod.splits)

definition target_of :: "transport \<Rightarrow> http_request \<Rightarrow> bool" where
  "target_of t rq \<longleftrightarrow> request_target t = Inr (rq_url rq, rq_host rq, rq_sni rq)"

lemma request_target_core: "core t = core u \<Longrightarrow> request_target t = request_target u"
proof -
  assume "core t = core u"
  then have e: "t_endpoint t = t_endpoint u" "t_pins t = t_pins u" "t_pinned t = t_pinned u" by (simp_all add: core_def)
  show ?thesis unfolding request_target_def e ..
qed

lemma target_of_core: "core t = core u \<Longrightarrow> target_of t = target_of u"
proof -
  assume "core t = core u"
  from request_target_core [OF this] show ?thesis by (simp add: fun_eq_iff target_of_def)
qed

definition sends :: "transport \<Rightarrow> transport \<Rightarrow> nat \<Rightarrow> bool" where
  "sends t t' k \<longleftrightarrow> core t' = core t \<and> (\<exists>new. t_sent t' = t_sent t @ new \<and> length new \<le> k \<and> list_all (target_of t) new)"

lemma sends_refl: "core t' = core t \<Longrightarrow> t_sent t' = t_sent t \<Longrightarrow> sends t t' k"
  by (simp add: sends_def)

lemma sends_trans: "sends t u j \<Longrightarrow> sends u v k \<Longrightarrow> sends t v (j + k)"
proof -
  assume a: "sends t u j" "sends u v k"
  then obtain xs ys where x: "t_sent u = t_sent t @ xs" "length xs \<le> j" "list_all (target_of t) xs"
    "t_sent v = t_sent u @ ys" "length ys \<le> k" "list_all (target_of u) ys" and c: "core u = core t" "core v = core u"
    unfolding sends_def by blast
  have "t_sent v = t_sent t @ (xs @ ys) \<and> length (xs @ ys) \<le> j + k \<and> list_all (target_of t) (xs @ ys)"
    using x target_of_core [OF c(1)] by simp
  then show ?thesis using c unfolding sends_def by metis
qed

lemma push_effect:
  fixes body :: string
  assumes "request_target (take_token env t) = Inr (url, host, sni)"
  defines "t2 \<equiv> (take_token env t)\<lparr>t_sent := t_sent (take_token env t) @ [\<lparr>rq_url = url, rq_host = host, rq_sni = sni, rq_body = body\<rparr>]\<rparr>"
  shows "sends t t2 1" "tally t2 = tally t"
  using assms(1) request_target_core [of "take_token env t" t] by (simp_all add: t2_def sends_def target_of_def)

lemma sends_on_stats: "sends t u k \<Longrightarrow> sends t (on_stats f u) k"
  by (simp add: sends_def)

lemma sends_le: "sends t u j \<Longrightarrow> j \<le> k \<Longrightarrow> sends t u k"
  by (force simp: sends_def)

lemma send_loop_effect:
  "send_loop env body bs n t = (r, t') \<Longrightarrow> sends t t' (Suc (length bs)) \<and> tally t' = tally t"
proof (induction bs arbitrary: n t)
  case Nil
  show ?case
  proof (cases "request_target (take_token env t)")
    case (Inl e)
    then show ?thesis using Nil by (subst (asm) send_loop.simps) (auto intro: sends_refl)
  next
    case (Inr x)
    obtain url host sni where x: "x = (url, host, sni)" by (cases x)
    note p = push_effect [OF Inr [unfolded x], of body]
    show ?thesis using Nil p sends_on_stats
      by (subst (asm) send_loop.simps) (auto simp: Inr x Let_def tally_def on_stats_def split: http_answer.splits)
  qed
next
  case (Cons b bs)
  show ?case
  proof (cases "request_target (take_token env t)")
    case (Inl e)
    then show ?thesis using Cons.prems by (subst (asm) send_loop.simps) (auto intro: sends_refl)
  next
    case (Inr x)
    obtain url host sni where x: "x = (url, host, sni)" by (cases x)
    let ?t2 = "(take_token env t)\<lparr>t_sent := t_sent (take_token env t) @ [\<lparr>rq_url = url, rq_host = host, rq_sni = sni, rq_body = body\<rparr>]\<rparr>"
    note p = push_effect [OF Inr [unfolded x], of body]
    have "(\<exists>m. send_loop env body bs m (note_retry ?t2) = (r, t')) \<or> t' = ?t2"
      using Cons.prems by (subst (asm) send_loop.simps) (auto simp: Inr x Let_def split: http_answer.splits if_splits)
    then show ?thesis
    proof
      assume "\<exists>m. send_loop env body bs m (note_retry ?t2) = (r, t')"
      then have "sends (note_retry ?t2) t' (Suc (length bs)) \<and> tally t' = tally (note_retry ?t2)" using Cons.IH by blast
      moreover have "sends t (note_retry ?t2) 1" using p(1) sends_on_stats unfolding note_retry_def by blast
      ultimately show ?thesis using p(2) sends_trans [of t "note_retry ?t2" 1 t' "Suc (length bs)"] by simp
    next
      assume "t' = ?t2"
      then show ?thesis using p sends_le [OF p(1)] by simp
    qed
  qed
qed

definition bump :: "string \<Rightarrow> int \<Rightarrow> int \<times> int \<times> (string, int \<times> int) dict \<Rightarrow> int \<times> int \<times> (string, int \<times> int) dict" where
  "bump purpose n y = (case y of (q, r, d) \<Rightarrow>
     (q + 1, r + n, dset purpose (fst (dget_or (0, 0) d purpose) + 1, snd (dget_or (0, 0) d purpose) + n) d))"

lemma accept_answer_effect:
  "core (accept_answer purpose n a b c st v t) = core t" "t_sent (accept_answer purpose n a b c st v t) = t_sent t"
  "tally (accept_answer purpose n a b c st v t) = bump purpose (int n) (tally t)"
  by (simp_all add: accept_answer_def core_def tally_def bump_def count_call_def Let_def split: prod.splits)

lemma finish_answer_effect:
  assumes "finish_answer env purpose n body ans t = (r, t')"
  shows "core t' = core t" "t_sent t' = t_sent t" "tally t' = (if is_ok r then bump purpose (int n) (tally t) else tally t)"
proof -
  obtain st raw latency k where ans: "ans = (st, raw, latency, k)" by (cases ans)
  have "core t' = core t \<and> t_sent t' = t_sent t \<and> tally t' = (if is_ok r then bump purpose (int n) (tally t) else tally t)"
  proof (cases "st = 200")
    case True
    then show ?thesis using assms accept_answer_effect
      by (auto simp: finish_answer_def ans on_stats_def tally_def core_def of_response_def split: sum.splits response_error.splits)
  next
    case False
    then show ?thesis using assms
      by (auto simp: finish_answer_def ans schema_error_def split: if_splits)
  qed
  then show "core t' = core t" "t_sent t' = t_sent t" "tally t' = (if is_ok r then bump purpose (int n) (tally t) else tally t)" by blast+
qed

lemma predict_effect:
  assumes "predict env purpose inputs t = (r, t')"
  shows "sends t t' 3" "tally t' = (if is_ok r then bump purpose (int (length inputs)) (tally t) else tally t)"
    "is_ok r \<Longrightarrow> budget_error t (int (length inputs)) = None"
proof -
  have refl: "sends t t 3" "sends t (note_failure t) 3" by (simp_all add: sends_refl)
  have "sends t t' 3 \<and> tally t' = (if is_ok r then bump purpose (int (length inputs)) (tally t) else tally t) \<and>
      (is_ok r \<longrightarrow> budget_error t (int (length inputs)) = None)"
  proof (cases "\<exists>body. \<not> t_closed t \<and> inputs \<noteq> [] \<and> \<not> l_batch_rows (t_limits t) < int (length inputs) \<and>
      encode_body env t inputs = Inr body \<and> budget_error t (int (length inputs)) = None")
    case False
    then show ?thesis using assms refl
      by (auto simp: predict_def schema_error_def Let_def split: if_splits sum.splits option.splits)
  next
    case True
    then obtain body where b: "\<not> t_closed t" "inputs \<noteq> []" "\<not> l_batch_rows (t_limits t) < int (length inputs)"
      "encode_body env t inputs = Inr body" "budget_error t (int (length inputs)) = None" by blast
    obtain a t1 where a: "send_loop env body retry_backoff 0 t = (a, t1)" by (cases "send_loop env body retry_backoff 0 t")
    have s: "sends t t1 3" "tally t1 = tally t" using send_loop_effect [OF a] by (simp_all add: retry_backoff_def eval_nat_numeral)
    show ?thesis
    proof (cases a)
      case (Inl e)
      then show ?thesis using assms a b s by (auto simp: predict_def Let_def)
    next
      case (Inr ans)
      then have f: "finish_answer env purpose (length inputs) body ans t1 = (r, t')" using assms a b by (simp add: predict_def Let_def)
      have "sends t t' 3" using s(1) finish_answer_effect(1,2) [OF f] by (simp add: sends_def)
      then show ?thesis using finish_answer_effect(3) [OF f] s(2) b(5) by simp
    qed
  qed
  then show "sends t t' 3" "tally t' = (if is_ok r then bump purpose (int (length inputs)) (tally t) else tally t)"
    "is_ok r \<Longrightarrow> budget_error t (int (length inputs)) = None" by blast+
qed

text \<open>The calls of a job.\<close>

definition run_calls :: "environment \<Rightarrow> (string \<times> pyval list) list \<Rightarrow> transport \<Rightarrow> transport" where
  "run_calls env calls t = foldl (\<lambda>t (purpose, inputs). snd (predict env purpose inputs t)) t calls"

lemma run_calls_simps [simp]:
  "run_calls env [] t = t" "run_calls env (calls @ [(purpose, inputs)]) t = snd (predict env purpose inputs (run_calls env calls t))"
  by (simp_all add: run_calls_def)

lemma run_calls_sends: "sends t (run_calls env calls t) (3 * length calls)"
proof (induction calls rule: rev_induct)
  case (snoc c calls)
  obtain p xs where c: "c = (p, xs)" by (cases c)
  obtain r t' where r: "predict env p xs (run_calls env calls t) = (r, t')" by fastforce
  show ?case using sends_trans [OF snoc predict_effect(1) [OF r]] by (simp add: c r add.commute)
qed (simp add: sends_refl)

subsection \<open>The query budget\<close>

definition dict_total :: "('v \<Rightarrow> int) \<Rightarrow> ('k, 'v) dict \<Rightarrow> int" where
  "dict_total f d = sum_list (map (\<lambda>kv. f (snd kv)) d)"

lemma dict_total_dset: "dict_total f (dset k v d) = dict_total f d + f v - (case dget d k of None \<Rightarrow> 0 | Some w \<Rightarrow> f w)"
  by (induction d) (auto simp: dict_total_def split: option.splits)

definition tally_ok :: "limits \<Rightarrow> int \<times> int \<times> (string, int \<times> int) dict \<Rightarrow> bool" where
  "tally_ok l y = (case y of (q, r, d) \<Rightarrow> 0 \<le> q \<and> q \<le> max 0 (l_max_requests l) \<and> 0 \<le> r \<and> r \<le> max 0 (l_max_rows l) \<and>
     dict_total fst d = q \<and> dict_total snd d = r)"

lemma bump_ok:
  assumes "tally_ok (t_limits t) (tally t)" "budget_error t n = None" "0 \<le> n"
  shows "tally_ok (t_limits t) (bump purpose n (tally t))"
  using assms
  by (auto simp: dict_total_dset tally_ok_def tally_def bump_def budget_error_def dget_or_def Let_def split: if_splits option.splits)

lemma run_calls_tally:
  assumes "tally_ok (t_limits t) (tally t)"
  shows "tally_ok (t_limits t) (tally (run_calls env calls t))"
proof (induction calls rule: rev_induct)
  case (snoc c calls)
  obtain p xs where c: "c = (p, xs)" by (cases c)
  let ?u = "run_calls env calls t"
  obtain r t' where r: "predict env p xs ?u = (r, t')" by fastforce
  have l: "t_limits ?u = t_limits t" using run_calls_sends [of t env calls] by (simp add: sends_def core_def)
  have "tally_ok (t_limits ?u) (tally t')"
    using predict_effect(2,3) [OF r] bump_ok [of ?u "int (length xs)" p] snoc unfolding l by (cases "is_ok r") auto
  then show ?case by (simp add: c r l)
qed (use assms in simp)

lemma open_transport_parts:
  assumes "open_transport env allow url auth l classes modality shape live tls trust = Inr t"
  obtains p pin addrs ps where "egress_check env allow url live = Inr (p, pin, addrs, ps)" "t_limits t = l" "t_endpoint t = p"
    "t_pins t = ps" "t_pinned t = pin" "t_sent t = []" "tally t = (0, 0, [])"
  using assms by (auto simp: open_transport_def tally_def initial_stats_def split: option.splits)

text \<open>C25. The query budget of an endpoint job: over any calls, whatever the endpoint answers, the requests and
  rows that were served stay within the two caps, the tally per purpose adds up to the totals, and the number
  of requests that leave the worker is at most three per call.\<close>

theorem query_budget_holds:
  fixes calls :: "(string \<times> pyval list) list"
  assumes "open_transport env allow url auth l classes modality shape live tls trust = Inr t"
  defines "u \<equiv> run_calls env calls t"
  shows "s_requests (t_stats u) \<le> max 0 (l_max_requests l) \<and> s_rows (t_stats u) \<le> max 0 (l_max_rows l) \<and>
    sum_list (map (\<lambda>(_, q, r). q) (s_by_purpose (t_stats u))) = s_requests (t_stats u) \<and>
    sum_list (map (\<lambda>(_, q, r). r) (s_by_purpose (t_stats u))) = s_rows (t_stats u) \<and>
    length (t_sent u) \<le> 3 * length calls"
proof -
  obtain p pin addrs ps where t: "t_limits t = l" "t_sent t = []" "tally t = (0, 0, [])" using open_transport_parts [OF assms(1)] .
  have "tally_ok (t_limits t) (tally t)" by (simp add: t tally_ok_def dict_total_def)
  then have "tally_ok l (tally u)" unfolding u_def using run_calls_tally t(1) by metis
  moreover have "length (t_sent u) \<le> 3 * length calls" using run_calls_sends [of t env calls] t(2) by (auto simp: u_def sends_def)
  moreover have "dict_total fst d = sum_list (map (\<lambda>(_, q, r). q) d)" "dict_total snd d = sum_list (map (\<lambda>(_, q, r). r) d)"
    for d :: "(string, int \<times> int) dict"
    by (induction d) (auto simp: dict_total_def)
  ultimately show ?thesis by (simp add: tally_ok_def tally_def)
qed

text \<open>An endpoint that is down, reached over the allow list.\<close>

definition ex_env :: environment where
  "ex_env = \<lparr>env_resolve = ex_resolver, env_exp = ex_exp, env_first_error = (\<lambda>_. ([], [])), env_request_error = (\<lambda>_. []),
     env_loads = (\<lambda>_. Inl []), env_url_error = (\<lambda>_. []), env_clock = of_nat, env_send = (\<lambda>_ _. Answered 503 [] 0)\<rparr>"

definition ex_opened :: "(ml_error, transport) result" where
  "ex_opened = open_transport ex_env [''api.example.org''] ''https://api.example.org/predict'' None (default_limits\<lparr>l_max_requests := 1\<rparr>)
     (Some 2) (Some ''tabular'') None True ''truststore'' None"

definition ex_transport :: transport where
  "ex_transport = (case ex_opened of Inr t \<Rightarrow> t | Inl _ \<Rightarrow> undefined)"

lemma ex_opened: "ex_opened = Inr ex_transport"
proof -
  have "is_ok ex_opened" by code_simp
  then obtain t where t: "ex_opened = Inr t" unfolding is_ok_iff by blast
  show ?thesis unfolding ex_transport_def t by (rule arg_cong [where f = Inr]) (rule sum.case(2) [symmetric])
qed

lemma query_budget_holds_witness: "s_requests (t_stats (run_calls ex_env [(''attack'', [PList [PFlt 1]])] ex_transport)) \<le> 1"
  using query_budget_holds [OF ex_opened [unfolded ex_opened_def], of "[(''attack'', [PList [PFlt 1]])]"] by (simp add: default_limits_def)

text \<open>
  The cap counts the requests that were answered with rows: requests that fail are sent without being
  counted, so a job whose endpoint keeps failing sends more than \<open>max_requests\<close> requests.
\<close>

lemma failed_requests_uncounted:
  "(case ex_opened of Inr t \<Rightarrow> (let u = run_calls ex_env (replicate 3 (''attack'', [PList [PFlt 1]])) t in
      l_max_requests (t_limits u) = 1 \<and> s_requests (t_stats u) = 0 \<and> length (t_sent u) = 9) | Inl _ \<Rightarrow> False)"
  by code_simp

text \<open>The timeout of the environment is not capped.\<close>

lemma timeout_not_capped: "l_timeout (from_env ''image'' [(''REDSIM_ML_ENDPOINT_TIMEOUT_S'', ''600'')]) = Fin 600"
  by code_simp

subsection \<open>Where the requests go\<close>

text \<open>The host as the request check and the allow-list match see it: each normalises it.\<close>

definition checked_name :: "transport \<Rightarrow> string" where
  "checked_name t = normalise_host (normalise_host (pe_host (t_endpoint t)))"

definition goes_to :: "transport \<Rightarrow> ipaddr \<Rightarrow> http_request \<Rightarrow> bool" where
  "goes_to t a rq \<longleftrightarrow> rq_url rq = connect_url (t_endpoint t) a \<and> rq_host rq = Some (url_host (t_endpoint t)) \<and>
     rq_sni rq = (if pe_scheme (t_endpoint t) = ''https'' \<and> \<not> pe_literal (t_endpoint t) then Some (pe_host (t_endpoint t)) else None)"

lemma target_of_goes_to: "t_pinned t = Some a \<Longrightarrow> target_of t rq \<Longrightarrow> goes_to t a rq"
  by (auto simp: target_of_def request_target_def goes_to_def split: sum.splits egress_error.splits)

lemma egress_check_pin:
  assumes "egress_check env allow url True = Inr (p, pin, addrs, ps)"
  obtains a where "pin = Some a" "admitted_host allow (normalise_host (normalise_host (pe_host p)))"
    "reachable_address allow (normalise_host (normalise_host (pe_host p))) a"
proof -
  obtain r s where r: "check_request_host (env_resolve env) allow (pe_host p) (pe_port p) False (Some []) = (Inr r, s)"
    and pin: "pin = Some (rh_pinned r)"
    using assms by (auto simp: egress_check_def check_endpoint_def split: sum.splits prod.splits)
  have ok: "pins_ok allow []" by (simp add: pins_ok_def)
  obtain qs where "pins_ok allow qs" "dget qs (normalise_host (pe_host p)) = Some (rh_pinned r)"
    using check_request_host_Inr [OF r ok] .
  then show thesis using that pin by (simp add: pins_ok_def)
qed

text \<open>C8. A connected job talks to one address: after the egress check has opened a transport, every request
  of every later call is dialled at the URL with the pinned address in place of the host, with the original host
  in the \<open>Host\<close> header and, over TLS to a named host, as the server name; the pinned address is one the egress
  policy permits for that host (never multicast, reserved or unspecified) and the host is on the allow list.\<close>

theorem requests_go_to_the_pin:
  assumes "open_transport env allow url auth l classes modality shape True tls trust = Inr t"
  shows "\<exists>a. t_pinned t = Some a \<and> admitted_host allow (checked_name t) \<and> reachable_address allow (checked_name t) a \<and>
    classify_address a \<notin> {Multicast, Reserved, Unspecified} \<and> list_all (goes_to t a) (t_sent (run_calls env calls t))"
proof -
  obtain p pin addrs ps where t: "egress_check env allow url True = Inr (p, pin, addrs, ps)" "t_limits t = l" "t_endpoint t = p"
    "t_pins t = ps" "t_pinned t = pin" "t_sent t = []" "tally t = (0, 0, [])"
    using open_transport_parts [OF assms] .
  obtain a where a: "pin = Some a" "admitted_host allow (checked_name t)" "reachable_address allow (checked_name t) a"
    using egress_check_pin [OF t(1)] unfolding checked_name_def t(3) .
  have "list_all (target_of t) (t_sent (run_calls env calls t))" using run_calls_sends [of t env calls] t(6) by (auto simp: sends_def)
  then have "list_all (goes_to t a) (t_sent (run_calls env calls t))"
    using target_of_goes_to t(5) a(1) by (auto simp: list_all_iff)
  moreover have "classify_address a \<notin> {Multicast, Reserved, Unspecified}" using a(3) by (auto simp: reachable_address_def)
  ultimately show ?thesis using t(5) a by blast
qed

lemma requests_go_to_the_pin_witness:
  "\<exists>a. t_pinned ex_transport = Some a \<and> list_all (goes_to ex_transport a) (t_sent (run_calls ex_env [(''attack'', [PList [PFlt 1]])] ex_transport))"
  using requests_go_to_the_pin [OF ex_opened [unfolded ex_opened_def]] by blast

subsection \<open>The target in the child\<close>

record endpoint_client =
  ec_batch_rows :: nat
  ec_classes :: nat
  ec_queries :: "(string, int \<times> int) dict"

text \<open>\<open>np.asarray(rows)\<close>: the number of columns when the rows are lists of numbers of one length.\<close>

definition columns :: "pyval list \<Rightarrow> nat option" where
  "columns rows = (case rows of
      PList r # _ \<Rightarrow> if list_all (\<lambda>v. case v of PList vs \<Rightarrow> length vs = length r \<and> list_all is_number vs | _ \<Rightarrow> False) rows
        then Some (length r) else None
    | _ \<Rightarrow> None)"

definition count_query :: "string \<Rightarrow> int \<Rightarrow> (string, int \<times> int) dict \<Rightarrow> (string, int \<times> int) dict" where
  "count_query purpose n d = dset purpose (fst (dget_or (0, 0) d purpose) + 1, snd (dget_or (0, 0) d purpose) + n) d"

definition call_batch :: "environment \<Rightarrow> string \<Rightarrow> pyval list \<Rightarrow> endpoint_client \<times> transport
    \<Rightarrow> (ml_error, pyval list) result \<times> endpoint_client \<times> transport" where
  "call_batch env purpose batch ct = (case ct of (c, t) \<Rightarrow> (case client_predict env purpose batch t of
      (Inl e, t') \<Rightarrow> (Inl e, c, t')
    | (Inr (rows, kind), t') \<Rightarrow>
        let c' = c\<lparr>ec_queries := count_query purpose (int (length batch)) (ec_queries c)\<rparr> in
        (case columns rows of
           None \<Rightarrow> Inl (Foreign ''ValueError'' ''setting an array element with a sequence.'')
         | Some k \<Rightarrow>
             if length rows \<noteq> length batch then
               schema_error ''probabilities'' (''response shape ('' @ dec (int (length rows)) @ '', '' @ dec (int k) @ '') does not match '' @
                 dec (int (length batch)) @ '' requested rows'')
             else if k \<noteq> ec_classes c then
               schema_error ''probabilities'' (''response has '' @ dec (int k) @ '' columns; the target declares '' @ dec (int (ec_classes c)) @ '' classes'')
             else Inr rows, c', t')))"

fun chunks :: "nat \<Rightarrow> 'a list \<Rightarrow> 'a list list" where
  "chunks k [] = []"
| "chunks k (x # xs) = (x # take (k - 1) xs) # chunks k (drop (k - 1) xs)"

fun call_batches :: "environment \<Rightarrow> string \<Rightarrow> pyval list list \<Rightarrow> endpoint_client \<times> transport
    \<Rightarrow> (ml_error, pyval list) result \<times> endpoint_client \<times> transport" where
  "call_batches env purpose [] ct = (Inr [], ct)"
| "call_batches env purpose (b # bs) ct = (case call_batch env purpose b ct of
      (Inl e, ct') \<Rightarrow> (Inl e, ct')
    | (Inr rows, ct') \<Rightarrow> (case call_batches env purpose bs ct' of
        (Inl e, ct'') \<Rightarrow> (Inl e, ct'') | (Inr others, ct'') \<Rightarrow> (Inr (rows @ others), ct'')))"

definition predict_proba :: "environment \<Rightarrow> string \<Rightarrow> pyval list \<Rightarrow> endpoint_client \<times> transport
    \<Rightarrow> (ml_error, pyval list) result \<times> endpoint_client \<times> transport" where
  "predict_proba env purpose xs ct = call_batches env purpose (chunks (ec_batch_rows (fst ct)) xs) ct"

lemma concat_chunks: "0 < k \<Longrightarrow> concat (chunks k xs) = xs"
  by (induction k xs rule: chunks.induct) simp_all

lemma chunks_sizes: "0 < k \<Longrightarrow> list_all (\<lambda>b. b \<noteq> [] \<and> length b \<le> k) (chunks k xs)"
  by (induction k xs rule: chunks.induct) auto

lemma client_predict_ok:
  assumes "client_predict env purpose batch t = (Inr x, t')" "purpose \<noteq> []"
  shows "tally t' = bump purpose (int (length batch)) (tally t)"
proof -
  let ?frame = "[(''op'', PStr ''predict''), (''inputs'', PList batch), (''purpose'', PStr purpose)]"
  obtain d where d: "roundtrip env ?frame t = (Inr d, t')"
    using assms(1) by (auto simp: client_predict_def schema_error_def split: prod.splits sum.splits option.splits pyval.splits)
  obtain reply where s: "serve env (PDict ?frame) t = (reply, t')" "reply = PDict d" "dget d ''ok'' = Some (PBool True)"
    using d by (auto simp: roundtrip_def schema_error_def split: if_splits prod.splits pyval.splits)
  obtain r where r: "predict env purpose batch t = (r, t')" "is_ok r"
  proof (cases "predict env purpose batch t")
    case (Pair r u)
    have "dget (error_frame e) ''ok'' = Some (PBool False)" for e by (cases e) (simp_all add: error_frame_def)
    then show thesis using that s assms(2) Pair
      by (cases r) (auto simp: serve_def dispatch_def nonempty_str_def)
  qed
  show ?thesis using predict_effect(2) [OF r(1)] r(2) by simp
qed

lemma call_batch_ok:
  assumes "call_batch env purpose b (c, t) = (Inr rows, c', t')" "purpose \<noteq> []"
  shows "length rows = length b" "columns rows = Some (ec_classes c)" "ec_classes c' = ec_classes c"
    "ec_queries c' = count_query purpose (int (length b)) (ec_queries c)" "tally t' = bump purpose (int (length b)) (tally t)"
proof -
  obtain x u where x: "client_predict env purpose b t = (Inr x, u)"
    using assms(1) by (auto simp: call_batch_def split: prod.splits sum.splits)
  then show "tally t' = bump purpose (int (length b)) (tally t)"
    using client_predict_ok [OF _ assms(2)] assms(1) by (auto simp: call_batch_def Let_def split: prod.splits)
  show "length rows = length b" "columns rows = Some (ec_classes c)" "ec_classes c' = ec_classes c"
    "ec_queries c' = count_query purpose (int (length b)) (ec_queries c)"
    using assms(1) x by (auto simp: call_batch_def Let_def schema_error_def split: prod.splits option.splits if_splits)
qed

lemma columns_rows:
  "columns rows = Some k \<Longrightarrow> list_all (\<lambda>v. case v of PList vs \<Rightarrow> length vs = k | _ \<Rightarrow> False) rows"
  by (auto simp: columns_def list_all_iff split: list.splits pyval.splits if_splits)

definition asked :: "string \<Rightarrow> (string, int \<times> int) dict \<Rightarrow> int \<times> int" where
  "asked purpose d = dget_or (0, 0) d purpose"

lemma asked_count: "asked purpose (count_query purpose n d) = (fst (asked purpose d) + 1, snd (asked purpose d) + n)"
  by (simp add: asked_def count_query_def dget_or_def)

lemma bump_asked:
  assumes "tally t' = bump purpose n (tally t)"
  shows "s_rows (t_stats t') = s_rows (t_stats t) + n"
    "asked purpose (s_by_purpose (t_stats t')) = (fst (asked purpose (s_by_purpose (t_stats t))) + 1, snd (asked purpose (s_by_purpose (t_stats t))) + n)"
  using assms by (simp_all add: tally_def bump_def asked_def dget_or_def)

lemma call_batches_ok:
  assumes "call_batches env purpose bs (c, t) = (Inr rows, c', t')" "purpose \<noteq> []"
  shows "length rows = length (concat bs) \<and> list_all (\<lambda>v. case v of PList vs \<Rightarrow> length vs = ec_classes c | _ \<Rightarrow> False) rows \<and>
    s_rows (t_stats t') = s_rows (t_stats t) + int (length (concat bs)) \<and>
    asked purpose (ec_queries c') = (fst (asked purpose (ec_queries c)) + int (length bs), snd (asked purpose (ec_queries c)) + int (length (concat bs))) \<and>
    asked purpose (s_by_purpose (t_stats t')) =
      (fst (asked purpose (s_by_purpose (t_stats t))) + int (length bs), snd (asked purpose (s_by_purpose (t_stats t))) + int (length (concat bs)))"
  using assms(1)
proof (induction bs arbitrary: c t rows)
  case (Cons b bs)
  obtain r1 c1 t1 where b: "call_batch env purpose b (c, t) = (Inr r1, c1, t1)"
    using Cons.prems by (auto split: prod.splits sum.splits)
  obtain r2 where bs: "call_batches env purpose bs (c1, t1) = (Inr r2, c', t')" and rows: "rows = r1 @ r2"
    using Cons.prems b by (auto split: prod.splits sum.splits)
  note B = call_batch_ok [OF b assms(2)]
  note IH = Cons.IH [OF bs, unfolded B(3)]
  show ?case using B(1) IH columns_rows [OF B(2)] bump_asked [OF B(5)] asked_count [of purpose _ "ec_queries c"]
    by (simp add: rows B(3,4))
qed simp

text \<open>A prediction of the endpoint target is complete: when the batches of an array have all been answered
  there is one row per input row, each with one value per declared class, in requests that never exceed the
  batch size, and the count of the child and the tally of the broker for the purpose have both grown by the
  same number of requests and by the number of rows.\<close>

theorem predict_proba_complete:
  assumes "predict_proba env purpose xs (c, t) = (Inr rows, c', t')" "purpose \<noteq> []" "0 < ec_batch_rows c"
  shows "length rows = length xs \<and> list_all (\<lambda>v. case v of PList vs \<Rightarrow> length vs = ec_classes c | _ \<Rightarrow> False) rows \<and>
    list_all (\<lambda>b. b \<noteq> [] \<and> length b \<le> ec_batch_rows c) (chunks (ec_batch_rows c) xs) \<and>
    concat (chunks (ec_batch_rows c) xs) = xs \<and>
    s_rows (t_stats t') = s_rows (t_stats t) + int (length xs) \<and>
    snd (asked purpose (ec_queries c')) - snd (asked purpose (ec_queries c)) = int (length xs) \<and>
    fst (asked purpose (ec_queries c')) - fst (asked purpose (ec_queries c)) =
      fst (asked purpose (s_by_purpose (t_stats t'))) - fst (asked purpose (s_by_purpose (t_stats t)))"
  using call_batches_ok [of env purpose "chunks (ec_batch_rows c) xs" c t rows c' t'] assms
    concat_chunks [OF assms(3), of xs] chunks_sizes [OF assms(3), of xs]
  by (simp add: predict_proba_def)

text \<open>An endpoint that answers every request with one row of two equal probabilities.\<close>

definition ex_up :: environment where
  "ex_up = ex_env\<lparr>env_send := (\<lambda>_ _. Answered 200 ''ok'' 0),
     env_loads := (\<lambda>_. Inr (PDict [(''probabilities'', PList [PList [PFlt (1 / 2), PFlt (1 / 2)]])]))\<rparr>"

definition ex_client :: endpoint_client where
  "ex_client = \<lparr>ec_batch_rows = 1, ec_classes = 2, ec_queries = []\<rparr>"

definition ex_busy :: transport where
  "ex_busy = ex_transport\<lparr>t_stats := (t_stats ex_transport)\<lparr>s_fingerprint := Some [], s_output_kind := Some ''probabilities''\<rparr>\<rparr>"

definition ex_rows :: "(ml_error, pyval list) result \<times> endpoint_client \<times> transport" where
  "ex_rows = predict_proba ex_up ''attack'' [PList [PFlt 1]] (ex_client, ex_busy)"

lemma predict_proba_complete_witness: "s_rows (t_stats (snd (snd ex_rows))) = 1"
proof -
  have "is_ok (fst ex_rows)" by code_simp
  then obtain rows where "fst ex_rows = Inr rows" unfolding is_ok_iff by blast
  then have e: "predict_proba ex_up ''attack'' [PList [PFlt 1]] (ex_client, ex_busy) = (Inr rows, fst (snd ex_rows), snd (snd ex_rows))"
    unfolding ex_rows_def by (simp add: prod_eq_iff)
  have "s_rows (t_stats ex_busy) = 0" by code_simp
  then show ?thesis using predict_proba_complete [OF e] by (simp add: ex_client_def)
qed

end
