(* ===== verification/Sampling.thy ===== *)
theory Sampling
  imports Prelude "HOL-Library.Multiset"
begin

text \<open>
  Seeded, stratified evaluation slices (\<open>src/redsim/ml/datasets/sampling.py\<close>). The allocation
  loop hands every class that still has members an equal share of what remains and repeats; it
  is a partial function here, so that returning is a theorem. The random generator belongs to
  numpy and is a parameter: \<open>perm k m\<close> is the permutation of \<open>[0..<m]\<close> that the \<open>k\<close>-th call
  draws. The conversion of the rows to float32 is a parameter as well.
\<close>

section \<open>The slice\<close>

type_synonym rng = "nat \<Rightarrow> nat \<Rightarrow> nat list"

definition perm_ok :: "rng \<Rightarrow> bool" where
  "perm_ok perm = (\<forall>k m. distinct (perm k m) \<and> set (perm k m) = {..<m})"

definition per_class_counts :: "int list \<Rightarrow> string list \<Rightarrow> (string, nat) dict" where
  "per_class_counts labels names =
     fold (\<lambda>(i, name) d. dset name (length (filter (\<lambda>l. l = int i) labels)) d) (enumerate 0 names) []"

definition members :: "int list \<Rightarrow> int \<Rightarrow> nat list" where
  "members labels c = filter (\<lambda>i. labels ! i = c) [0..<length labels]"

definition classes_of :: "int list \<Rightarrow> int list" where
  "classes_of labels = sort (remdups labels)"

definition shuffled :: "rng \<Rightarrow> nat \<Rightarrow> 'a list \<Rightarrow> 'a list" where
  "shuffled perm k xs = map (\<lambda>i. xs ! i) (perm k (length xs))"

definition pools_of :: "rng \<Rightarrow> int list \<Rightarrow> (int, nat list) dict" where
  "pools_of perm labels = map (\<lambda>(j, c). (c, shuffled perm j (members labels c))) (enumerate 0 (classes_of labels))"

text \<open>One round: \<open>give_out\<close> walks over the active classes and collects the exhausted ones.\<close>

fun give_out :: "int \<Rightarrow> nat list \<Rightarrow> (int \<Rightarrow> int) \<Rightarrow> nat \<Rightarrow> int list \<Rightarrow> (int \<Rightarrow> int) \<times> int \<Rightarrow> (int \<Rightarrow> int) \<times> int \<times> int list" where
  "give_out base bonus cap pos [] (alloc, rem) = (alloc, rem, [])"
| "give_out base bonus cap pos (c # cs) (alloc, rem) =
     (let want = base + (if pos \<in> set bonus then 1 else 0);
          give = min want (cap c - alloc c);
          alloc' = alloc(c := alloc c + give)
      in case give_out base bonus cap (Suc pos) cs (alloc', rem - give) of
           (a, r, ex) \<Rightarrow> (a, r, if cap c \<le> alloc' c then c # ex else ex))"

partial_function (option) share_loop ::
  "rng \<Rightarrow> (int \<Rightarrow> int) \<Rightarrow> nat \<Rightarrow> int list \<Rightarrow> (int \<Rightarrow> int) \<Rightarrow> int \<Rightarrow> ((int \<Rightarrow> int) \<times> nat) option" where
  "share_loop perm cap k active alloc rem =
     (if rem \<le> 0 \<or> active = [] then Some (alloc, k)
      else let m = int (length active);
               bonus = take (nat (rem mod m)) (perm k (length active));
               r = give_out (rem div m) bonus cap 0 active (alloc, rem)
           in share_loop perm cap (Suc k) (filter (\<lambda>c. c \<notin> set (snd (snd r))) active) (fst r) (fst (snd r)))"

datatype sample_error = NotPositive | EmptySplit | RowsDisagree | BadIndex

definition stratified_indices :: "rng \<Rightarrow> int list \<Rightarrow> int \<Rightarrow> (sample_error, nat list) result option" where
  "stratified_indices perm labels n =
     (if n \<le> 0 then Some (Inl NotPositive)
      else if labels = [] then Some (Inl EmptySplit)
      else let pools = pools_of perm labels;
               pool = (\<lambda>c. dget_or [] pools c);
               cs = map fst pools
           in case share_loop perm (\<lambda>c. int (length (pool c))) (length pools) cs (\<lambda>_. 0)
                     (min n (int (length labels))) of
                None \<Rightarrow> None
              | Some (alloc, k) \<Rightarrow>
                  Some (Inr (shuffled perm k (concat (map (\<lambda>c. take (nat (alloc c)) (pool c)) cs)))))"

record 'r sample =
  sp_x :: "'r list"
  sp_y :: "int list"
  sp_indices :: "int list"
  sp_class_names :: "string list"

definition stratified_sample ::
  "rng \<Rightarrow> ('a \<Rightarrow> 'r) \<Rightarrow> 'a list \<Rightarrow> int list \<Rightarrow> int \<Rightarrow> string list \<Rightarrow> int list option \<Rightarrow> (sample_error, 'r sample) result option" where
  "stratified_sample perm conv x y n names source =
     (if length x \<noteq> length y then Some (Inl RowsDisagree)
      else map_option (\<lambda>res. rbind res (\<lambda>ix.
             case source of
               None \<Rightarrow> Inr \<lparr>sp_x = map (\<lambda>i. conv (x ! i)) ix, sp_y = map (\<lambda>i. y ! i) ix, sp_indices = map int ix, sp_class_names = names\<rparr>
             | Some src \<Rightarrow>
                 if list_all (\<lambda>i. i < length src) ix
                 then Inr \<lparr>sp_x = map (\<lambda>i. conv (x ! i)) ix, sp_y = map (\<lambda>i. y ! i) ix,
                           sp_indices = map (\<lambda>i. src ! i) ix, sp_class_names = names\<rparr>
                 else Inl BadIndex)) (stratified_indices perm y n))"

section \<open>One round of the loop\<close>

definition hits :: "nat list \<Rightarrow> nat \<Rightarrow> nat \<Rightarrow> int" where
  "hits bonus pos m = int (card {i \<in> set bonus. pos \<le> i \<and> i < pos + m})"

lemma hits_0 [simp]: "hits bonus pos 0 = 0"
proof -
  have "{i \<in> set bonus. pos \<le> i \<and> i < pos} = {}" by auto
  then show ?thesis by (simp add: hits_def)
qed

lemma hits_Suc: "hits bonus pos (Suc m) = (if pos \<in> set bonus then 1 else 0) + hits bonus (Suc pos) m"
proof -
  let ?R = "{i \<in> set bonus. Suc pos \<le> i \<and> i < Suc pos + m}"
  have "{i \<in> set bonus. pos \<le> i \<and> i < pos + Suc m} = (if pos \<in> set bonus then insert pos ?R else ?R)"
    by (auto simp: Suc_le_eq order_le_less)
  moreover have "pos \<notin> ?R" "finite ?R" by auto
  ultimately show ?thesis by (auto simp: hits_def)
qed

lemma hits_all:
  assumes "distinct bonus" "\<forall>i\<in>set bonus. i < m"
  shows "hits bonus 0 m = int (length bonus)"
proof -
  have "{i \<in> set bonus. 0 \<le> i \<and> i < 0 + m} = set bonus" using assms(2) by auto
  then show ?thesis using assms(1) by (simp add: hits_def distinct_card)
qed

definition given :: "(int \<Rightarrow> int) \<Rightarrow> (int \<Rightarrow> int) \<Rightarrow> int list \<Rightarrow> int" where
  "given alloc a cs = (\<Sum>c\<leftarrow>cs. a c - alloc c)"

lemma given_simps [simp]: "given alloc a [] = 0" "given alloc a (c # cs) = a c - alloc c + given alloc a cs"
  by (simp_all add: given_def)

lemma given_upd [simp]: "c \<notin> set cs \<Longrightarrow> given (alloc(c := v)) a cs = given alloc a cs"
  by (induction cs) auto

lemma give_out_spec:
  assumes "give_out base bonus cap pos cs (alloc, rem) = (a, r, ex)" "distinct cs" "0 \<le> base"
    "\<forall>c\<in>set cs. alloc c \<le> cap c"
  shows "(\<forall>c. c \<notin> set cs \<longrightarrow> a c = alloc c) \<and>
    (\<forall>c\<in>set cs. alloc c \<le> a c \<and> a c \<le> cap c \<and> min (cap c) (alloc c + base) \<le> a c) \<and>
    r = rem - given alloc a cs \<and> set ex = {c \<in> set cs. cap c \<le> a c} \<and>
    given alloc a cs \<le> base * int (length cs) + hits bonus pos (length cs) \<and>
    (ex = [] \<longrightarrow> given alloc a cs = base * int (length cs) + hits bonus pos (length cs))"
  using assms
proof (induction cs arbitrary: pos alloc rem a r ex)
  case Nil
  then show ?case by auto
next
  case (Cons c cs)
  let ?want = "base + (if pos \<in> set bonus then 1 else 0)"
  let ?give = "min ?want (cap c - alloc c)"
  let ?alloc = "alloc(c := alloc c + ?give)"
  obtain a' r' ex' where rest: "give_out base bonus cap (Suc pos) cs (?alloc, rem - ?give) = (a', r', ex')"
    by (metis prod_cases3)
  have res: "a = a'" "r = r'" "ex = (if cap c \<le> alloc c + ?give then c # ex' else ex')"
    using Cons.prems(1) rest by (simp_all add: Let_def)
  have "c \<notin> set cs" "distinct cs" using Cons.prems(2) by auto
  have pre: "\<forall>d\<in>set cs. ?alloc d \<le> cap d" using Cons.prems(4) \<open>c \<notin> set cs\<close> by auto
  note IH = Cons.IH [OF rest \<open>distinct cs\<close> Cons.prems(3) pre, unfolded given_upd [OF \<open>c \<notin> set cs\<close>]]
  have IHr: "r' = rem - ?give - given alloc a' cs" and IHx: "set ex' = {d \<in> set cs. cap d \<le> a' d}"
    and IHu: "given alloc a' cs \<le> base * int (length cs) + hits bonus (Suc pos) (length cs)"
    and IHe: "ex' = [] \<longrightarrow> given alloc a' cs = base * int (length cs) + hits bonus (Suc pos) (length cs)"
    using IH by blast+
  have ac: "a c = alloc c + ?give" using IH \<open>c \<notin> set cs\<close> res by auto
  have g0: "0 \<le> ?give" "alloc c + ?give \<le> cap c" "min (cap c) (alloc c + base) \<le> alloc c + ?give"
    using Cons.prems(3,4) by auto
  have fulls: "ex = [] \<Longrightarrow> ex' = [] \<and> \<not> cap c \<le> alloc c + ?give" unfolding res(3) by (simp split: if_split_asm del: min_less_iff_conj)
  have giv: "given alloc a (c # cs) = ?give + given alloc a' cs" using ac res(1) by simp
  have same: "\<forall>d\<in>set cs. ?alloc d = alloc d" using \<open>c \<notin> set cs\<close> by auto
  have "\<forall>d. d \<notin> set (c # cs) \<longrightarrow> a d = alloc d" using IH res by auto
  moreover have "\<forall>d\<in>set (c # cs). alloc d \<le> a d \<and> a d \<le> cap d \<and> min (cap d) (alloc d + base) \<le> a d"
  proof
    fix d assume d: "d \<in> set (c # cs)"
    have IHd: "d \<in> set cs \<Longrightarrow> ?alloc d \<le> a d \<and> a d \<le> cap d \<and> min (cap d) (?alloc d + base) \<le> a d"
      using IH res(1) by blast
    show "alloc d \<le> a d \<and> a d \<le> cap d \<and> min (cap d) (alloc d + base) \<le> a d"
    proof (cases "d = c")
      case True
      then show ?thesis using ac g0 by (intro conjI) simp_all
    next
      case False
      then show ?thesis using IHd d by simp
    qed
  qed
  moreover have "r = rem - given alloc a (c # cs)" using IHr res(2) giv by linarith
  moreover have "set ex = {d \<in> set (c # cs). cap d \<le> a d}"
  proof -
    have "set ex = (if cap c \<le> a c then insert c (set ex') else set ex')" unfolding res(3) ac by simp
    then show ?thesis unfolding IHx res(1) by auto
  qed
  moreover have "given alloc a (c # cs) \<le> base * int (length (c # cs)) + hits bonus pos (length (c # cs))"
    using IHu giv by (simp add: hits_Suc algebra_simps)
  moreover have "ex = [] \<longrightarrow> given alloc a (c # cs) = base * int (length (c # cs)) + hits bonus pos (length (c # cs))"
  proof
    assume "ex = []"
    then have "ex' = []" and full: "alloc c + ?give < cap c" using fulls by auto
    then have "?give = ?want" by linarith
    moreover have "given alloc a' cs = base * int (length cs) + hits bonus (Suc pos) (length cs)"
      using IHe \<open>ex' = []\<close> by blast
    moreover have "base * int (length (c # cs)) = base + base * int (length cs)" by (simp add: distrib_left)
    moreover have "hits bonus pos (length (c # cs)) = (if pos \<in> set bonus then 1 else 0) + hits bonus (Suc pos) (length cs)"
      by (simp add: hits_Suc)
    ultimately show "given alloc a (c # cs) = base * int (length (c # cs)) + hits bonus pos (length (c # cs))"
      using giv by linarith
  qed
  ultimately show ?case by blast
qed

section \<open>The loop returns and allocates everything\<close>

lemma given_split: "given alloc b cs = given alloc a cs + given a b cs"
  by (induction cs) auto

lemma given_same: "(\<And>c. c \<in> set cs \<Longrightarrow> a c = alloc c) \<Longrightarrow> given alloc a cs = 0"
  by (induction cs) auto

lemma given_filter: "(\<And>c. c \<in> set cs \<Longrightarrow> \<not> P c \<Longrightarrow> a c = alloc c) \<Longrightarrow> given alloc a (filter P cs) = given alloc a cs"
  by (induction cs) auto

lemma given_room: "given a cap cs = given a cap (filter (\<lambda>c. c \<notin> E) cs) + given a cap (filter (\<lambda>c. c \<in> E) cs)"
  by (induction cs) auto

lemma bonus_ok:
  assumes "perm_ok perm" "x < m"
  shows "distinct (take x (perm k m))" "\<forall>i\<in>set (take x (perm k m)). i < m" "length (take x (perm k m)) = x"
proof -
  have p: "distinct (perm k m)" "set (perm k m) = {..<m}" using assms(1) by (auto simp: perm_ok_def)
  then have "length (perm k m) = m" using distinct_card by fastforce
  then show "length (take x (perm k m)) = x" using assms(2) by simp
  show "distinct (take x (perm k m))" using p by simp
  show "\<forall>i\<in>set (take x (perm k m)). i < m" using p by (auto dest: in_set_takeD)
qed

lemma share_loop_spec:
  assumes "perm_ok perm" "distinct active" "\<forall>c\<in>set active. alloc c < cap c" "0 \<le> rem" "rem \<le> given alloc cap active"
  shows "\<exists>a k'. share_loop perm cap k active alloc rem = Some (a, k') \<and>
    (\<forall>c. c \<notin> set active \<longrightarrow> a c = alloc c) \<and> given alloc a active = rem \<and>
    (\<forall>c\<in>set active. alloc c \<le> a c \<and> a c \<le> cap c \<and> min (cap c) (alloc c + rem div int (length active)) \<le> a c)"
  using assms
proof (induction "length active" arbitrary: k active alloc rem rule: less_induct)
  case less
  show ?case
  proof (cases "rem \<le> 0 \<or> active = []")
    case True
    then have "rem = 0" using less.prems(4,5) by auto
    then have "share_loop perm cap k active alloc rem = Some (alloc, k)" by (subst share_loop.simps) simp
    then show ?thesis using \<open>rem = 0\<close> less.prems(3) by (auto simp: given_same intro: less_imp_le)
  next
    case False
    let ?m = "length active"
    let ?bonus = "take (nat (rem mod int ?m)) (perm k ?m)"
    obtain a r ex where round: "give_out (rem div int ?m) ?bonus cap 0 active (alloc, rem) = (a, r, ex)"
      by (metis prod_cases3)
    have m: "0 < ?m" using False by simp
    have "\<forall>c\<in>set active. alloc c \<le> cap c" using less.prems(3) by auto
    moreover have base: "0 \<le> rem div int ?m" using less.prems(4) m pos_imp_zdiv_nonneg_iff [of "int ?m" rem] by simp
    ultimately have out: "\<forall>c. c \<notin> set active \<longrightarrow> a c = alloc c"
      and inn: "\<forall>c\<in>set active. alloc c \<le> a c \<and> a c \<le> cap c \<and> min (cap c) (alloc c + rem div int ?m) \<le> a c"
      and r: "r = rem - given alloc a active" and ex: "set ex = {c \<in> set active. cap c \<le> a c}"
      and up: "given alloc a active \<le> rem div int ?m * int ?m + hits ?bonus 0 ?m"
      and eq: "ex = [] \<longrightarrow> given alloc a active = rem div int ?m * int ?m + hits ?bonus 0 ?m"
      using give_out_spec [OF round less.prems(2)] by blast+
    have "nat (rem mod int ?m) < ?m" using m by (simp add: nat_less_iff)
    then have "hits ?bonus 0 ?m = rem mod int ?m"
      using bonus_ok [OF less.prems(1), of "nat (rem mod int ?m)" ?m k] m by (subst hits_all) auto
    then have full: "rem div int ?m * int ?m + hits ?bonus 0 ?m = rem" by simp
    let ?act = "filter (\<lambda>c. c \<notin> set ex) active"
    have step: "share_loop perm cap k active alloc rem = share_loop perm cap (Suc k) ?act a r"
      using False by (subst share_loop.simps) (simp add: round Let_def)
    have r0: "0 \<le> r" using r up full by simp
    have room: "given a cap ?act = given a cap active"
      by (rule given_filter) (use ex inn in force)
    have "given alloc cap active = given alloc a active + given a cap active" by (rule given_split)
    then have r1: "r \<le> given a cap ?act" using r less.prems(5) room by simp
    have lt: "\<forall>c\<in>set ?act. a c < cap c"
    proof
      fix c assume "c \<in> set ?act"
      then have "c \<in> set active" "c \<notin> set ex" by simp_all
      then show "a c < cap c" unfolding ex by simp
    qed
    have "\<exists>b k'. share_loop perm cap (Suc k) ?act a r = Some (b, k') \<and>
      (\<forall>c. c \<notin> set ?act \<longrightarrow> b c = a c) \<and> given a b ?act = r \<and> (\<forall>c\<in>set ?act. a c \<le> b c \<and> b c \<le> cap c)"
    proof (cases "ex = []")
      case True
      then have "r = 0" using eq r full by simp
      then have "share_loop perm cap (Suc k) ?act a r = Some (a, Suc k)" by (subst share_loop.simps) simp
      then show ?thesis using \<open>r = 0\<close> lt by (auto simp: given_same intro: less_imp_le)
    next
      case False
      then have "\<exists>c\<in>set active. c \<in> set ex" using ex by (metis (no_types, lifting) ex_in_conv mem_Collect_eq set_empty)
      then have shorter: "length ?act < length active" by (metis length_filter_less)
      have "distinct ?act" using less.prems(2) by simp
      from less.hyps [OF shorter less.prems(1) this lt r0 r1, of "Suc k"] show ?thesis by blast
    qed
    then obtain b k' where b: "share_loop perm cap (Suc k) ?act a r = Some (b, k')"
      "\<forall>c. c \<notin> set ?act \<longrightarrow> b c = a c" "given a b ?act = r" "\<forall>c\<in>set ?act. a c \<le> b c \<and> b c \<le> cap c" by blast
    have "given a b ?act = given a b active" by (rule given_filter) (use b(2) in auto)
    then have "given alloc b active = rem" using given_split [of alloc b active a] r b(3) by simp
    moreover have "\<forall>c. c \<notin> set active \<longrightarrow> b c = alloc c" using b(2) out by auto
    moreover have "\<forall>c\<in>set active. a c \<le> b c \<and> b c \<le> cap c" 
  proof
    fix c assume c: "c \<in> set active"
    show "a c \<le> b c \<and> b c \<le> cap c"
    proof (cases "c \<in> set ex")
      case True
      then have "b c = a c" using b(2) by simp
      then show ?thesis using inn c by simp
    next
      case False
      then show ?thesis using b(4) c by simp
    qed
  qed
    then have "\<forall>c\<in>set active. alloc c \<le> b c \<and> b c \<le> cap c \<and> min (cap c) (alloc c + rem div int ?m) \<le> b c"
      using inn by (meson order_trans)
    moreover have "share_loop perm cap k active alloc rem = Some (b, k')" unfolding step by (rule b(1))
    ultimately show ?thesis by (intro exI [of _ b] exI [of _ k'] conjI)
  qed
qed

section \<open>The slice is complete, duplicate free and fair\<close>

lemma mset_shuffled: "perm_ok perm \<Longrightarrow> mset (shuffled perm k xs) = mset xs"
proof -
  assume "perm_ok perm"
  then have p: "distinct (perm k (length xs))" "set (perm k (length xs)) = {..<length xs}" by (auto simp: perm_ok_def)
  then have "mset (perm k (length xs)) = mset [0..<length xs]"
    by (metis atLeast0LessThan distinct_upt mset_set_set set_upt)
  then have "mset (map (\<lambda>i. xs ! i) (perm k (length xs))) = mset (map (\<lambda>i. xs ! i) [0..<length xs])" by simp
  then show ?thesis by (simp add: shuffled_def map_nth)
qed

lemma shuffled_facts:
  assumes "perm_ok perm"
  shows "length (shuffled perm k xs) = length xs" "set (shuffled perm k xs) = set xs"
    "distinct (shuffled perm k xs) = distinct xs" "length (filter P (shuffled perm k xs)) = length (filter P xs)"
  using mset_shuffled [OF assms, of k xs]
  by (metis mset_eq_length, metis mset_eq_setD, metis mset_eq_imp_distinct_iff, metis mset_eq_length mset_filter)

lemma classes_facts: "distinct (classes_of labels)" "set (classes_of labels) = set labels"
  "length (classes_of labels) = card (set labels)"
  by (simp_all add: classes_of_def length_remdups_card_conv)

lemma set_members [simp]: "set (members labels c) = {i. i < length labels \<and> labels ! i = c}"
  by (auto simp: members_def)

lemma distinct_members [simp]: "distinct (members labels c)"
  by (simp add: members_def)

lemma length_members: "length (members labels c) = count_list labels c"
proof -
  have "filter (\<lambda>l. l = c) (map (\<lambda>i. labels ! i) [0..<length labels]) = map (\<lambda>i. labels ! i) (members labels c)"
    by (simp add: filter_map members_def comp_def)
  then have "map (\<lambda>i. labels ! i) (members labels c) = filter (\<lambda>l. l = c) labels" by (simp only: map_nth)
  then have "length (members labels c) = length (filter (\<lambda>l. l = c) labels)" by (metis length_map)
  moreover have "(\<lambda>l. l = c) = (=) c" by auto
  ultimately show ?thesis by (simp add: count_list_eq_length_filter)
qed

lemma fst_pools [simp]: "map fst (pools_of perm labels) = classes_of labels"
proof -
  have "fst \<circ> (\<lambda>(j, c). (c, shuffled perm j (members labels c))) = snd" by (auto simp: fun_eq_iff)
  then show ?thesis by (simp add: pools_of_def)
qed

lemma pool_of_class:
  assumes "c \<in> set labels"
  shows "\<exists>j. dget_or [] (pools_of perm labels) c = shuffled perm j (members labels c)"
proof -
  have "c \<in> set (map fst (pools_of perm labels))" using assms by (simp add: classes_facts)
  then obtain p where p: "dget (pools_of perm labels) c = Some p" by (metis map_of_eq_None_iff not_None_eq set_map)
  then have "(c, p) \<in> set (pools_of perm labels)" by (rule map_of_SomeD)
  then obtain j where "p = shuffled perm j (members labels c)" by (auto simp: pools_of_def)
  then show ?thesis using p by (auto simp: dget_or_def)
qed

lemma given_zero: "given (\<lambda>_. 0) (\<lambda>c. int (f c)) cs = int (\<Sum>c\<leftarrow>cs. f c)"
  by (induction cs) auto

lemma sum_classes: "(\<Sum>c\<leftarrow>classes_of labels. count_list labels c) = length labels"
  by (metis List.finite_set classes_facts(1,2) order_refl sum_count_set sum_list_distinct_conv_sum_set)

lemma given_eq_cong: "(\<And>c. c \<in> set cs \<Longrightarrow> f c = g c) \<Longrightarrow> given al f cs = given al g cs"
  by (induction cs) auto

lemma length_concat_takes:
  "(\<And>c. c \<in> set cs \<Longrightarrow> 0 \<le> alloc c \<and> alloc c \<le> int (length (pool c))) \<Longrightarrow>
   int (length (concat (map (\<lambda>c. take (nat (alloc c)) (pool c)) cs))) = given (\<lambda>_. 0) alloc cs"
proof (induction cs)
  case (Cons c cs)
  have "min (length (pool c)) (nat (alloc c)) = nat (alloc c)" "0 \<le> alloc c" using Cons.prems [of c] by auto
  then show ?case using Cons by simp
qed simp

lemma filter_concat_takes:
  assumes "distinct cs" "\<And>d. d \<in> set cs \<Longrightarrow> \<forall>i\<in>set (pool d). lab i = d"
  shows "filter (\<lambda>i. lab i = c) (concat (map (\<lambda>c. take (k c) (pool c)) cs)) = (if c \<in> set cs then take (k c) (pool c) else [])"
  using assms
proof (induction cs)
  case Nil
  then show ?case by simp
next
  case (Cons d cs)
  have "\<forall>i\<in>set (take (k d) (pool d)). lab i = d" using Cons.prems(2) [of d] by (auto dest: in_set_takeD)
  then have "filter (\<lambda>i. lab i = c) (take (k d) (pool d)) = (if c = d then take (k d) (pool d) else [])"
    by (auto simp: filter_empty_conv)
  then show ?case using Cons by auto
qed

lemma distinct_concat_takes:
  assumes "distinct cs" "\<And>d. d \<in> set cs \<Longrightarrow> distinct (pool d) \<and> (\<forall>i\<in>set (pool d). lab i = d)"
  shows "distinct (concat (map (\<lambda>c. take (k c) (pool c)) cs))"
  using assms
proof (induction cs)
  case (Cons d cs)
  have "\<forall>x\<in>set (pool d). \<forall>e\<in>set cs. x \<notin> set (pool e)" using Cons.prems by (metis distinct.simps(2) list.set_intros)
  moreover have "distinct (pool d)" using Cons.prems(2) by simp
  ultimately show ?case using Cons by (auto dest!: in_set_takeD)
qed simp

text \<open>C33. With a generator that draws permutations the allocation loop returns, and the slice
  has min(n, rows) different rows of the split; every class gets its equal share of the first
  round, or all of its members if it has fewer.\<close>

theorem stratified_slice_complete:
  assumes "perm_ok perm" "0 < n" "labels \<noteq> []"
  shows "\<exists>ix. stratified_indices perm labels n = Some (Inr ix) \<and>
    int (length ix) = min n (int (length labels)) \<and> distinct ix \<and> (\<forall>i\<in>set ix. i < length labels) \<and>
    (\<forall>c\<in>set labels. min (int (count_list labels c)) (min n (int (length labels)) div int (card (set labels)))
        \<le> int (length (filter (\<lambda>i. labels ! i = c) ix)))"
proof -
  let ?pool = "\<lambda>c. dget_or [] (pools_of perm labels) c" and ?cs = "classes_of labels"
  let ?N = "min n (int (length labels))" and ?cap = "\<lambda>c. int (length (dget_or [] (pools_of perm labels) c))"
  have pool: "length (?pool c) = count_list labels c" "distinct (?pool c)" "set (?pool c) = {i. i < length labels \<and> labels ! i = c}"
    if "c \<in> set ?cs" for c
  proof -
    have "c \<in> set labels" using that by (simp add: classes_facts)
    from pool_of_class [OF this, of perm] obtain j where j: "?pool c = shuffled perm j (members labels c)" by blast
    show "length (?pool c) = count_list labels c" "distinct (?pool c)" "set (?pool c) = {i. i < length labels \<and> labels ! i = c}"
      unfolding j by (simp_all add: shuffled_facts [OF assms(1)] length_members)
  qed
  have "\<forall>c\<in>set ?cs. (0::int) < ?cap c"
    by (metis classes_facts(2) count_list_0_iff gr0I of_nat_0_less_iff pool(1))
  moreover have "given (\<lambda>_. 0) ?cap ?cs = int (length labels)"
    by (subst given_zero) (simp add: sum_classes [symmetric] pool(1) cong: map_cong)
  then have "?N \<le> given (\<lambda>_. 0) ?cap ?cs" by simp
  ultimately obtain a k where loop: "share_loop perm ?cap (length (pools_of perm labels)) ?cs (\<lambda>_. 0) ?N = Some (a, k)"
    "given (\<lambda>_. 0) a ?cs = ?N"
    "\<forall>c\<in>set ?cs. 0 \<le> a c \<and> a c \<le> ?cap c \<and> min (?cap c) (0 + ?N div int (length ?cs)) \<le> a c"
    using share_loop_spec [OF assms(1) classes_facts(1), of labels "\<lambda>_. 0" ?cap ?N "length (pools_of perm labels)"] assms(2)
    by auto
  let ?ch = "concat (map (\<lambda>c. take (nat (a c)) (?pool c)) ?cs)"
  let ?ix = "shuffled perm k ?ch"
  have "stratified_indices perm labels n = Some (Inr ?ix)"
    using assms(2,3) loop(1) by (simp add: stratified_indices_def Let_def)
  moreover have "int (length ?ix) = ?N"
    unfolding shuffled_facts(1) [OF assms(1)] using length_concat_takes [of ?cs a ?pool] loop(2,3) by simp
  moreover have "distinct ?ix"
    unfolding shuffled_facts(3) [OF assms(1)]
    by (rule distinct_concat_takes [where lab = "\<lambda>i. labels ! i"]) (simp_all add: classes_facts(1) pool)
  moreover have "\<forall>i\<in>set ?ix. i < length labels"
    unfolding shuffled_facts(2) [OF assms(1)] using pool(3) by (auto dest!: in_set_takeD)
  moreover have "min (int (count_list labels c)) (?N div int (card (set labels))) \<le> int (length (filter (\<lambda>i. labels ! i = c) ?ix))"
    if c: "c \<in> set labels" for c
  proof -
    have cc: "c \<in> set ?cs" using c by (simp add: classes_facts)
    have "length (filter (\<lambda>i. labels ! i = c) ?ix) = length (filter (\<lambda>i. labels ! i = c) ?ch)"
      by (rule shuffled_facts(4) [OF assms(1)])
    also have "\<dots> = length (take (nat (a c)) (?pool c))"
      using cc pool(3) by (subst filter_concat_takes [where lab = "\<lambda>i. labels ! i"]) (auto simp: classes_facts(1))
    also have "int \<dots> = a c" using loop(3) cc by auto
    finally have "int (length (filter (\<lambda>i. labels ! i = c) ?ix)) = a c" .
    then show ?thesis using loop(3) cc pool(1) by (simp add: classes_facts(3))
  qed
  ultimately show ?thesis by blast
qed

lemma stratified_slice_complete_witness:
  "\<exists>ix. stratified_indices (\<lambda>k m. rev [0..<m]) [0, 0, 1, 0] 3 = Some (Inr ix) \<and> length ix = 3 \<and> distinct ix \<and>
     1 \<le> length (filter (\<lambda>i. [0, 0, 1, 0] ! i = (1::int)) ix)"
proof -
  have "perm_ok (\<lambda>k m. rev [0..<m])" by (auto simp: perm_ok_def)
  from stratified_slice_complete [OF this, of 3 "[0, 0, 1, 0]"] obtain ix where
    ix: "stratified_indices (\<lambda>k m. rev [0..<m]) [0, 0, 1, 0] 3 = Some (Inr ix)" "int (length ix) = min 3 (int (length [0, 0, 1, 0 :: int]))"
    "distinct ix" "\<forall>c\<in>set [0, 0, 1, 0 :: int]. min (int (count_list [0, 0, 1, 0] c))
       (min 3 (int (length [0, 0, 1, 0 :: int])) div int (card (set [0, 0, 1, 0 :: int])))
      \<le> int (length (filter (\<lambda>i. [0, 0, 1, 0] ! i = c) ix))" by force
  have "card (set [0, 0, 1, 0 :: int]) = 2" by (simp add: card_insert_if)
  with ix(4) have "1 \<le> int (length (filter (\<lambda>i. [0, 0, 1, 0] ! i = (1::int)) ix))"
    by (simp only: list.set ball_simps) simp
  then show ?thesis using ix by (intro exI [of _ ix]) simp
qed

end
