(* ===== verification/Dispatching.thy ===== *)
theory Dispatching
  imports Capacity "HOL-Library.Sublist"
begin

text \<open>
  Progress of the dispatcher of \<open>src/redsim/services/ml_capacity.py\<close> over time. Between two
  passes the workers finish jobs and new admissions queue up; \<open>rounds\<close> alternates such a change
  of the database with one \<open>dispatch_project\<close> pass and collects what each pass handed to the
  broker. \<open>progress\<close> is the assumption on the changes: they leave the queue of deferred jobs in
  place (newer admissions may join behind it) and leave at least one slot free.
\<close>

section \<open>Alternating work and passes\<close>

type_synonym work = "int \<times> (db \<Rightarrow> db)"

fun rounds :: "'w dispatch_env \<Rightarrow> (string, project) dict \<Rightarrow> string \<Rightarrow> work list \<Rightarrow> db \<Rightarrow> 'w option \<Rightarrow> string list list" where
  "rounds e ps pid [] d w = []"
| "rounds e ps pid ((now, work) # rs) d w = (case dispatch_project e now ps pid (work d) w empty_report of
      (res, d', w') \<Rightarrow> (case res of Inl _ \<Rightarrow> [] | Inr rp \<Rightarrow> dget_or [] (rp_dispatched rp) pid) # rounds e ps pid rs d' w')"

fun progress :: "'w dispatch_env \<Rightarrow> (string, project) dict \<Rightarrow> string \<Rightarrow> work list \<Rightarrow> db \<Rightarrow> 'w option \<Rightarrow> bool" where
  "progress e ps pid [] d w = True"
| "progress e ps pid ((now, work) # rs) d w =
     (let d1 = work d; c = count_active (de_exclude e) pid d; c1 = count_active (de_exclude e) pid d1
      in distinct (map fst (db_jobs d1)) \<and> prefix (ct_ids c) (ct_ids c1) \<and>
         int (ct_active c1) < cap_max (effective_caps (de_vars e) (dget ps pid)) \<and>
         (case dispatch_project e now ps pid d1 w empty_report of (_, d', w') \<Rightarrow> progress e ps pid rs d' w'))"

section \<open>A pass with a total audit writer returns a report\<close>

lemma loop_no_error:
  assumes "\<forall>c t v. \<exists>v' ev. de_append e c t v = Inr (v', ev)"
  shows "fst (dispatch_loop e now pid cap ids s) = None"
proof -
  have "\<exists>w'. audit_opt e c t w = Inr w'" for c t w
  proof (cases w)
    case (Some v)
    obtain v' ev where "de_append e c t v = Inr (v', ev)" using assms by blast
    then show ?thesis using Some by (simp add: audit_opt_def)
  qed (simp add: audit_opt_def)
  then show ?thesis
  proof (induction ids arbitrary: s)
    case (Cons k ids)
    show ?case
    proof (cases "dget (db_jobs (ds_db s)) k")
      case (Some j)
      obtain w' where "audit_opt e (dispatch_call (de_actor e) now pid cap (ds_active s) k j) now (ds_audit s) = Inr w'"
        using Cons.prems by blast
      then show ?thesis using Some Cons by (auto split: sum.splits prod.splits)
    qed (use Cons in auto)
  qed simp
qed

lemma pass_reports:
  assumes "\<forall>c t v. \<exists>v' ev. de_append e c t v = Inr (v', ev)" "dispatch_project e now ps pid d w rp = (res, d', w')"
  shows "\<exists>rp'. res = Inr rp'"
proof -
  let ?c = "count_active (de_exclude e) pid d"
  obtain x s where l: "dispatch_loop e now pid (cap_max (effective_caps (de_vars e) (dget ps pid))) (ct_ids ?c)
      \<lparr>ds_db = d, ds_audit = w, ds_active = ct_active ?c, ds_dispatched = [], ds_failed = []\<rparr> = (x, s)" by fastforce
  then have "x = None" using loop_no_error [OF assms(1)] by (metis fst_conv)
  then show ?thesis using assms(2) l by (auto simp: dispatch_project_def Let_def)
qed

section \<open>The queue moves\<close>

text \<open>A pass that starts with a free slot and a working broker hands over a nonempty prefix of a
  nonempty queue.\<close>

lemma pass_moves:
  assumes "distinct (map fst (db_jobs d))" "de_send e = (\<lambda>k x. (f k, x))" "\<forall>k. is_ok (f k)"
    "\<forall>c t v. \<exists>v' ev. de_append e c t v = Inr (v', ev)"
    "dispatch_project e now ps pid d w empty_report = (res, d', w')"
    "int (ct_active (count_active (de_exclude e) pid d)) < cap_max (effective_caps (de_vars e) (dget ps pid))"
    "ct_ids (count_active (de_exclude e) pid d) = ids" "ids \<noteq> []"
  shows "\<exists>n rp. res = Inr rp \<and> 0 < n \<and> dget_or [] (rp_dispatched rp) pid = take n ids \<and>
    ct_ids (count_active (de_exclude e) pid d') = drop n ids"
proof -
  let ?c = "count_active (de_exclude e) pid d" and ?c' = "count_active (de_exclude e) pid d'"
  obtain rp where rp: "res = Inr rp" using pass_reports [OF assms(4,5)] by blast
  have all: "filter (\<lambda>k. is_ok (f k)) xs = xs" for xs using assms(3) by simp
  obtain n where n: "ct_ids ?c' = filter (\<lambda>k. k \<notin> set (take n ids)) ids"
    "ct_active ?c' = ct_active ?c + length (take n ids)"
    "n = length ids \<or> cap_max (effective_caps (de_vars e) (dget ps pid)) \<le> int (ct_active ?c')"
    "rp_dispatched rp = (if take n ids = [] then [] else dset pid (take n ids) [])"
    using pass_effect [OF assms(1,2,5)] unfolding Let_def all assms(7) rp sum.case empty_report_def dispatch_report.simps
    by (elim exE conjE) simp
  have "0 < n"
  proof (rule ccontr)
    assume "\<not> 0 < n"
    then have "n = 0" by simp
    then have "ct_active ?c' = ct_active ?c" using n(2) by simp
    then show False using n(3) \<open>n = 0\<close> assms(6,8) by auto
  qed
  have "distinct ids" using ct_ids_distinct [OF assms(1), of "de_exclude e" pid] assms(7) by simp
  then have "set (take n ids) \<inter> set (drop n ids) = {}" by (rule set_take_disj_set_drop_if_distinct) simp
  then have "filter (\<lambda>k. k \<notin> set (take n ids)) (take n ids) = []" "filter (\<lambda>k. k \<notin> set (take n ids)) (drop n ids) = drop n ids"
    by (simp add: filter_empty_conv, subst filter_id_conv) blast
  then have "filter (\<lambda>k. k \<notin> set (take n ids)) (take n ids @ drop n ids) = drop n ids" by (simp only: filter_append append_Nil)
  then have "ct_ids ?c' = drop n ids" using n(1) by (simp only: append_take_drop_id)
  moreover have "dget_or [] (rp_dispatched rp) pid = take n ids"
    using n(4) \<open>0 < n\<close> assms(8) by (simp add: dget_or_def)
  ultimately show ?thesis using rp \<open>0 < n\<close> by blast
qed


definition ex_sender :: "unit dispatch_env" where
  "ex_sender = ex_dispatch\<lparr>de_send := \<lambda>k x. (Inr None, x), de_vars := [(''REDSIM_ML_MAX_CONCURRENT_RUNS_PER_PROJECT'', ''1'')]\<rparr>"

definition ex_finish :: "db \<Rightarrow> db" where
  "ex_finish d = d\<lparr>db_jobs := map (\<lambda>(k, j). (k, if is_deferred j then j else j\<lparr>j_status := ''succeeded''\<rparr>)) (db_jobs d)\<rparr>"


end
