(* ===== verification/Reports.thy ===== *)
theory Reports
  imports Drafts
begin

text \<open>
  The immutable report snapshots of \<open>src/redsim/services/reports.py\<close>: the rows one render writes,
  their versions, the artifact a snapshot holds for a format, and the soft archive flag. Rendering
  itself (templates, HTML and PDF text) is not modelled.
\<close>

section \<open>Rows\<close>

record art_row = artifact +
  ar_project :: string
  ar_size :: int
  ar_ctype :: string

record snapshot =
  sn_id :: string
  sn_run :: string
  sn_project :: string
  sn_artifacts :: "string list"
  sn_record :: string
  sn_rendered :: int
  sn_archived :: bool
  sn_by :: "string option"

definition report_formats :: "string list" where
  "report_formats = [''md'', ''json'', ''html'', ''pdf'']"

definition ext_of_kind :: "string \<Rightarrow> string option" where
  "ext_of_kind kind =
     (if starts_with ''ml.report_'' kind then Some (drop 10 kind)
      else if starts_with ''report.'' kind then Some (drop 7 kind) else None)"

definition record_report_snapshot :: "string \<Rightarrow> string \<Rightarrow> string \<Rightarrow> string list \<Rightarrow> string \<Rightarrow> string option \<Rightarrow> int \<Rightarrow> snapshot list \<Rightarrow> snapshot list" where
  "record_report_snapshot sid rid pid arts sha by t rows =
     rows @ [\<lparr>sn_id = sid, sn_run = rid, sn_project = pid, sn_artifacts = arts, sn_record = sha,
              sn_rendered = t, sn_archived = False, sn_by = by\<rparr>]"

definition snapshot_rows :: "string \<Rightarrow> snapshot list \<Rightarrow> snapshot list" where
  "snapshot_rows rid rows = sort_key (\<lambda>r. (sn_rendered r, sn_id r)) (filter (\<lambda>r. sn_run r = rid) rows)"

definition art_by_id :: "art_row list \<Rightarrow> string \<Rightarrow> art_row option" where
  "art_by_id arts i = find (\<lambda>a. af_id a = i) arts"

definition newest_snapshot :: "string \<Rightarrow> bool \<Rightarrow> snapshot list \<Rightarrow> (snapshot \<times> nat) option" where
  "newest_snapshot rid archived rows =
     (let rs = enumerate 1 (snapshot_rows rid rows)
      in map_option (\<lambda>(i, r). (r, i)) (find (\<lambda>(i, r). archived \<or> \<not> sn_archived r) (rev rs)))"

definition snapshot_artifact :: "art_row list \<Rightarrow> snapshot \<Rightarrow> string \<Rightarrow> art_row option" where
  "snapshot_artifact arts s ext =
     (case concat (map (\<lambda>i. case art_by_id arts i of None \<Rightarrow> [] | Some a \<Rightarrow> [a]) (sn_artifacts s)) of rows \<Rightarrow>
        find (\<lambda>a. ext_of_kind (af_kind a) = Some ext) rows)"

text \<open>\<open>resolve_snapshot\<close>: by id, else by the 1-based version in chronological order.\<close>

definition resolve_snapshot :: "string \<Rightarrow> string \<Rightarrow> snapshot list \<Rightarrow> (snapshot \<times> nat) option" where
  "resolve_snapshot rid ref rows =
     (let rs = snapshot_rows rid rows in
      case find (\<lambda>(i, r). sn_id r = ref) (enumerate 1 rs) of
        Some (i, r) \<Rightarrow> Some (r, i)
      | None \<Rightarrow>
          if ref \<noteq> [] \<and> list_all is_digit ref
          then (let v = nat_of_digits ref in if 1 \<le> v \<and> v \<le> int (length rs) then Some (rs ! nat (v - 1), nat v) else None)
          else None)"

definition format_entry :: "art_row \<Rightarrow> json" where
  "format_entry a = JObj [(''artifact_id'', JStr (af_id a)), (''kind'', JStr (af_kind a)), (''sha256'', JStr (af_sha a)),
     (''size_bytes'', JInt (ar_size a)), (''content_type'', JStr (ar_ctype a))]"

definition snapshot_formats :: "art_row list \<Rightarrow> snapshot \<Rightarrow> jdict" where
  "snapshot_formats arts s = fold (\<lambda>i d. case art_by_id arts i of None \<Rightarrow> d
     | Some a \<Rightarrow> (case ext_of_kind (af_kind a) of None \<Rightarrow> d | Some ext \<Rightarrow> dset ext (format_entry a) d)) (sn_artifacts s) []"

definition snapshot_view :: "art_row list \<Rightarrow> snapshot \<Rightarrow> nat \<Rightarrow> jdict" where
  "snapshot_view arts s version =
     [(''id'', JStr (sn_id s)), (''version'', JInt (int version)), (''run_id'', JStr (sn_run s)),
      (''project_id'', JStr (sn_project s)), (''rendered_at'', JStr (iso_utc (sn_rendered s))),
      (''record_sha256'', JStr (sn_record s)), (''created_by'', jopt (sn_by s)), (''archived'', JBool (sn_archived s)),
      (''artifact_ids'', JArr (map JStr (sn_artifacts s))), (''formats'', JObj (snapshot_formats arts s))]"

definition list_snapshots :: "art_row list \<Rightarrow> string \<Rightarrow> snapshot list \<Rightarrow> jdict list" where
  "list_snapshots arts rid rows = rev (map (\<lambda>(i, s). snapshot_view arts s i) (enumerate 1 (snapshot_rows rid rows)))"

definition set_snapshot_archived :: "string \<Rightarrow> bool \<Rightarrow> snapshot list \<Rightarrow> bool \<times> snapshot list" where
  "set_snapshot_archived sid flag rows =
     (case find (\<lambda>r. sn_id r = sid) rows of
        None \<Rightarrow> (False, rows)
      | Some s \<Rightarrow> if sn_archived s = flag then (False, rows)
          else (True, map (\<lambda>r. if sn_id r = sid then r\<lparr>sn_archived := flag\<rparr> else r) rows))"

section \<open>What a snapshot promises\<close>

lemma newest_snapshot_live:
  assumes "newest_snapshot rid False rows = Some (s, n)"
  shows "s \<in> set rows \<and> sn_run s = rid \<and> \<not> sn_archived s"
proof -
  have f: "find P xs = Some x \<Longrightarrow> x \<in> set xs \<and> P x" for P and xs :: "(nat \<times> snapshot) list" and x
    by (auto simp: find_Some_iff)
  obtain i where "find (\<lambda>(i, r). False \<or> \<not> sn_archived r) (rev (enumerate 1 (snapshot_rows rid rows))) = Some (i, s)"
    using assms by (auto simp: newest_snapshot_def Let_def)
  from f [OF this] have i: "(i, s) \<in> set (enumerate 1 (snapshot_rows rid rows))" "\<not> sn_archived s" by simp_all
  then have "s \<in> snd ` set (enumerate 1 (snapshot_rows rid rows))" by force
  then have "s \<in> set (snapshot_rows rid rows)" by (metis map_snd_enumerate set_map)
  then show ?thesis using i(2) by (simp add: snapshot_rows_def)
qed

lemma snapshot_rows_record:
  assumes "\<forall>r\<in>set rows. sn_run r = rid \<longrightarrow> (sn_rendered r, sn_id r) \<le> (t, sid)"
  shows "\<exists>s. sn_id s = sid \<and> sn_artifacts s = arts \<and> sn_record s = sha \<and> \<not> sn_archived s \<and>
    snapshot_rows rid (record_report_snapshot sid rid pid arts sha by t rows) = snapshot_rows rid rows @ [s]"
proof -
  let ?s = "\<lparr>sn_id = sid, sn_run = rid, sn_project = pid, sn_artifacts = arts, sn_record = sha,
              sn_rendered = t, sn_archived = False, sn_by = by\<rparr>"
  let ?f = "\<lambda>r. (sn_rendered r, sn_id r)"
  have ins: "f x \<le> f y \<Longrightarrow> insort_key f x (zs @ [y]) = insort_key f x zs @ [y]" for f :: "snapshot \<Rightarrow> int \<times> string" and x y zs
    by (induction zs) auto
  have "sort_key ?f (xs @ [?s]) = sort_key ?f xs @ [?s]" if "\<forall>x\<in>set xs. ?f x \<le> ?f ?s" for xs
    using that
  proof (induction xs)
    case (Cons x xs)
    then show ?case using ins [of ?f x ?s "sort_key ?f xs"] by simp
  qed simp
  from this [of "filter (\<lambda>r. sn_run r = rid) rows"] have
    "snapshot_rows rid (record_report_snapshot sid rid pid arts sha by t rows) = snapshot_rows rid rows @ [?s]"
    using assms by (simp add: snapshot_rows_def record_report_snapshot_def)
  then show ?thesis by (intro exI [of _ ?s]) simp
qed

end
