(* ===== verification/JsonText.thy ===== *)
theory JsonText
  imports PyValue PyFormat Sha256 "HOL-Library.Multiset"
begin

text \<open>
  The text of a JSON value in the layouts of \<open>json.dumps\<close> the program uses (compact, the
  default, indented), and \<open>json.loads\<close>. Strings are lists of code points below 256, so an
  escape \<open>\u0100\<close> or above is outside the model, as is the sign of a negative zero. A float is the
  \<open>repr\<close> of the number its literal denotes. The main result is the round trip: what \<open>json.dumps\<close>
  writes, in any layout, \<open>json.loads\<close> reads back.
\<close>

section \<open>Printing\<close>

datatype layout = Compact | Spaced | Indent nat

definition gap :: "layout \<Rightarrow> nat \<Rightarrow> string" where
  "gap l k = (case l of Indent n \<Rightarrow> CHR 0x0A # replicate (n * k) (CHR '' '') | _ \<Rightarrow> [])"

definition item_sep :: "layout \<Rightarrow> nat \<Rightarrow> string" where
  "item_sep l k = CHR '','' # (case l of Compact \<Rightarrow> [] | Spaced \<Rightarrow> '' '' | Indent n \<Rightarrow> gap l k)"

definition key_sep :: "layout \<Rightarrow> string" where
  "key_sep l = CHR '':'' # (case l of Compact \<Rightarrow> [] | _ \<Rightarrow> '' '')"

fun print_json :: "layout \<Rightarrow> nat \<Rightarrow> json \<Rightarrow> string" where
  "print_json l k (JArr xs) = (if xs = [] then ''[]''
     else ''['' @ gap l (Suc k) @ join (item_sep l (Suc k)) (map (print_json l (Suc k)) xs) @ gap l k @ '']'')"
| "print_json l k (JObj kvs) = (if kvs = [] then ''{}''
     else ''{'' @ gap l (Suc k) @ join (item_sep l (Suc k)) (map (\<lambda>(q, v). json_str q @ key_sep l @ print_json l (Suc k) v) kvs)
       @ gap l k @ ''}'')"
| "print_json l k v = enc v"

section \<open>Parsing\<close>

definition json_ws :: "char \<Rightarrow> bool" where
  "json_ws c \<longleftrightarrow> c \<in> {CHR '' '', CHR 0x09, CHR 0x0A, CHR 0x0D}"

definition skip_ws :: "string \<Rightarrow> string" where
  "skip_ws s = dropWhile json_ws s"

definition hex4 :: "string \<Rightarrow> int option" where
  "hex4 s = (let ds = map (\<lambda>c. hex_val c) (take 4 s)
     in if length ds = 4 \<and> list_all (\<lambda>x. x \<noteq> None) ds then Some (foldl (\<lambda>n x. 16 * n + the x) 0 ds) else None)"

definition short_escapes :: "(char, char) dict" where
  "short_escapes = [(CHR 0x22, CHR 0x22), (CHR 0x5C, CHR 0x5C), (CHR ''/'', CHR ''/''), (CHR ''b'', CHR 0x08),
     (CHR ''f'', CHR 0x0C), (CHR ''n'', CHR 0x0A), (CHR ''r'', CHR 0x0D), (CHR ''t'', CHR 0x09)]"

definition cons_fst :: "char \<Rightarrow> (string \<times> string) option \<Rightarrow> (string \<times> string) option" where
  "cons_fst c = map_option (\<lambda>(s, r). (c # s, r))"

text \<open>The characters after an opening quote, up to the closing one; control characters are refused.\<close>

function parse_str :: "string \<Rightarrow> (string \<times> string) option" where
  "parse_str s = (case s of [] \<Rightarrow> None
     | c # r \<Rightarrow>
         if c = CHR 0x22 then Some ([], r)
         else if c = CHR 0x5C then (case r of [] \<Rightarrow> None
            | x # r1 \<Rightarrow>
                if x = CHR ''u'' then (case hex4 r1 of None \<Rightarrow> None
                   | Some n \<Rightarrow> if n < 256 then cons_fst (char_of n) (parse_str (drop 4 r1)) else None)
                else (case dget short_escapes x of None \<Rightarrow> None | Some d \<Rightarrow> cons_fst d (parse_str r1)))
         else if (of_char c :: int) < 32 then None
         else cons_fst c (parse_str r))"
  by auto
termination by (relation "measure length") auto

definition float_repr :: "string \<Rightarrow> string" where
  "float_repr t = (case py_float t of Some (Fin q) \<Rightarrow> py_repr q | Some (Inf neg) \<Rightarrow> (if neg then ''-Infinity'' else ''Infinity'')
     | _ \<Rightarrow> ''NaN'')"

definition int_text :: "string \<Rightarrow> string" where
  "int_text s = (case s of [] \<Rightarrow> [] | c # _ \<Rightarrow> if c = CHR ''0'' then ''0'' else takeWhile is_digit s)"

definition frac_text :: "string \<Rightarrow> string" where
  "frac_text s = (case s of [] \<Rightarrow> [] | c # r \<Rightarrow>
     if c = CHR ''.'' then (let d = takeWhile is_digit r in if d = [] then [] else c # d) else [])"

definition exp_text :: "string \<Rightarrow> string" where
  "exp_text s = (case s of [] \<Rightarrow> [] | c # r \<Rightarrow>
     if c \<in> {CHR ''e'', CHR ''E''}
     then (let g = (case r of [] \<Rightarrow> [] | x # _ \<Rightarrow> if x \<in> {CHR ''+'', CHR ''-''} then [x] else []);
               d = takeWhile is_digit (drop (length g) r)
           in if d = [] then [] else c # g @ d)
     else [])"

definition sign_text :: "string \<Rightarrow> string" where
  "sign_text s = (case s of [] \<Rightarrow> [] | c # _ \<Rightarrow> if c = CHR ''-'' then [c] else [])"

definition parse_num :: "string \<Rightarrow> (json \<times> string) option" where
  "parse_num s =
     (let g = sign_text s; s1 = drop (length g) s; i = int_text s1; s2 = drop (length i) s1;
          f = frac_text s2; s3 = drop (length f) s2; x = exp_text s3; s4 = drop (length x) s3
      in if i = [] then None
         else if f = [] \<and> x = [] then Some (JInt (if g = [] then nat_of_digits i else - nat_of_digits i), s4)
         else Some (JFloat (float_repr (g @ i @ f @ x)), s4))"

definition literals :: "(string \<times> json) list" where
  "literals = [(''null'', JNull), (''true'', JBool True), (''false'', JBool False), (''NaN'', JFloat ''NaN''),
     (''Infinity'', JFloat ''Infinity''), (''-Infinity'', JFloat ''-Infinity'')]"

definition parse_scalar :: "string \<Rightarrow> (json \<times> string) option" where
  "parse_scalar s = (case find (\<lambda>(t, _). starts_with t s) literals of
     Some (t, v) \<Rightarrow> Some (v, drop (length t) s) | None \<Rightarrow> parse_num s)"

text \<open>\<open>dict(pairs)\<close>: a repeated key keeps its first place and takes the last value.\<close>

definition dict_of :: "(string \<times> json) list \<Rightarrow> jdict" where
  "dict_of kvs = fold (\<lambda>(k, v). dset k v) kvs []"

text \<open>Each call uses one unit of fuel; \<open>2 * length s + 2\<close> units are enough (\<open>loads_fuel\<close> below).\<close>

fun parse_value :: "nat \<Rightarrow> string \<Rightarrow> (json \<times> string) option"
  and parse_elems :: "nat \<Rightarrow> string \<Rightarrow> (json list \<times> string) option"
  and parse_members :: "nat \<Rightarrow> string \<Rightarrow> ((string \<times> json) list \<times> string) option" where
  "parse_value 0 s = None"
| "parse_value (Suc n) s = (case s of [] \<Rightarrow> None
     | c # r \<Rightarrow>
         if c = CHR 0x22 then map_option (\<lambda>(t, r'). (JStr t, r')) (parse_str r)
         else if c = CHR ''['' then
           (case skip_ws r of [] \<Rightarrow> None
            | d # r' \<Rightarrow> if d = CHR '']'' then Some (JArr [], r')
                else map_option (\<lambda>(vs, r2). (JArr vs, r2)) (parse_elems n (d # r')))
         else if c = CHR ''{'' then
           (case skip_ws r of [] \<Rightarrow> None
            | d # r' \<Rightarrow> if d = CHR ''}'' then Some (JObj [], r')
                else map_option (\<lambda>(kvs, r2). (JObj (dict_of kvs), r2)) (parse_members n (d # r')))
         else parse_scalar s)"
| "parse_elems 0 s = None"
| "parse_elems (Suc n) s = (case parse_value n s of None \<Rightarrow> None
     | Some (v, r) \<Rightarrow> (case skip_ws r of [] \<Rightarrow> None
        | c # r1 \<Rightarrow> if c = CHR '']'' then Some ([v], r1)
            else if c = CHR '','' then map_option (\<lambda>(vs, r2). (v # vs, r2)) (parse_elems n (skip_ws r1))
            else None))"
| "parse_members 0 s = None"
| "parse_members (Suc n) s = (case s of [] \<Rightarrow> None
     | q # s1 \<Rightarrow> if q \<noteq> CHR 0x22 then None
         else (case parse_str s1 of None \<Rightarrow> None
           | Some (k, r0) \<Rightarrow> (case skip_ws r0 of [] \<Rightarrow> None
               | c0 # r \<Rightarrow> if c0 \<noteq> CHR '':'' then None
                   else (case parse_value n (skip_ws r) of None \<Rightarrow> None
                     | Some (v, r') \<Rightarrow> (case skip_ws r' of [] \<Rightarrow> None
                         | c # r1 \<Rightarrow> if c = CHR ''}'' then Some ([(k, v)], r1)
                             else if c = CHR '','' then map_option (\<lambda>(kvs, r2). ((k, v) # kvs, r2)) (parse_members n (skip_ws r1))
                             else None)))))"

definition loads :: "string \<Rightarrow> json option" where
  "loads s = (case parse_value (2 * length s + 2) (skip_ws s) of None \<Rightarrow> None
     | Some (v, r) \<Rightarrow> if skip_ws r = [] then Some v else None)"

lemma loads_examples:
  "loads ('' {'' @ [CHR 0x22] @ ''a'' @ [CHR 0x22] @ '': [1, -20, true]}'') = Some (JObj [(''a'', JArr [JInt 1, JInt (-20), JBool True])])"
  "loads ''1.50'' = Some (JFloat ''1.5'')" "loads ''[1,]'' = None" "loads ''01'' = None"
  by code_simp+

section \<open>Reading back a string\<close>

declare parse_str.simps [simp del]

lemma hex4_esc:
  assumes "0 \<le> n" "n < 256"
  shows "hex4 (CHR ''0'' # CHR ''0'' # hex_digit (n div 16) # hex_digit (n mod 16) # r) = Some n"
proof -
  have "hex_val (hex_digit (n div 16)) = Some (n div 16)" "hex_val (hex_digit (n mod 16)) = Some (n mod 16)"
    using assms by (auto simp: pos_imp_zdiv_nonneg_iff)
  moreover have "hex_val (CHR ''0'') = Some 0" by code_simp
  ultimately show ?thesis by (simp add: hex4_def)
qed

lemma parse_esc: "parse_str (esc_char c @ r) = cons_fst c (parse_str r)"
proof -
  let ?n = "of_char c :: int"
  note n = of_char_int_bounds [of c]
  consider "c \<in> {CHR 0x22, CHR 0x5C, CHR 0x0A, CHR 0x0D, CHR 0x09, CHR 0x0C, CHR 0x08}"
    | "?n \<notin> {34, 92, 10, 13, 9, 12, 8}" "32 \<le> ?n \<and> ?n \<le> 126"
    | "?n \<notin> {34, 92, 10, 13, 9, 12, 8}" "\<not> (32 \<le> ?n \<and> ?n \<le> 126)"
    using of_char_int_eqD [of c "CHR 0x22"] of_char_int_eqD [of c "CHR 0x5C"]
      of_char_int_eqD [of c "CHR 0x0A"] of_char_int_eqD [of c "CHR 0x0D"] of_char_int_eqD [of c "CHR 0x09"]
      of_char_int_eqD [of c "CHR 0x0C"] of_char_int_eqD [of c "CHR 0x08"] by fastforce
  then show ?thesis
  proof cases
    case 1
    then show ?thesis by (subst parse_str.simps) (auto simp: esc_char_def short_escapes_def)
  next
    case 2
    then have "c \<noteq> CHR 0x22" "c \<noteq> CHR 0x5C" by auto
    then show ?thesis using 2 by (subst parse_str.simps) (auto simp: esc_char_def Let_def)
  next
    case 3
    then have "esc_char c = [CHR 0x5C, CHR ''u'', CHR ''0'', CHR ''0'', hex_digit (?n div 16), hex_digit (?n mod 16)]"
      by (simp add: esc_char_def Let_def)
    then show ?thesis using hex4_esc [OF n, of r] n(2)
      by (subst parse_str.simps) (simp add: eval_nat_numeral)
  qed
qed

lemma parse_json_str [simp]: "parse_str (concat (map esc_char s) @ CHR 0x22 # r) = Some (s, r)"
proof (induction s)
  case Nil
  show ?case by (subst parse_str.simps) simp
next
  case (Cons c s)
  then show ?case by (simp add: parse_esc cons_fst_def)
qed

section \<open>Reading back a number\<close>

text \<open>What follows a number in a document does not continue it.\<close>

definition num_end :: "string \<Rightarrow> bool" where
  "num_end r \<longleftrightarrow> (case r of [] \<Rightarrow> True | c # _ \<Rightarrow> \<not> is_digit c \<and> c \<notin> {CHR ''.'', CHR ''e'', CHR ''E'', CHR ''+'', CHR ''-''})"

lemma takeWhile_end: "list_all is_digit d \<Longrightarrow> (case r of [] \<Rightarrow> True | c # _ \<Rightarrow> \<not> is_digit c) \<Longrightarrow> takeWhile is_digit (d @ r) = d"
  by (cases r) (auto simp: takeWhile_append list_all_iff takeWhile_eq_all_conv)

lemma num_end_digit: "num_end r \<Longrightarrow> case r of [] \<Rightarrow> True | c # _ \<Rightarrow> \<not> is_digit c"
  by (cases r) (auto simp: num_end_def)

lemma num_end_texts [simp]: "num_end r \<Longrightarrow> frac_text r = []" "num_end r \<Longrightarrow> exp_text r = []"
  by (cases r; auto simp: num_end_def frac_text_def exp_text_def)+

lemma digit_is_digit: "0 \<le> n \<Longrightarrow> n < 10 \<Longrightarrow> is_digit (digit n)"
  using of_char_digit [of n] by (simp add: is_digit_def Let_def)

lemma dec_pos_digits: "0 \<le> n \<Longrightarrow> list_all is_digit (dec_pos n)"
proof (induction n rule: dec_pos.induct)
  case (1 n)
  then show ?case by (subst dec_pos.simps) (auto simp: digit_is_digit)
qed

lemma dec_pos_value: "0 \<le> n \<Longrightarrow> nat_of_digits (dec_pos n) = n"
proof (induction n rule: dec_pos.induct)
  case (1 n)
  then show ?case
    by (subst dec_pos.simps) (auto simp: nat_of_digits_def of_char_digit)
qed

lemma dec_pos_zero: "0 \<le> n \<Longrightarrow> dec_pos n = CHR ''0'' # ds \<Longrightarrow> ds = []"
proof -
  have Z: "digit m = CHR ''0'' \<longleftrightarrow> m = 0" if "0 \<le> m" "m < 10" for m
    using of_char_digit [OF that] of_char_int_eqD [of "digit m" "CHR ''0''"] by auto
  have "0 \<le> n \<Longrightarrow> hd (dec_pos n) = CHR ''0'' \<Longrightarrow> n = 0" for n
  proof (induction n rule: dec_pos.induct)
    case (1 n)
    show ?case
    proof (cases "n < 10")
      case True
      then show ?thesis using 1 Z [of n] by (subst (asm) (2) dec_pos.simps) simp
    next
      case False
      then have "dec_pos n = dec_pos (n div 10) @ [digit (n mod 10)]" by (subst dec_pos.simps) simp
      then have "n div 10 = 0" using 1 False by (simp add: pos_imp_zdiv_nonneg_iff)
      then show ?thesis using False 1(2) by (simp add: zdiv_eq_0_iff)
    qed
  qed
  moreover assume "0 \<le> n" "dec_pos n = CHR ''0'' # ds"
  ultimately have "n = 0" by (metis list.sel(1))
  then have "dec_pos n = [digit 0]" by (subst dec_pos.simps) simp
  then show ?thesis using \<open>dec_pos n = CHR ''0'' # ds\<close> by simp
qed

lemma int_text_dec_pos: "0 \<le> n \<Longrightarrow> num_end r \<Longrightarrow> int_text (dec_pos n @ r) = dec_pos n"
proof -
  assume n: "0 \<le> n" and r: "num_end r"
  obtain c ds where c: "dec_pos n = c # ds" using dec_pos_not_Nil by (metis neq_Nil_conv)
  show ?thesis
  proof (cases "c = CHR ''0''")
    case True
    then show ?thesis using dec_pos_zero [OF n] c by (simp add: int_text_def)
  next
    case False
    have "takeWhile is_digit (dec_pos n @ r) = dec_pos n"
      by (rule takeWhile_end [OF dec_pos_digits [OF n] num_end_digit [OF r]])
    then show ?thesis using False c by (simp add: int_text_def)
  qed
qed

lemma parse_dec: "num_end r \<Longrightarrow> parse_num (dec n @ r) = Some (JInt n, r)"
proof (cases "n < 0")
  case True
  assume r: "num_end r"
  have s: "sign_text (dec n @ r) = ''-''" using True by (simp add: dec_def sign_text_def)
  have d: "drop 1 (dec n @ r) = dec_pos (- n) @ r" using True by (simp add: dec_def)
  show ?thesis
    using True r by (simp add: parse_num_def s d [simplified] int_text_dec_pos dec_pos_value Let_def)
next
  case False
  assume r: "num_end r"
  obtain c ds where c: "dec_pos n = c # ds" using dec_pos_not_Nil by (metis neq_Nil_conv)
  have "is_digit c" using dec_pos_digits [of n] False c by simp
  then have "c \<noteq> CHR ''-''" by (auto simp: is_digit_def)
  then have s: "sign_text (dec n @ r) = []" using False c by (simp add: dec_def sign_text_def)
  have d: "dec n = dec_pos n" using False by (simp add: dec_def)
  show ?thesis
    using False r by (simp add: parse_num_def s int_text_dec_pos dec_pos_value Let_def) (simp add: d int_text_dec_pos dec_pos_value)
qed

text \<open>A float's text is read back when it is the \<open>repr\<close> of its own value.\<close>

definition float_ok :: "string \<Rightarrow> bool" where
  "float_ok t \<longleftrightarrow> parse_num t = Some (JFloat t, []) \<and> list_all printable t"

lemma takeWhile_ext: "num_end r \<Longrightarrow> takeWhile is_digit (x @ r) = takeWhile is_digit x"
proof (induction x)
  case Nil
  then show ?case by (cases r) (auto simp: num_end_def)
qed simp

lemma text_le: "length (sign_text s) \<le> length s" "length (int_text s) \<le> length s"
  "length (frac_text s) \<le> length s" "length (exp_text s) \<le> length s"
proof -
  show "length (sign_text s) \<le> length s" by (cases s) (simp_all add: sign_text_def)
  show "length (int_text s) \<le> length s"
  proof (cases s)
    case (Cons c r)
    then show ?thesis using length_takeWhile_le [of is_digit s] by (auto simp: int_text_def)
  qed (simp add: int_text_def)
  show "length (frac_text s) \<le> length s"
  proof (cases s)
    case (Cons c r)
    then show ?thesis using length_takeWhile_le [of is_digit r] by (simp add: frac_text_def Let_def)
  qed (simp add: frac_text_def)
  show "length (exp_text s) \<le> length s"
  proof (cases s)
    case (Cons c r)
    have "length g + length (takeWhile is_digit (drop (length g) r)) \<le> length r" if "length g \<le> length r" for g :: string
      using length_takeWhile_le [of is_digit "drop (length g) r"] that by simp
    then show ?thesis using Cons by (cases r) (auto simp: exp_text_def Let_def)
  qed (simp add: exp_text_def)
qed

lemma text_ext:
  assumes "num_end r"
  shows "frac_text (x @ r) = frac_text x" "exp_text (x @ r) = exp_text x" "x \<noteq> [] \<Longrightarrow> int_text (x @ r) = int_text x"
    "x \<noteq> [] \<Longrightarrow> sign_text (x @ r) = sign_text x"
proof -
  note t = takeWhile_ext [OF assms]
  show "frac_text (x @ r) = frac_text x"
  proof (cases x)
    case (Cons c y)
    then show ?thesis by (simp add: frac_text_def t)
  next
    case Nil
    then show ?thesis using num_end_texts [OF assms] by (simp add: frac_text_def)
  qed
  show "x \<noteq> [] \<Longrightarrow> int_text (x @ r) = int_text x" "x \<noteq> [] \<Longrightarrow> sign_text (x @ r) = sign_text x"
    using t by (auto simp: int_text_def sign_text_def split: list.split)
  show "exp_text (x @ r) = exp_text x"
  proof (cases x)
    case (Cons c y)
    have r0: "takeWhile is_digit r = []" using t [of "[]"] by simp
    show ?thesis
    proof (cases y)
      case Nil
      then show ?thesis using Cons assms r0 by (cases r) (auto simp: exp_text_def num_end_def)
    next
      case (Cons d z)
      then show ?thesis using \<open>x = c # y\<close> t [of z] t [of "d # z"] by (simp add: exp_text_def)
    qed
  next
    case Nil
    then show ?thesis using num_end_texts [OF assms] by (simp add: exp_text_def)
  qed
qed

lemma drop_text: "length a \<le> length s \<Longrightarrow> drop (length a) (s @ r) = drop (length a) s @ r"
  by simp

lemma parse_num_ext:
  assumes "parse_num t = Some (v, [])" "num_end r"
  shows "parse_num (t @ r) = Some (v, r)"
proof -
  have t: "t \<noteq> []" using assms(1) by (auto simp: parse_num_def sign_text_def int_text_def)
  let ?g = "sign_text t" let ?s1 = "drop (length ?g) t" let ?i = "int_text ?s1" let ?s2 = "drop (length ?i) ?s1"
  let ?f = "frac_text ?s2" let ?s3 = "drop (length ?f) ?s2" let ?x = "exp_text ?s3"
  have i: "?i \<noteq> []" and rest: "drop (length ?x) ?s3 = []"
    using assms(1) by (auto simp: parse_num_def Let_def split: if_splits)
  have s1: "?s1 \<noteq> []" using i by (auto simp: int_text_def)
  note e = text_ext [OF assms(2)]
  have "sign_text (t @ r) = ?g" by (rule e(4) [OF t])
  moreover have "drop (length ?g) (t @ r) = ?s1 @ r" by (rule drop_text [OF text_le(1)])
  moreover have "int_text (?s1 @ r) = ?i" by (rule e(3) [OF s1])
  moreover have "drop (length ?i) (?s1 @ r) = ?s2 @ r" by (rule drop_text [OF text_le(2)])
  moreover have "frac_text (?s2 @ r) = ?f" by (rule e(1))
  moreover have "drop (length ?f) (?s2 @ r) = ?s3 @ r" by (rule drop_text [OF text_le(3)])
  moreover have "exp_text (?s3 @ r) = ?x" by (rule e(2))
  moreover have "drop (length ?x) (?s3 @ r) = r" using rest by (simp only: drop_text [OF text_le(4)] append_Nil)
  ultimately show ?thesis using assms(1) unfolding parse_num_def Let_def by (auto split: if_splits)
qed

section \<open>Reading back a value\<close>

text \<open>The values that survive the round trip: no repeated keys, floats that are their own \<open>repr\<close>.\<close>

fun plain :: "json \<Rightarrow> bool" where
  "plain (JFloat t) = float_ok t"
| "plain (JArr xs) = list_all plain xs"
| "plain (JObj kvs) = (distinct (map fst kvs) \<and> list_all (\<lambda>(k, v). plain v) kvs)"
| "plain v = True"

lemma skip_gap [simp]: "skip_ws (gap l k @ r) = skip_ws r"
  by (auto simp: gap_def skip_ws_def json_ws_def dropWhile_append split: layout.split)

lemma skip_Cons [simp]: "\<not> json_ws c \<Longrightarrow> skip_ws (c # r) = c # r"
  by (simp add: skip_ws_def)

lemma skip_seps [simp]: "skip_ws (tl (item_sep l k) @ r) = skip_ws r" "skip_ws (tl (key_sep l) @ r) = skip_ws r"
  by (cases l; simp add: item_sep_def key_sep_def skip_ws_def json_ws_def gap_def dropWhile_append)+

lemma sep_Cons: "item_sep l k = CHR '','' # tl (item_sep l k)" "key_sep l = CHR '':'' # tl (key_sep l)"
  by (simp_all add: item_sep_def key_sep_def)

lemma not_ws [simp]: "\<not> json_ws (CHR '','')" "\<not> json_ws (CHR '']'')" "\<not> json_ws (CHR ''}'')" "\<not> json_ws (CHR '':'')"
  "\<not> json_ws (CHR 0x22)" "\<not> json_ws (CHR ''['')" "\<not> json_ws (CHR ''{'')"
  by (simp_all add: json_ws_def)

lemma num_end_simps [simp]: "num_end []" "num_end (CHR '','' # r)" "num_end (CHR '']'' # r)" "num_end (CHR ''}'' # r)"
  by (simp_all add: num_end_def is_digit_def)

lemma num_end_gap [simp]: "num_end (gap l k @ CHR '']'' # r)" "num_end (gap l k @ CHR ''}'' # r)"
  by (cases l; simp add: gap_def num_end_def is_digit_def)+

lemma print_head:
  assumes "plain v"
  shows "\<exists>c r. print_json l k v = c # r \<and> \<not> json_ws c \<and> c \<notin> {CHR '']'', CHR ''}''}"
proof (cases v)
  case (JInt n)
  obtain c ds where c: "dec n = c # ds" by (metis dec_not_Nil neq_Nil_conv)
  then have "num_char c" using dec_chars [of c n] by simp
  then show ?thesis using JInt c by (auto simp: num_char_def json_ws_def)
next
  case (JFloat t)
  then have "parse_num t = Some (JFloat t, [])" using assms by (simp add: float_ok_def)
  then have i: "int_text (drop (length (sign_text t)) t) \<noteq> []" by (auto simp: parse_num_def Let_def split: if_splits)
  then obtain c r where t: "t = c # r" by (cases t) (auto simp: int_text_def)
  have "c = CHR ''-'' \<or> is_digit c"
    using i t by (auto simp: sign_text_def int_text_def is_digit_def Let_def split: if_splits)
  then show ?thesis using JFloat t by (auto simp: json_ws_def is_digit_def Let_def)
qed (auto simp: json_str_def json_ws_def)

lemma parse_num_head:
  assumes "parse_num s = Some x"
  shows "(\<exists>c r. s = c # r \<and> is_digit c) \<or> (\<exists>c r. s = CHR ''-'' # c # r \<and> is_digit c)"
proof -
  have i: "int_text (drop (length (sign_text s)) s) \<noteq> []" using assms by (auto simp: parse_num_def Let_def split: if_splits)
  have d: "\<exists>c r. y = c # r \<and> is_digit c" if "int_text y \<noteq> []" for y
    using that by (cases y) (auto simp: int_text_def is_digit_def split: if_splits)
  show ?thesis
  proof (cases "sign_text s = []")
    case True
    then show ?thesis using d [of s] i by simp
  next
    case False
    then obtain r where "s = CHR ''-'' # r" "sign_text s = ''-''" by (cases s) (auto simp: sign_text_def split: if_splits)
    then show ?thesis using d [of r] i by simp
  qed
qed

lemma parse_value_num:
  assumes "parse_num s = Some x"
  shows "parse_value (Suc n) s = Some x"
proof -
  have dig: "is_digit c \<Longrightarrow> c \<notin> {CHR 0x22, CHR ''['', CHR ''{'', CHR ''n'', CHR ''t'', CHR ''f'', CHR ''N'', CHR ''I'', CHR ''-''}" for c
    by (auto simp: is_digit_def)
  have "find (\<lambda>(t, _). starts_with t s) literals = None"
    using parse_num_head [OF assms] dig by (auto simp: literals_def starts_with_def)
  then have "parse_scalar s = Some x" using assms by (simp add: parse_scalar_def)
  then show ?thesis using parse_num_head [OF assms] dig by auto
qed

text \<open>The units of fuel a value needs.\<close>

fun weight :: "json \<Rightarrow> nat" where
  "weight (JArr xs) = Suc (length xs + sum_list (map weight xs))"
| "weight (JObj kvs) = Suc (length kvs + sum_list (map (\<lambda>(k, v). weight v) kvs))"
| "weight v = 1"

definition reads_back :: "layout \<Rightarrow> nat \<Rightarrow> json \<Rightarrow> bool" where
  "reads_back l k v \<longleftrightarrow> (\<forall>n r. num_end r \<longrightarrow> weight v \<le> n \<longrightarrow> parse_value n (print_json l k v @ r) = Some (v, r))"

lemma parse_elems_back:
  "\<forall>v\<in>set xs. plain v \<and> reads_back l k v \<Longrightarrow> xs \<noteq> [] \<Longrightarrow> length xs + sum_list (map weight xs) \<le> n \<Longrightarrow>
   parse_elems n (join (item_sep l k) (map (print_json l k) xs) @ gap l j @ CHR '']'' # r) = Some (xs, r)"
proof (induction xs arbitrary: n)
  case (Cons v vs)
  obtain m where m: "n = Suc m" using Cons.prems(3) by (cases n) auto
  have v: "parse_value m (print_json l k v @ q) = Some (v, q)" if "num_end q" for q
    using Cons.prems(1,3) that m by (simp add: reads_back_def)
  show ?case
  proof (cases vs)
    case Nil
    then show ?thesis by (simp add: m v)
  next
    case (Cons w ws)
    let ?t = "join (item_sep l k) (map (print_json l k) vs) @ gap l j @ CHR '']'' # r"
    have IH: "parse_elems m ?t = Some (vs, r)" using Cons.IH Cons.prems Cons m by simp
    obtain c q where "print_json l k w = c # q" "\<not> json_ws c" using print_head [of w l k] Cons.prems(1) Cons by auto
    then have s: "skip_ws ?t = ?t" using Cons by (cases ws) simp_all
    have "parse_value m (print_json l k v @ CHR '','' # tl (item_sep l k) @ ?t) = Some (v, CHR '','' # tl (item_sep l k) @ ?t)"
      by (rule v) simp
    then show ?thesis
      using IH s Cons by (simp add: m) (subst (1) sep_Cons(1), simp)
  qed
qed simp

lemma parse_members_back:
  "\<forall>(q, v)\<in>set kvs. plain v \<and> reads_back l k v \<Longrightarrow> kvs \<noteq> [] \<Longrightarrow> length kvs + sum_list (map (\<lambda>(q, v). weight v) kvs) \<le> n \<Longrightarrow>
   parse_members n (join (item_sep l k) (map (\<lambda>(q, v). json_str q @ key_sep l @ print_json l k v) kvs) @ gap l j @ CHR ''}'' # r) = Some (kvs, r)"
proof (induction kvs arbitrary: n)
  case (Cons qv kvs)
  obtain q v where qv: "qv = (q, v)" by fastforce
  obtain m where m: "n = Suc m" using Cons.prems(3) by (cases n) auto
  have v: "parse_value m (print_json l k v @ z) = Some (v, z)" if "num_end z" for z
    using Cons.prems(1,3) that m qv by (simp add: reads_back_def)
  obtain c z where "print_json l k v = c # z" "\<not> json_ws c" using print_head [of v l k] Cons.prems(1) qv by auto
  then have sv: "skip_ws (print_json l k v @ t) = print_json l k v @ t" for t by simp
  have key: "json_str q @ key_sep l @ print_json l k v @ t = CHR 0x22 # (concat (map esc_char q) @ CHR 0x22 # CHR '':'' # tl (key_sep l) @ print_json l k v @ t)" for t
    by (subst sep_Cons(2)) (simp add: json_str_def)
  show ?case
  proof (cases kvs)
    case Nil
    then show ?thesis by (simp add: m qv key sv v)
  next
    case (Cons w ws)
    let ?t = "join (item_sep l k) (map (\<lambda>(q, v). json_str q @ key_sep l @ print_json l k v) kvs) @ gap l j @ CHR ''}'' # r"
    have IH: "parse_members m ?t = Some (kvs, r)" using Cons.IH Cons.prems Cons m qv by simp
    have "\<exists>t. ?t = CHR 0x22 # t" using Cons by (cases w; cases ws) (simp_all add: json_str_def)
    then have s: "skip_ws ?t = ?t" by auto
    have full: "join (item_sep l k) (map (\<lambda>(q, v). json_str q @ key_sep l @ print_json l k v) (qv # kvs)) @ gap l j @ CHR ''}'' # r
      = json_str q @ key_sep l @ print_json l k v @ CHR '','' # tl (item_sep l k) @ ?t"
      using Cons by (simp add: qv) (subst (1) sep_Cons(1), simp)
    have "parse_value m (print_json l k v @ CHR '','' # tl (item_sep l k) @ ?t) = Some (v, CHR '','' # tl (item_sep l k) @ ?t)"
      by (rule v) simp
    then show ?thesis
      using IH s unfolding full key m by (simp add: sv qv)
  qed
qed simp

lemma dict_of_distinct: "distinct (map fst kvs) \<Longrightarrow> dict_of kvs = kvs"
proof -
  have "distinct (map fst (d @ kvs)) \<Longrightarrow> fold (\<lambda>(k, v). dset k v) kvs d = d @ kvs" for d
  proof (induction kvs arbitrary: d)
    case (Cons kv kvs)
    obtain k v where kv: "kv = (k, v)" by fastforce
    have "k \<notin> set (map fst d)" using Cons.prems kv by auto
    then have "dset k v d = d @ [(k, v)]" by (induction d) auto
    then show ?case using Cons.IH [of "d @ [(k, v)]"] Cons.prems kv by simp
  qed simp
  from this [of "[]"] show "distinct (map fst kvs) \<Longrightarrow> dict_of kvs = kvs" by (simp add: dict_of_def)
qed

lemma parse_value_back: "plain v \<Longrightarrow> reads_back l k v"
proof (induction v arbitrary: k rule: json.induct)
  case (JFloat t)
  then show ?case using parse_num_ext parse_value_num
    by (fastforce simp: reads_back_def float_ok_def gr0_conv_Suc dest: Suc_le_D)
next
  case (JInt i)
  show ?case using parse_dec parse_value_num by (fastforce simp: reads_back_def dest: Suc_le_D)
next
  case (JStr s)
  show ?case by (auto simp: reads_back_def json_str_def dest!: Suc_le_D)
next
  case JNull
  show ?case by (auto simp: reads_back_def parse_scalar_def literals_def starts_with_def dest!: Suc_le_D)
next
  case (JBool b)
  show ?case by (auto simp: reads_back_def parse_scalar_def literals_def starts_with_def dest!: Suc_le_D)
next
  case (JArr xs)
  show ?case unfolding reads_back_def
  proof (intro allI impI)
    fix n r assume r: "num_end r" and n: "weight (JArr xs) \<le> n"
    then obtain m where m: "n = Suc m" "length xs + sum_list (map weight xs) \<le> m" by (cases n) auto
    show "parse_value n (print_json l k (JArr xs) @ r) = Some (JArr xs, r)"
    proof (cases "xs = []")
      case False
      have all: "\<forall>v\<in>set xs. plain v \<and> reads_back l (Suc k) v" using JArr by (auto simp: list_all_iff)
      let ?t = "join (item_sep l (Suc k)) (map (print_json l (Suc k)) xs) @ gap l k @ CHR '']'' # r"
      have e: "parse_elems m ?t = Some (xs, r)" by (rule parse_elems_back [OF all False m(2)])
      obtain w ws where w: "xs = w # ws" using False by (cases xs) auto
      obtain c q where c: "print_json l (Suc k) w = c # q" "\<not> json_ws c" "c \<noteq> CHR '']''"
        using print_head [of w l "Suc k"] all w by auto
      then obtain t where "?t = c # t" using w by (cases ws) simp_all
      then show ?thesis using e c False by (simp add: m(1))
    qed (simp add: m)
  qed
next
  case (JObj kvs)
  show ?case unfolding reads_back_def
  proof (intro allI impI)
    fix n r assume r: "num_end r" and n: "weight (JObj kvs) \<le> n"
    then obtain m where m: "n = Suc m" "length kvs + sum_list (map (\<lambda>(q, v). weight v) kvs) \<le> m" by (cases n) auto
    show "parse_value n (print_json l k (JObj kvs) @ r) = Some (JObj kvs, r)"
    proof (cases "kvs = []")
      case False
      have all: "\<forall>(q, v)\<in>set kvs. plain v \<and> reads_back l (Suc k) v"
      proof (intro ballI, clarify)
        fix q v assume "(q, v) \<in> set kvs"
        moreover from this have "plain v" using JObj.prems by (auto simp: list_all_iff)
        ultimately show "plain v \<and> reads_back l (Suc k) v" using JObj.IH by (fastforce simp: snds.simps)
      qed
      let ?t = "join (item_sep l (Suc k)) (map (\<lambda>(q, v). json_str q @ key_sep l @ print_json l (Suc k) v) kvs) @ gap l k @ CHR ''}'' # r"
      have e: "parse_members m ?t = Some (kvs, r)" by (rule parse_members_back [OF all False m(2)])
      obtain w ws where w: "kvs = w # ws" using False by (cases kvs) auto
      obtain t where t: "?t = CHR 0x22 # t" using w by (cases w; cases ws) (simp_all add: json_str_def)
      have "dict_of kvs = kvs" using JObj.prems by (simp add: dict_of_distinct)
      then show ?thesis using e t False by (simp add: m(1))
    qed (simp add: m)
  qed
qed

lemma length_join: "sum_list (map length xs) \<le> length (join sep xs)"
  by (induction sep xs rule: join.induct) auto

lemma weight_print: "plain v \<Longrightarrow> Suc (weight v) \<le> 2 * length (print_json l k v)"
proof (induction v arbitrary: k rule: json.induct)
  case (JArr xs)
  have "sum_list (map (\<lambda>v. Suc (weight v)) xs) \<le> sum_list (map (\<lambda>v. 2 * length (print_json l (Suc k) v)) xs)"
    using JArr by (intro sum_list_mono) (auto simp: list_all_iff)
  then have "length xs + sum_list (map weight xs) \<le> 2 * sum_list (map (length \<circ> print_json l (Suc k)) xs)"
    by (simp add: sum_list_Suc sum_list_const_mult comp_def)
  moreover have "sum_list (map (length \<circ> print_json l (Suc k)) xs) \<le> length (join (item_sep l (Suc k)) (map (print_json l (Suc k)) xs))"
    using length_join [of "map (print_json l (Suc k)) xs"] by simp
  ultimately show ?case by simp
next
  case (JObj kvs)
  let ?f = "\<lambda>(q, v). json_str q @ key_sep l @ print_json l (Suc k) v"
  have "Suc (case p of (q, v) \<Rightarrow> weight v) \<le> 2 * length (?f p)" if p: "p \<in> set kvs" for p
  proof -
    obtain q v where qv: "p = (q, v)" by fastforce
    have "Suc (weight v) \<le> 2 * length (print_json l (Suc k) v)"
      using JObj p qv by (fastforce simp: list_all_iff snds.simps)
    then show ?thesis using qv by simp
  qed
  moreover have "length kvs + sum_list (map w kvs) \<le> 2 * sum_list (map (length \<circ> f) kvs)"
    if "\<And>p. p \<in> set kvs \<Longrightarrow> Suc (w p) \<le> 2 * length (f p)" for w :: "string \<times> json \<Rightarrow> nat" and f :: "string \<times> json \<Rightarrow> string"
    using that
  proof (induction kvs)
    case (Cons p kvs)
    have "length kvs + sum_list (map w kvs) \<le> 2 * sum_list (map (length \<circ> f) kvs)"
      by (rule Cons.IH, rule Cons.prems) simp
    moreover have "Suc (w p) \<le> 2 * length (f p)" by (rule Cons.prems) simp
    ultimately show ?case by (simp add: comp_def)
  qed simp
  ultimately have "length kvs + sum_list (map (\<lambda>(q, v). weight v) kvs) \<le> 2 * sum_list (map (length \<circ> ?f) kvs)"
    by blast
  moreover have "sum_list (map (length \<circ> ?f) kvs) \<le> length (join (item_sep l (Suc k)) (map ?f kvs))"
    using length_join [of "map ?f kvs"] by simp
  ultimately show ?case by simp
next
  case (JFloat t)
  then have "t \<noteq> []" by (auto simp: float_ok_def parse_num_def sign_text_def int_text_def)
  then show ?case by (cases t) auto
next
  case (JInt i)
  obtain c ds where "dec i = c # ds" by (metis dec_not_Nil neq_Nil_conv)
  then show ?case by simp
qed (auto simp: json_str_def)

theorem loads_print:
  assumes "plain v" "list_all json_ws tail"
  shows "loads (print_json l k v @ tail) = Some v"
proof -
  have t: "skip_ws tail = []" "num_end tail"
  proof -
    show "skip_ws tail = []" using assms(2) by (simp add: skip_ws_def list_all_iff)
    show "num_end tail" using assms(2) by (cases tail) (auto simp: num_end_def json_ws_def is_digit_def)
  qed
  obtain c r where c: "print_json l k v = c # r" "\<not> json_ws c" using print_head [OF assms(1)] by blast
  have "weight v \<le> 2 * length (print_json l k v @ tail) + 2" using weight_print [OF assms(1), of l k] by simp
  then have "parse_value (2 * length (print_json l k v @ tail) + 2) (print_json l k v @ tail) = Some (v, tail)"
    using parse_value_back [OF assms(1), of l k] t(2) unfolding reads_back_def by blast
  then show ?thesis using c t by (simp add: loads_def)
qed

section \<open>The fuel is enough\<close>

lemma parse_str_shorter: "parse_str s = Some (t, r) \<Longrightarrow> length r < length s"
proof (induction s arbitrary: t r rule: parse_str.induct)
  case (1 s)
  show ?case
  proof (cases s)
    case Nil
    then show ?thesis using 1(4) by (simp add: parse_str.simps)
  next
    case (Cons c q)
    show ?thesis
    proof (cases "c = CHR 0x22 \<or> c \<noteq> CHR 0x5C")
      case True
      then show ?thesis using 1(3) [OF Cons] 1(4) Cons
        by (subst (asm) parse_str.simps) (fastforce simp: cons_fst_def split: if_splits)
    next
      case False
      then have c: "c \<noteq> CHR 0x22" "c = CHR 0x5C" by auto
      then obtain x q' where x: "q = x # q'" using 1(4) Cons by (subst (asm) parse_str.simps) (cases q; simp)
      show ?thesis
      proof (cases "x = CHR ''u''")
        case True
        obtain n where n: "hex4 q' = Some n" "n < 256" using 1(4) Cons x True c
          by (subst (asm) parse_str.simps) (auto split: option.splits if_splits)
        then show ?thesis using 1(1) [OF Cons c x True n] 1(4) Cons x True c
          by (subst (asm) parse_str.simps) (fastforce simp: cons_fst_def)
      next
        case False
        then obtain d where d: "dget short_escapes x = Some d" using 1(4) Cons x c
          by (subst (asm) parse_str.simps) (auto split: option.splits)
        then show ?thesis using 1(2) [OF Cons c x False d] 1(4) Cons x c False
          by (subst (asm) parse_str.simps) (fastforce simp: cons_fst_def)
      qed
    qed
  qed
qed

lemma parse_scalar_shorter: "parse_scalar s = Some (v, r) \<Longrightarrow> length r < length s"
proof (cases "find (\<lambda>(t, _). starts_with t s) literals")
  case None
  assume "parse_scalar s = Some (v, r)"
  then have n: "parse_num s = Some (v, r)" using None by (simp add: parse_scalar_def)
  let ?g = "sign_text s" let ?s1 = "drop (length ?g) s" let ?i = "int_text ?s1"
  have "length r \<le> length ?s1 - length ?i" "?i \<noteq> []" using n by (auto simp: parse_num_def Let_def split: if_splits)
  then show ?thesis using text_le(2) [of ?s1] by (cases ?i) auto
next
  case (Some p)
  assume a: "parse_scalar s = Some (v, r)"
  obtain t w where p: "p = (t, w)" by fastforce
  have "p \<in> set literals" "starts_with t s" using Some p by (auto simp: find_Some_iff) (metis nth_mem)
  then have "0 < length t" "take (length t) s = t" using p by (auto simp: literals_def starts_with_def)
  moreover from this have "length t \<le> length s" by (metis length_take min.cobounded1)
  ultimately have "0 < length t" "length t \<le> length s" by auto
  moreover from this have "length s - length t < length s" by linarith
  ultimately show ?thesis using a Some p by (auto simp: parse_scalar_def)
qed

lemma skip_shorter: "length (skip_ws s) \<le> length s"
  by (simp add: skip_ws_def length_dropWhile_le)

lemma skip_tl: "skip_ws s = c # r \<Longrightarrow> length r < length s"
  using skip_shorter [of s] by simp

lemma parse_value_cases:
  assumes "parse_value (Suc n) s = Some (v, r)"
  obtains (str) q t where "s = CHR 0x22 # q" "parse_str q = Some (t, r)" "v = JStr t"
  | (arr0) q where "s = CHR ''['' # q" "skip_ws q = CHR '']'' # r" "v = JArr []"
  | (arr) q d q' vs where "s = CHR ''['' # q" "skip_ws q = d # q'" "d \<noteq> CHR '']''" "parse_elems n (d # q') = Some (vs, r)" "v = JArr vs"
  | (obj0) q where "s = CHR ''{'' # q" "skip_ws q = CHR ''}'' # r" "v = JObj []"
  | (obj) q d q' kvs where "s = CHR ''{'' # q" "skip_ws q = d # q'" "d \<noteq> CHR ''}''" "parse_members n (d # q') = Some (kvs, r)" "v = JObj (dict_of kvs)"
  | (scalar) c q where "s = c # q" "c \<notin> {CHR 0x22, CHR ''['', CHR ''{''}" "parse_scalar s = Some (v, r)"
proof (cases s)
  case Nil
  then show ?thesis using assms by simp
next
  case (Cons c q)
  consider "c = CHR 0x22" | "c = CHR ''[''" | "c = CHR ''{''" | "c \<notin> {CHR 0x22, CHR ''['', CHR ''{''}" by blast
  then show ?thesis
  proof cases
    case 2
    then show ?thesis using assms Cons arr0 arr by (cases "skip_ws q") (auto split: if_splits)
  next
    case 3
    then show ?thesis using assms Cons obj0 obj by (cases "skip_ws q") (auto split: if_splits)
  qed (use assms Cons str scalar in auto)
qed

lemma parse_elems_cases:
  assumes "parse_elems (Suc n) s = Some (vs, r)"
  obtains (last) v q where "parse_value n s = Some (v, q)" "skip_ws q = CHR '']'' # r" "vs = [v]"
  | (more) v q q' ws where "parse_value n s = Some (v, q)" "skip_ws q = CHR '','' # q'" "parse_elems n (skip_ws q') = Some (ws, r)" "vs = v # ws"
proof (cases "parse_value n s")
  case (Some x)
  obtain v q where x: "x = (v, q)" by fastforce
  then show ?thesis using assms Some last more by (cases "skip_ws q") (auto split: if_splits)
qed (use assms in simp)

lemma parse_members_cases:
  assumes "parse_members (Suc n) s = Some (kvs, r)"
  obtains (last) q k q0 q1 v q2 where "s = CHR 0x22 # q" "parse_str q = Some (k, q0)" "skip_ws q0 = CHR '':'' # q1"
      "parse_value n (skip_ws q1) = Some (v, q2)" "skip_ws q2 = CHR ''}'' # r" "kvs = [(k, v)]"
  | (more) q k q0 q1 v q2 q3 ws where "s = CHR 0x22 # q" "parse_str q = Some (k, q0)" "skip_ws q0 = CHR '':'' # q1"
      "parse_value n (skip_ws q1) = Some (v, q2)" "skip_ws q2 = CHR '','' # q3" "parse_members n (skip_ws q3) = Some (ws, r)" "kvs = (k, v) # ws"
proof -
  obtain q where s: "s = CHR 0x22 # q" using assms by (auto split: list.splits if_splits)
  obtain k q0 where k: "parse_str q = Some (k, q0)" using assms s by (auto split: option.splits)
  obtain q1 where q1: "skip_ws q0 = CHR '':'' # q1" using assms s k by (auto split: list.splits if_splits)
  obtain v q2 where v: "parse_value n (skip_ws q1) = Some (v, q2)" using assms s k q1 by (auto split: option.splits)
  show ?thesis using assms s k q1 v last more by (cases "skip_ws q2") (auto split: if_splits)
qed

definition enough_value :: "string \<Rightarrow> json \<times> string \<Rightarrow> bool" where
  "enough_value s x \<longleftrightarrow> length (snd x) < length s \<and> (\<forall>m. 2 * length s \<le> m \<longrightarrow> parse_value m s = Some x)"

definition enough_elems :: "string \<Rightarrow> json list \<times> string \<Rightarrow> bool" where
  "enough_elems s x \<longleftrightarrow> length (snd x) < length s \<and> (\<forall>m. 2 * length s < m \<longrightarrow> parse_elems m s = Some x)"

definition enough_members :: "string \<Rightarrow> (string \<times> json) list \<times> string \<Rightarrow> bool" where
  "enough_members s x \<longleftrightarrow> length (snd x) < length s \<and> (\<forall>m. 2 * length s < m \<longrightarrow> parse_members m s = Some x)"

lemma skip_len: "skip_ws q = c # r \<Longrightarrow> length r < length q"
  using skip_shorter [of q] by simp

lemma parse_fuel:
  "parse_value n s = Some x \<Longrightarrow> enough_value s x"
  "parse_elems n s = Some y \<Longrightarrow> enough_elems s y"
  "parse_members n s = Some z \<Longrightarrow> enough_members s z"
proof (induction n arbitrary: s x y z)
  case (Suc n)
  {
    case 1
    obtain v r where x: "x = (v, r)" by fastforce
    show ?case using 1 [unfolded x]
    proof (cases rule: parse_value_cases)
      case (str q t)
      then show ?thesis unfolding x enough_value_def using parse_str_shorter [of q t r] by (auto simp: gr0_conv_Suc dest!: Suc_le_D)
    next
      case (arr0 q)
      then show ?thesis unfolding x enough_value_def using skip_len [of q] by (auto dest!: Suc_le_D)
    next
      case (arr q d q' vs)
      have "enough_elems (d # q') (vs, r)" by (rule Suc.IH(2) [OF arr(4)])
      moreover have "length (d # q') \<le> length q" using skip_len [OF arr(2)] by simp
      ultimately have l: "length r < length q" "\<forall>m. 2 * length q < m \<longrightarrow> parse_elems m (d # q') = Some (vs, r)"
        by (auto simp: enough_elems_def)
      show ?thesis unfolding x enough_value_def
      proof (intro conjI allI impI)
        show "length (snd (v, r)) < length s" using l arr(1) by simp
        fix m assume m: "2 * length s \<le> m"
        then obtain k where k: "m = Suc k" "2 * length q < k" using arr(1) by (cases m) auto
        then show "parse_value m s = Some (v, r)" using l(2) arr by simp
      qed
    next
      case (obj0 q)
      then show ?thesis unfolding x enough_value_def using skip_len [of q] by (auto dest!: Suc_le_D)
    next
      case (obj q d q' kvs)
      have "enough_members (d # q') (kvs, r)" by (rule Suc.IH(3) [OF obj(4)])
      moreover have "length (d # q') \<le> length q" using skip_len [OF obj(2)] by simp
      ultimately have l: "length r < length q" "\<forall>m. 2 * length q < m \<longrightarrow> parse_members m (d # q') = Some (kvs, r)"
        by (auto simp: enough_members_def)
      show ?thesis unfolding x enough_value_def
      proof (intro conjI allI impI)
        show "length (snd (v, r)) < length s" using l obj(1) by simp
        fix m assume m: "2 * length s \<le> m"
        then obtain k where k: "m = Suc k" "2 * length q < k" using obj(1) by (cases m) auto
        then show "parse_value m s = Some (v, r)" using l(2) obj by simp
      qed
    next
      case (scalar c q)
      then show ?thesis unfolding x enough_value_def using parse_scalar_shorter [OF scalar(3)] by (auto dest!: Suc_le_D)
    qed
  next
    case 2
    obtain vs r where y: "y = (vs, r)" by fastforce
    show ?case using 2 [unfolded y]
    proof (cases rule: parse_elems_cases)
      case (last v q)
      have "enough_value s (v, q)" by (rule Suc.IH(1) [OF last(1)])
      then have v: "length q < length s" "\<forall>m. 2 * length s \<le> m \<longrightarrow> parse_value m s = Some (v, q)"
        by (auto simp: enough_value_def)
      show ?thesis unfolding y enough_elems_def
      proof (intro conjI allI impI)
        show "length (snd (vs, r)) < length s" using v(1) skip_len [OF last(2)] by simp
        fix m assume "2 * length s < m"
        then obtain k where "m = Suc k" "2 * length s \<le> k" by (cases m) auto
        then show "parse_elems m s = Some (vs, r)" using v(2) last by simp
      qed
    next
      case (more v q q' ws)
      have v: "enough_value s (v, q)" by (rule Suc.IH(1) [OF more(1)])
      have e: "enough_elems (skip_ws q') (ws, r)" by (rule Suc.IH(2) [OF more(3)])
      have l: "length (skip_ws q') < length q" using skip_len [OF more(2)] skip_shorter [of q'] by simp
      show ?thesis unfolding y enough_elems_def
      proof (intro conjI allI impI)
        show "length (snd (vs, r)) < length s" using v e l by (simp add: enough_value_def enough_elems_def)
        fix m assume m: "2 * length s < m"
        then obtain k where k: "m = Suc k" "2 * length s \<le> k" by (cases m) auto
        have "2 * length (skip_ws q') < k" using k l v by (simp add: enough_value_def)
        then show "parse_elems m s = Some (vs, r)" using k v e more by (simp add: enough_value_def enough_elems_def)
      qed
    qed
  next
    case 3
    obtain kvs r where z: "z = (kvs, r)" by fastforce
    show ?case using 3 [unfolded z]
    proof (cases rule: parse_members_cases)
      case (last q k q0 q1 v q2)
      have v: "enough_value (skip_ws q1) (v, q2)" by (rule Suc.IH(1) [OF last(4)])
      have l: "length (skip_ws q1) < length s" "length r < length q2"
        using skip_len [OF last(3)] skip_shorter [of q1] parse_str_shorter [OF last(2)] skip_len [OF last(5)] last(1) by simp_all
      show ?thesis unfolding z enough_members_def
      proof (intro conjI allI impI)
        show "length (snd (kvs, r)) < length s" using v l by (simp add: enough_value_def)
        fix m assume m: "2 * length s < m"
        then obtain j where j: "m = Suc j" "2 * length (skip_ws q1) \<le> j" using l by (cases m) auto
        then show "parse_members m s = Some (kvs, r)" using v last by (simp add: enough_value_def)
      qed
    next
      case (more q k q0 q1 v q2 q3 ws)
      have v: "enough_value (skip_ws q1) (v, q2)" by (rule Suc.IH(1) [OF more(4)])
      have e: "enough_members (skip_ws q3) (ws, r)" by (rule Suc.IH(3) [OF more(6)])
      have l: "length (skip_ws q1) < length s" "length (skip_ws q3) < length q2"
        using skip_len [OF more(3)] skip_shorter [of q1] parse_str_shorter [OF more(2)] skip_len [OF more(5)] skip_shorter [of q3] more(1)
        by simp_all
      show ?thesis unfolding z enough_members_def
      proof (intro conjI allI impI)
        show "length (snd (kvs, r)) < length s" using v e l by (simp add: enough_value_def enough_members_def)
        fix m assume m: "2 * length s < m"
        then obtain j where j: "m = Suc j" "2 * length (skip_ws q1) \<le> j" "2 * length (skip_ws q3) < j"
          using l v by (cases m) (auto simp: enough_value_def)
        then show "parse_members m s = Some (kvs, r)" using v e more by (simp add: enough_value_def enough_members_def)
      qed
    qed
  }
qed simp_all

lemma loads_fuel: "parse_value n (skip_ws s) = Some (v, r) \<Longrightarrow> parse_value (2 * length s + 2) (skip_ws s) = Some (v, r)"
proof -
  assume "parse_value n (skip_ws s) = Some (v, r)"
  then have "enough_value (skip_ws s) (v, r)" by (rule parse_fuel(1))
  moreover have "2 * length (skip_ws s) \<le> 2 * length s + 2" using skip_shorter [of s] by simp
  ultimately show ?thesis by (simp only: enough_value_def)
qed

section \<open>The characters of a document\<close>

lemma sep_chars: "c \<in> set (gap l k) \<Longrightarrow> printable c \<or> (c = CHR 0x0A \<and> (\<exists>n. l = Indent n))"
  "c \<in> set (item_sep l k) \<Longrightarrow> printable c \<or> (c = CHR 0x0A \<and> (\<exists>n. l = Indent n))"
  "c \<in> set (key_sep l) \<Longrightarrow> printable c"
  by (auto simp: gap_def item_sep_def key_sep_def printable_def Let_def split: layout.splits)

definition doc_char :: "layout \<Rightarrow> char \<Rightarrow> bool" where
  "doc_char l c \<longleftrightarrow> printable c \<or> (c = CHR 0x0A \<and> (\<exists>n. l = Indent n))"

lemma plain_floats: "plain v \<Longrightarrow> line_floats v"
  by (induction v rule: json.induct) (auto simp: float_ok_def list_all_iff snds.simps)

lemma print_chars: "plain v \<Longrightarrow> c \<in> set (print_json l k v) \<Longrightarrow> doc_char l c"
proof (induction v arbitrary: k c rule: json.induct)
  case (JArr xs)
  have e: "c \<in> set (print_json l (Suc k) x) \<Longrightarrow> doc_char l c" if "x \<in> set xs" for x
    using JArr.IH [OF that] JArr.prems(1) that by (auto simp: list_all_iff)
  show ?case
  proof (cases "xs = []")
    case False
    then have "c \<in> {CHR ''['', CHR '']''} \<or> c \<in> set (gap l (Suc k)) \<or> c \<in> set (gap l k) \<or>
        c \<in> set (join (item_sep l (Suc k)) (map (print_json l (Suc k)) xs))"
      using JArr.prems(2) by auto
    then consider "c \<in> {CHR ''['', CHR '']''}" | "c \<in> set (gap l (Suc k)) \<union> set (gap l k) \<union> set (item_sep l (Suc k))"
      | x where "x \<in> set xs" "c \<in> set (print_json l (Suc k) x)"
      using set_join [of "item_sep l (Suc k)" "map (print_json l (Suc k)) xs"] by auto
    then show ?thesis
    proof cases
      case 1
      then show ?thesis by (auto simp: doc_char_def printable_def)
    next
      case 2
      then show ?thesis using sep_chars(1,2) unfolding doc_char_def by blast
    next
      case 3
      then show ?thesis by (rule e)
    qed
  qed (use JArr.prems in \<open>auto simp: doc_char_def printable_def\<close>)
next
  case (JObj kvs)
  let ?f = "\<lambda>(q, v). json_str q @ key_sep l @ print_json l (Suc k) v"
  have e: "c \<in> set (?f p) \<Longrightarrow> doc_char l c" if p: "p \<in> set kvs" for p
  proof -
    obtain q v where qv: "p = (q, v)" by fastforce
    have pl: "plain v" using JObj.prems(1) p qv by (auto simp: list_all_iff)
    have sn: "v \<in> Basic_BNFs.snds p" unfolding qv by (simp add: prod_set_simps)
    have "c \<in> set (print_json l (Suc k) v) \<Longrightarrow> doc_char l c" by (rule JObj.IH [OF p sn pl])
    moreover assume "c \<in> set (?f p)"
    ultimately show ?thesis using qv sep_chars(3) json_str_printable by (auto simp: doc_char_def)
  qed
  show ?case
  proof (cases "kvs = []")
    case False
    then have "c \<in> {CHR ''{'', CHR ''}''} \<or> c \<in> set (gap l (Suc k)) \<or> c \<in> set (gap l k) \<or>
        c \<in> set (join (item_sep l (Suc k)) (map ?f kvs))"
      using JObj.prems(2) by auto
    then consider "c \<in> {CHR ''{'', CHR ''}''}" | "c \<in> set (gap l (Suc k)) \<union> set (gap l k) \<union> set (item_sep l (Suc k))"
      | p where "p \<in> set kvs" "c \<in> set (?f p)"
      using set_join [of "item_sep l (Suc k)" "map ?f kvs"] by auto
    then show ?thesis
    proof cases
      case 1
      then show ?thesis by (auto simp: doc_char_def printable_def)
    next
      case 2
      then show ?thesis using sep_chars(1,2) unfolding doc_char_def by blast
    next
      case 3
      then show ?thesis by (rule e)
    qed
  qed (use JObj.prems in \<open>auto simp: doc_char_def printable_def\<close>)
next
  case (JInt n)
  then show ?case using enc_printable [of "JInt n" c] by (simp add: doc_char_def)
next
  case (JFloat t)
  then show ?case by (simp add: doc_char_def float_ok_def list_all_iff)
next
  case (JStr t)
  then show ?case using json_str_printable by (simp add: doc_char_def)
qed (auto simp: doc_char_def printable_def split: if_splits)

lemma plain_canon: "plain v \<Longrightarrow> plain (canon v)"
proof (induction v rule: canon.induct)
  case (2 kvs)
  let ?g = "\<lambda>(k, v). (k, canon v)"
  have "map fst (map ?g kvs) = map fst kvs" by (induction kvs) auto
  then have "distinct (map fst (map ?g kvs))" using 2(2) by (simp only: plain.simps)
  moreover have "mset (map fst (sort_key fst ys)) = mset (map fst ys)" for ys :: jdict by simp
  ultimately have "distinct (map fst (sort_key fst (map ?g kvs)))" using mset_eq_imp_distinct_iff by blast
  then show ?case using 2 by (auto simp: list_all_iff)
qed (auto simp: list_all_iff)

end
