(* ===== verification/EvidencePack.thy ===== *)
theory EvidencePack
  imports Reports JsonText
begin

text \<open>
  The signed evidence pack of one run (\<open>src/redsim/services/evidence_pack.py\<close>): the signer, the
  builder and the offline verifier, every check of it. A file is the string of its bytes, a zip
  archive the list of its members in order, an unreadable archive is \<open>Unreadable\<close>. Ed25519 and the
  PEM codec are the \<open>crypto\<close> parameter; JSON, UTF-8 and SHA-256 are the ones of this development.
  Code points above 255 are outside the model.
\<close>

section \<open>Digests\<close>

definition pack_line :: "string \<times> string \<Rightarrow> string" where
  "pack_line ph = fst ph @ CHR 0x00 # snd ph @ [CHR 0x0A]"

definition compute_pack_hash :: "(string, string) dict \<Rightarrow> string" where
  "compute_pack_hash files = sha256 (concat (map pack_line (sort_key fst files)))"

definition pack_dumps :: "json \<Rightarrow> string" where
  "pack_dumps v = print_json (Indent 2) 0 (canon v) @ [CHR 0x0A]"

section \<open>The signer\<close>

record ('p, 'k) crypto =
  cy_private :: "string \<Rightarrow> 'p option"        \<comment> \<open>an Ed25519 private key from its PEM\<close>
  cy_pem :: "'p \<Rightarrow> string"                    \<comment> \<open>the PEM of its public key\<close>
  cy_sign :: "'p \<Rightarrow> string \<Rightarrow> string"
  cy_public :: "string \<Rightarrow> 'k option"         \<comment> \<open>an Ed25519 public key from its PEM\<close>
  cy_raw :: "'k \<Rightarrow> string"
  cy_verify :: "'k \<Rightarrow> string \<Rightarrow> string \<Rightarrow> bool"

definition public_key_id :: "('p, 'k) crypto \<Rightarrow> string \<Rightarrow> string option" where
  "public_key_id cy pem = map_option (\<lambda>k. sha256 (cy_raw cy k)) (cy_public cy pem)"

record 'p signer =
  sg_private :: 'p
  sg_key_id :: string
  sg_pem :: string

definition algorithm :: string where "algorithm = ''ed25519''"

definition signer_from_pem :: "('p, 'k) crypto \<Rightarrow> string \<Rightarrow> 'p signer option" where
  "signer_from_pem cy pem = (case cy_private cy pem of None \<Rightarrow> None
     | Some p \<Rightarrow> (case public_key_id cy (cy_pem cy p) of None \<Rightarrow> None
         | Some i \<Rightarrow> Some \<lparr>sg_private = p, sg_key_id = i, sg_pem = cy_pem cy p\<rparr>))"

text \<open>A pasted PEM may carry literal backslash-n pairs; a key that does not parse is an error.\<close>

fun unescape_newlines :: "string \<Rightarrow> string" where
  "unescape_newlines (a # b # r) =
     (if a = CHR 0x5C \<and> b = CHR ''n'' then CHR 0x0A # unescape_newlines r else a # unescape_newlines (b # r))"
| "unescape_newlines s = s"

datatype signer_error = KeyUnreadable | KeyUnparsable

definition load_evidence_signer ::
  "('p, 'k) crypto \<Rightarrow> (string \<Rightarrow> string option) \<Rightarrow> (string, string) dict \<Rightarrow> (signer_error, 'p signer option) result" where
  "load_evidence_signer cy read env =
     (let path = strip (dget_or [] env ''REDSIM_EVIDENCE_SIGNING_KEY_FILE'');
          inline = dget_or [] env ''REDSIM_EVIDENCE_SIGNING_KEY'';
          parse = (\<lambda>pem. case signer_from_pem cy pem of None \<Rightarrow> Inl KeyUnparsable | Some s \<Rightarrow> Inr (Some s))
      in if path \<noteq> [] then (case read path of None \<Rightarrow> Inl KeyUnreadable | Some pem \<Rightarrow> parse pem)
         else if strip inline \<noteq> [] then parse (strip (unescape_newlines inline) @ [CHR 0x0A])
         else Inr None)"

definition unsigned_reason :: string where
  "unsigned_reason = ''no evidence signing key is configured (REDSIM_EVIDENCE_SIGNING_KEY_FILE or ''
     @ ''REDSIM_EVIDENCE_SIGNING_KEY); generate one with `redsim evidence keygen`''"

definition signer_status :: "'p signer option \<Rightarrow> jdict" where
  "signer_status s = (case s of
      None \<Rightarrow> [(''configured'', JBool False), (''algorithm'', JNull), (''key_id'', JNull), (''reason'', JStr unsigned_reason)]
    | Some g \<Rightarrow> [(''configured'', JBool True), (''algorithm'', JStr algorithm), (''key_id'', JStr (sg_key_id g))])"

section \<open>The builder\<close>

record pack_run =
  pr_project :: string
  pr_target :: "string option"
  pr_scanner :: "string option"
  pr_mode :: "string option"
  pr_status :: string
  pr_created :: "datetime option"
  pr_completed :: "datetime option"
  pr_stage :: jdict

datatype pack_error = PackNoRun | PackNoRecord | PackStore | PackDigest string

definition iso_opt :: "datetime option \<Rightarrow> json" where
  "iso_opt v = jopt (map_option canonical_ts v)"

definition checked_bytes :: "(string \<Rightarrow> string option) \<Rightarrow> art_row \<Rightarrow> (pack_error, string) result" where
  "checked_bytes store a = (case store (af_location a) of None \<Rightarrow> Inl PackStore
     | Some raw \<Rightarrow> if sha256 raw \<noteq> af_sha a then Inl (PackDigest (af_id a)) else Inr raw)"

definition run_artifacts :: "string \<Rightarrow> art_row list \<Rightarrow> art_row list" where
  "run_artifacts rid arts = rev (sort_key (\<lambda>a. (af_created a, af_id a)) (filter (\<lambda>a. af_run a = rid) arts))"

text \<open>The snapshot's row of a format first, then the newest row of the run.\<close>

definition report_rows :: "art_row list \<Rightarrow> snapshot list \<Rightarrow> string \<Rightarrow> (string, art_row) dict" where
  "report_rows arts snaps rid =
     (let from_snap = (case newest_snapshot rid False snaps of None \<Rightarrow> []
            | Some (s, _) \<Rightarrow> concat (map (\<lambda>ext. case snapshot_artifact arts s ext of None \<Rightarrow> [] | Some a \<Rightarrow> [(ext, a)]) report_formats))
      in fold (\<lambda>a d. case ext_of_kind (af_kind a) of None \<Rightarrow> d
           | Some ext \<Rightarrow> if ext \<in> set report_formats \<and> dget d ext = None then dset ext a d else d)
           (run_artifacts rid arts) from_snap)"

definition run_json :: "string \<Rightarrow> pack_run \<Rightarrow> json" where
  "run_json rid r = JObj [(''id'', JStr rid), (''project_id'', JStr (pr_project r)),
     (''target_id'', if truthy (pr_target r) then jopt (pr_target r) else JNull), (''scanner'', jopt (pr_scanner r)),
     (''mode'', jopt (pr_mode r)), (''status'', JStr (pr_status r)), (''created_at'', iso_opt (pr_created r)),
     (''completed_at'', iso_opt (pr_completed r)), (''stage_table'', JObj (pr_stage r))]"

definition artifact_json :: "art_row \<Rightarrow> json" where
  "artifact_json a = JObj [(''id'', JStr (af_id a)), (''kind'', JStr (af_kind a)), (''sha256'', JStr (af_sha a)),
     (''size_bytes'', JInt (ar_size a)), (''content_type'', JStr (ar_ctype a)), (''created_at'', JStr (iso_utc (af_created a)))]"

definition reason_text :: "break_reason \<Rightarrow> string" where
  "reason_text r = (case r of
      SeqGap n got \<Rightarrow> ''seq gap: expected '' @ dec n @ '', got '' @ py_str got
    | PrevMismatch seq p got \<Rightarrow> ''prev_hash mismatch at seq '' @ py_str seq @ '': expected '' @ py_str (jopt p) @ '', got '' @ py_str got
    | UnknownSchema v seq \<Rightarrow> ''unknown schema_version '' @ py_str v @ '' at seq '' @ py_str seq
    | HashMismatch seq h got \<Rightarrow> ''hash mismatch at seq '' @ py_str seq @ '': expected '' @ h @ '', got '' @ py_str got)"

definition verdict_json :: "string \<Rightarrow> verification \<Rightarrow> json" where
  "verdict_json cid v = JObj [(''chain_id'', JStr cid), (''verified'', JBool (vr_verified v)),
     (''count'', JInt (int (vr_count v))), (''broken_at'', vr_broken_at v), (''reason'', jopt (map_option reason_text (vr_reason v)))]"

definition event_lines :: "jdict list \<Rightarrow> string" where
  "event_lines es = concat (map (\<lambda>e. print_json Spaced 0 (JObj e) @ [CHR 0x0A]) es)"

record 'p pack_input =
  pi_store :: "string \<Rightarrow> string option"
  pi_runs :: "(string, pack_run) dict"
  pi_arts :: "art_row list"
  pi_snaps :: "snapshot list"
  pi_chain :: "string \<Rightarrow> jdict list"
  pi_signer :: "'p signer option"
  pi_now :: string
  pi_version :: string

record pack =
  pk_entries :: "(string, string) dict"
  pk_manifest :: jdict
  pk_signed :: bool

definition all_bytes :: "(string \<Rightarrow> string option) \<Rightarrow> (string, art_row) dict \<Rightarrow> (pack_error, (string, string) dict) result" where
  "all_bytes store rows = foldl (\<lambda>acc (ext, a). rbind acc (\<lambda>d. rbind (checked_bytes store a) (\<lambda>b. Inr (d @ [(ext, b)])))) (Inr []) rows"

definition content_files :: "'p pack_input \<Rightarrow> string \<Rightarrow> pack_run \<Rightarrow> string \<Rightarrow> (string, string) dict \<Rightarrow> verification \<Rightarrow> (string, string) dict" where
  "content_files i rid r rec reports v =
     [(''run.json'', pack_dumps (run_json rid r)), (''record/run_record.json'', rec)]
     @ map (\<lambda>(ext, b). (''reports/report.'' @ ext, b)) reports
     @ [(''artifacts/index.json'', pack_dumps (JObj [(''run_id'', JStr rid),
            (''count'', JInt (int (length (run_artifacts rid (pi_arts i))))),
            (''artifacts'', JArr (map artifact_json (run_artifacts rid (pi_arts i))))])),
        (''audit/run.jsonl'', event_lines (pi_chain i (''run:'' @ rid))),
        (''audit/verification.json'', pack_dumps (verdict_json (''run:'' @ rid) v))]"

definition digests_json :: "(string, string) dict \<Rightarrow> json" where
  "digests_json ds = JObj (map (\<lambda>(p, h). (p, JStr h)) ds)"

definition pack_manifest :: "'p pack_input \<Rightarrow> string \<Rightarrow> pack_run \<Rightarrow> art_row \<Rightarrow> (string, string) dict \<Rightarrow> verification \<Rightarrow> (string, string) dict \<Rightarrow> jdict" where
  "pack_manifest i rid r rec reports v files =
     (let digests = map (\<lambda>(p, b). (p, sha256 b)) files;
          here = (\<lambda>ext. dget reports ext \<noteq> None)
      in [(''format'', JStr ''redsim-evidence-1''), (''run_id'', JStr rid), (''project_id'', JStr (pr_project r)),
          (''generated_at'', JStr (pi_now i)), (''redsim_version'', JStr (pi_version i)),
          (''record_sha256'', JStr (af_sha rec)), (''record_artifact_id'', JStr (af_id rec)),
          (''chain'', JObj [(''id'', JStr (''run:'' @ rid)), (''verified'', JBool (vr_verified v)), (''count'', JInt (int (vr_count v)))]),
          (''reports'', JObj [(''included'', JArr (map JStr (filter here report_formats))),
              (''missing'', JArr (map JStr (filter (\<lambda>e. \<not> here e) report_formats)))]),
          (''artifact_count'', JInt (int (length (run_artifacts rid (pi_arts i))))),
          (''files'', digests_json digests), (''pack_hash'', JStr (compute_pack_hash digests))])"

definition seal :: "('p, 'k) crypto \<Rightarrow> 'p signer option \<Rightarrow> string \<Rightarrow> (string, string) dict" where
  "seal cy signer manifest = (''manifest.json'', manifest) # (case signer of
      Some g \<Rightarrow> [(''manifest.sig'', to_hex (cy_sign cy (sg_private g) manifest) @ [CHR 0x0A]),
          (''signer.json'', pack_dumps (JObj [(''algorithm'', JStr algorithm), (''key_id'', JStr (sg_key_id g)),
             (''public_key_pem'', JStr (sg_pem g)), (''signed'', JBool True), (''signed_file'', JStr ''manifest.json'')]))]
    | None \<Rightarrow> [(''signer.json'', pack_dumps (JObj [(''algorithm'', JNull), (''key_id'', JNull), (''signed'', JBool False),
             (''reason'', JStr unsigned_reason)]))])"

datatype build_error = BuildPack pack_error | BuildChain audit_error

definition build_run_evidence_pack :: "('p, 'k) crypto \<Rightarrow> 'p pack_input \<Rightarrow> string \<Rightarrow> (build_error, pack) result" where
  "build_run_evidence_pack cy i rid = (case dget (pi_runs i) rid of
      None \<Rightarrow> Inl (BuildPack PackNoRun)
    | Some r \<Rightarrow> (case find (\<lambda>a. af_kind a = ''ml.run_record'') (run_artifacts rid (pi_arts i)) of
        None \<Rightarrow> Inl (BuildPack PackNoRecord)
      | Some rec \<Rightarrow> (case checked_bytes (pi_store i) rec of
          Inl e \<Rightarrow> Inl (BuildPack e)
        | Inr raw \<Rightarrow> (case all_bytes (pi_store i) (report_rows (pi_arts i) (pi_snaps i) rid) of
            Inl e \<Rightarrow> Inl (BuildPack e)
          | Inr reports \<Rightarrow> (case verify_chain (pi_chain i (''run:'' @ rid)) of
              Inl e \<Rightarrow> Inl (BuildChain e)
            | Inr v \<Rightarrow>
                let files = content_files i rid r raw reports v;
                    manifest = pack_manifest i rid r rec reports v files;
                    sealed = files @ seal cy (pi_signer i) (pack_dumps (JObj manifest));
                    prefix = ''redsim-evidence-'' @ rid @ ''/''
                in Inr \<lparr>pk_entries = map (\<lambda>(p, b). (prefix @ p, b)) (sort_key fst sealed),
                        pk_manifest = manifest, pk_signed = (pi_signer i \<noteq> None)\<rparr>)))))"

section \<open>The verifier\<close>

text \<open>\<open>bytes.decode("utf-8")\<close> for code points below 256.\<close>

fun utf8_decode :: "string \<Rightarrow> string option" where
  "utf8_decode [] = Some []"
| "utf8_decode (a # r) =
     (let n = of_char a :: int in
      if n < 128 then map_option (\<lambda>t. a # t) (utf8_decode r)
      else if n = 194 \<or> n = 195 then (case r of [] \<Rightarrow> None
        | b # r' \<Rightarrow> let m = of_char b :: int in
            if 128 \<le> m \<and> m < 192 then map_option (\<lambda>t. char_of (64 * (n - 192) + (m - 128)) # t) (utf8_decode r') else None)
      else None)"

fun unhexlify :: "string \<Rightarrow> string option" where
  "unhexlify [] = Some []"
| "unhexlify [a] = None"
| "unhexlify (a # b # r) = (case (hex_val a, hex_val b, unhexlify r) of
     (Some x, Some y, Some t) \<Rightarrow> Some (char_of (16 * x + y) # t) | _ \<Rightarrow> None)"

text \<open>\<open>decode("ascii", "replace")\<close>: any other byte becomes a character that is no hex digit.\<close>

definition ascii_replace :: "string \<Rightarrow> string" where
  "ascii_replace s = map (\<lambda>c. if (of_char c :: int) < 128 then c else CHR ''?'') s"

datatype pack_source = Unreadable | Zip "(string \<times> bool \<times> string) list"

definition read_pack :: "(string \<times> bool \<times> string) list \<Rightarrow> (string, string) dict" where
  "read_pack entries = fold (\<lambda>(name, dir, b) d. if dir then d
     else dset (if CHR ''/'' \<in> set name then after CHR ''/'' name else name) b d) entries []"

datatype problem = NotAZip | NoManifest | ManifestUnreadable | UnknownFormat json | DigestMismatch string | NotInManifest string
  | PackHashDiffers | RecordDiffers | ChainBroken "break_reason option" | NotSigned string | KeyIdDiffers | BadSignature | WrongSigner

text \<open>What the verifier raises instead of reporting: a part that is not a JSON object, text that is
  not UTF-8, a line or a signer file that is not JSON, a digest that is not a string.\<close>

datatype verify_error = NotAnObject | Undecodable | NotJson | NotAString | ChainRaises audit_error

record evidence_verification =
  ev_run :: json
  ev_format :: json
  ev_files :: bool
  ev_pack_hash :: bool
  ev_record :: bool
  ev_chain :: bool
  ev_count :: nat
  ev_sig_present :: bool
  ev_sig_valid :: bool
  ev_key_id :: "string option"
  ev_trusted :: "bool option"
  ev_problems :: "problem list"

definition no_verification :: evidence_verification where
  "no_verification = \<lparr>ev_run = JNull, ev_format = JNull, ev_files = False, ev_pack_hash = False, ev_record = False,
     ev_chain = False, ev_count = 0, ev_sig_present = False, ev_sig_valid = False, ev_key_id = None, ev_trusted = None, ev_problems = []\<rparr>"

definition ev_ok :: "evidence_verification \<Rightarrow> bool" where
  "ev_ok r \<longleftrightarrow> ev_files r \<and> ev_pack_hash r \<and> ev_record r \<and> ev_chain r \<and> ev_sig_present r \<and> ev_sig_valid r
     \<and> (case ev_trusted r of None \<Rightarrow> True | Some b \<Rightarrow> b) \<and> ev_problems r = []"

definition truthy_json :: "json \<Rightarrow> bool" where
  "truthy_json v = (case v of JNull \<Rightarrow> False | JBool b \<Rightarrow> b | JInt n \<Rightarrow> n \<noteq> 0 | JFloat t \<Rightarrow> t \<noteq> ''0.0''
     | JStr s \<Rightarrow> s \<noteq> [] | JArr xs \<Rightarrow> xs \<noteq> [] | JObj kvs \<Rightarrow> kvs \<noteq> [])"

text \<open>\<open>manifest.get(key) or {}\<close> used as a dictionary.\<close>

definition obj_or_empty :: "json \<Rightarrow> (verify_error, jdict) result" where
  "obj_or_empty v = (if \<not> truthy_json v then Inr [] else case v of JObj d \<Rightarrow> Inr d | _ \<Rightarrow> Inl NotAnObject)"

definition unhashed :: "string list" where
  "unhashed = [''manifest.json'', ''manifest.sig'', ''signer.json'']"

definition mismatched :: "(string, string) dict \<Rightarrow> jdict \<Rightarrow> string list" where
  "mismatched files recorded = map fst (filter (\<lambda>(p, want). case dget files p of None \<Rightarrow> True
     | Some b \<Rightarrow> JStr (sha256 b) \<noteq> want) (sort_key fst recorded))"

definition extra_files :: "(string, string) dict \<Rightarrow> jdict \<Rightarrow> string list" where
  "extra_files files recorded = sort (filter (\<lambda>p. p \<notin> set (map fst recorded) \<and> p \<notin> set unhashed) (map fst files))"

fun str_values :: "jdict \<Rightarrow> (string, string) dict option" where
  "str_values [] = Some []"
| "str_values ((k, v) # r) = (case (v, str_values r) of (JStr s, Some d) \<Rightarrow> Some ((k, s) # d) | _ \<Rightarrow> None)"

text \<open>The non-blank lines, each an event; the code checks the chain over the parsed events.\<close>

definition line_end :: "char \<Rightarrow> bool" where
  "line_end c = (let n = of_char c :: int in (10 \<le> n \<and> n \<le> 13) \<or> (28 \<le> n \<and> n \<le> 30) \<or> n = 133)"

fun split_lines :: "string \<Rightarrow> string \<Rightarrow> string list" where
  "split_lines acc [] = [rev acc]"
| "split_lines acc (c # r) = (if line_end c then rev acc # split_lines [] r else split_lines (c # acc) r)"

fun parse_lines :: "string list \<Rightarrow> (verify_error, json list) result" where
  "parse_lines [] = Inr []"
| "parse_lines (l # ls) = (if strip l = [] then parse_lines ls
     else case loads l of None \<Rightarrow> Inl NotJson | Some v \<Rightarrow> rbind (parse_lines ls) (\<lambda>vs. Inr (v # vs)))"

fun object_prefix :: "json list \<Rightarrow> jdict list" where
  "object_prefix (JObj d # r) = d # object_prefix r"
| "object_prefix _ = []"

definition verify_events :: "json list \<Rightarrow> (verify_error, verification) result" where
  "verify_events es = (case verify_chain (object_prefix es) of
      Inl e \<Rightarrow> Inl (ChainRaises e)
    | Inr v \<Rightarrow> if vr_verified v \<and> length (object_prefix es) < length es then Inl NotAnObject else Inr v)"

definition read_events :: "(string, string) dict \<Rightarrow> (verify_error, verification) result" where
  "read_events files = (case utf8_decode (dget_or [] files ''audit/run.jsonl'') of None \<Rightarrow> Inl Undecodable
     | Some t \<Rightarrow> rbind (parse_lines (split_lines [] t)) verify_events)"

definition read_object :: "string \<Rightarrow> (verify_error, jdict) result" where
  "read_object b = (case utf8_decode b of None \<Rightarrow> Inl Undecodable
     | Some t \<Rightarrow> (case loads t of None \<Rightarrow> Inl NotJson | Some (JObj d) \<Rightarrow> Inr d | Some _ \<Rightarrow> Inl NotAnObject))"

definition add_problem :: "bool \<Rightarrow> problem \<Rightarrow> evidence_verification \<Rightarrow> evidence_verification" where
  "add_problem b p r = (if b then r\<lparr>ev_problems := ev_problems r @ [p]\<rparr> else r)"

definition file_checks :: "(string, string) dict \<Rightarrow> jdict \<Rightarrow> jdict \<Rightarrow> (string, string) dict \<Rightarrow> evidence_verification" where
  "file_checks files m recorded digests =
     (let mis = mismatched files recorded; extra = extra_files files recorded;
          hash_ok = (JStr (compute_pack_hash digests) = jget m ''pack_hash'');
          rec_ok = (case dget files ''record/run_record.json'' of None \<Rightarrow> False
            | Some b \<Rightarrow> JStr (sha256 b) = jget m ''record_sha256'');
          fmt = jget m ''format''
      in no_verification\<lparr>ev_run := jget m ''run_id'', ev_format := fmt, ev_files := (mis = [] \<and> extra = []),
           ev_pack_hash := hash_ok, ev_record := rec_ok,
           ev_problems := (if fmt \<noteq> JStr ''redsim-evidence-1'' then [UnknownFormat fmt] else [])
              @ map DigestMismatch mis @ map NotInManifest extra
              @ (if hash_ok then [] else [PackHashDiffers]) @ (if rec_ok then [] else [RecordDiffers])\<rparr>)"

definition chain_checks :: "jdict \<Rightarrow> verification \<Rightarrow> evidence_verification \<Rightarrow> evidence_verification" where
  "chain_checks chain v r =
     (let ok = (vr_verified v \<and> eq_int (jget chain ''count'') (int (vr_count v)))
      in add_problem (\<not> ok) (ChainBroken (vr_reason v)) (r\<lparr>ev_count := vr_count v, ev_chain := ok\<rparr>))"

definition signature_checks ::
  "('p, 'k) crypto \<Rightarrow> string \<Rightarrow> string \<Rightarrow> jdict \<Rightarrow> evidence_verification \<Rightarrow> evidence_verification" where
  "signature_checks cy manifest sig_hex signer r =
     (let pem = py_str (jget signer ''public_key_pem'') in
      case (unhexlify sig_hex, cy_public cy pem) of
        (Some sg, Some k) \<Rightarrow>
          if cy_verify cy k sg manifest
          then (let i = sha256 (cy_raw cy k); same = (jget signer ''key_id'' = JStr i)
                in add_problem (\<not> same) KeyIdDiffers (r\<lparr>ev_sig_valid := same, ev_key_id := Some i\<rparr>))
          else add_problem True BadSignature r
      | _ \<Rightarrow> add_problem True BadSignature r)"

definition trust_checks ::
  "('p, 'k) crypto \<Rightarrow> string \<Rightarrow> string \<Rightarrow> string option \<Rightarrow> evidence_verification \<Rightarrow> evidence_verification" where
  "trust_checks cy manifest sig_hex trusted r = (case trusted of None \<Rightarrow> r
     | Some pem \<Rightarrow>
         let ok = (case (cy_public cy pem, unhexlify sig_hex) of
                (Some k, Some sg) \<Rightarrow> cy_verify cy k sg manifest \<and> Some (sha256 (cy_raw cy k)) = ev_key_id r | _ \<Rightarrow> False)
         in add_problem (\<not> ok) WrongSigner (r\<lparr>ev_trusted := Some ok\<rparr>))"

definition verify_manifest ::
  "('p, 'k) crypto \<Rightarrow> (string, string) dict \<Rightarrow> string \<Rightarrow> jdict \<Rightarrow> string option \<Rightarrow> (verify_error, evidence_verification) result" where
  "verify_manifest cy files manifest m trusted =
     rbind (obj_or_empty (jget m ''files'')) (\<lambda>recorded.
       case str_values recorded of None \<Rightarrow> Inl NotAString
       | Some digests \<Rightarrow>
           rbind (read_events files) (\<lambda>v.
             rbind (obj_or_empty (jget m ''chain'')) (\<lambda>chain.
               rbind (case dget_or [] files ''signer.json'' of [] \<Rightarrow> Inr [] | b \<Rightarrow> read_object b) (\<lambda>signer.
                 let r = chain_checks chain v (file_checks files m recorded digests);
                     sig_hex = strip (ascii_replace (dget_or [] files ''manifest.sig''));
                     present = (sig_hex \<noteq> [] \<and> truthy_json (jget signer ''public_key_pem''));
                     r1 = r\<lparr>ev_sig_present := present\<rparr>
                 in if \<not> present
                    then Inr (add_problem True (NotSigned (if truthy_json (jget signer ''reason'') then py_str (jget signer ''reason'') else ''the pack is not signed''))
                                (r1\<lparr>ev_trusted := (if trusted = None then None else Some False)\<rparr>))
                    else Inr (trust_checks cy manifest sig_hex trusted (signature_checks cy manifest sig_hex signer r1))))))"

definition verify_evidence_pack ::
  "('p, 'k) crypto \<Rightarrow> pack_source \<Rightarrow> string option \<Rightarrow> (verify_error, evidence_verification) result" where
  "verify_evidence_pack cy src trusted = (case src of
      Unreadable \<Rightarrow> Inr (add_problem True NotAZip no_verification)
    | Zip entries \<Rightarrow>
        let files = read_pack entries in
        case dget files ''manifest.json'' of
          None \<Rightarrow> Inr (add_problem True NoManifest no_verification)
        | Some manifest \<Rightarrow> (case utf8_decode manifest of None \<Rightarrow> Inl Undecodable
            | Some t \<Rightarrow> (case loads t of
                None \<Rightarrow> Inr (add_problem True ManifestUnreadable no_verification)
              | Some (JObj m) \<Rightarrow> verify_manifest cy files manifest m trusted
              | Some _ \<Rightarrow> Inl NotAnObject)))"

section \<open>A verified pack is the signed one\<close>

lemma add_problem_fields [simp]:
  "ev_files (add_problem b p r) = ev_files r" "ev_pack_hash (add_problem b p r) = ev_pack_hash r"
  "ev_record (add_problem b p r) = ev_record r" "ev_chain (add_problem b p r) = ev_chain r"
  "ev_sig_present (add_problem b p r) = ev_sig_present r" "ev_sig_valid (add_problem b p r) = ev_sig_valid r"
  "ev_trusted (add_problem b p r) = ev_trusted r" "ev_key_id (add_problem b p r) = ev_key_id r" "ev_count (add_problem b p r) = ev_count r"
  "ev_problems (add_problem b p r) = ev_problems r @ (if b then [p] else [])"
  by (simp_all add: add_problem_def)

lemma signature_fields [simp]:
  "ev_files (signature_checks cy m h s r) = ev_files r" "ev_pack_hash (signature_checks cy m h s r) = ev_pack_hash r"
  "ev_record (signature_checks cy m h s r) = ev_record r" "ev_chain (signature_checks cy m h s r) = ev_chain r"
  "ev_sig_present (signature_checks cy m h s r) = ev_sig_present r" "ev_trusted (signature_checks cy m h s r) = ev_trusted r"
  by (simp_all add: signature_checks_def Let_def split: option.split)

lemma trust_fields [simp]:
  "ev_files (trust_checks cy m h t r) = ev_files r" "ev_pack_hash (trust_checks cy m h t r) = ev_pack_hash r"
  "ev_record (trust_checks cy m h t r) = ev_record r" "ev_chain (trust_checks cy m h t r) = ev_chain r"
  "ev_sig_present (trust_checks cy m h t r) = ev_sig_present r" "ev_sig_valid (trust_checks cy m h t r) = ev_sig_valid r"
  by (simp_all add: trust_checks_def Let_def split: option.split)

lemma chain_fields [simp]:
  "ev_files (chain_checks c v r) = ev_files r" "ev_pack_hash (chain_checks c v r) = ev_pack_hash r"
  "ev_record (chain_checks c v r) = ev_record r"
  "ev_chain (chain_checks c v r) \<longleftrightarrow> vr_verified v \<and> eq_int (jget c ''count'') (int (vr_count v))"
  by (simp_all add: chain_checks_def Let_def)

lemma str_values_fst: "str_values d = Some x \<Longrightarrow> map fst x = map fst d"
  by (induction d arbitrary: x rule: str_values.induct) (auto split: json.splits option.splits)

text \<open>What a positive verdict with a pinned key rests on.\<close>

lemma verify_ok_facts:
  assumes "verify_evidence_pack cy (Zip es) (Some pem) = Inr r" "ev_ok r"
  shows "\<exists>manifest t m recorded v k sg. let files = read_pack es in
    dget files ''manifest.json'' = Some manifest \<and> utf8_decode manifest = Some t \<and> loads t = Some (JObj m) \<and>
    obj_or_empty (jget m ''files'') = Inr recorded \<and> mismatched files recorded = [] \<and> extra_files files recorded = [] \<and>
    read_events files = Inr v \<and> vr_verified v \<and> cy_public cy pem = Some k \<and> cy_verify cy k sg manifest"
proof -
  let ?f = "read_pack es"
  obtain manifest where man: "dget ?f ''manifest.json'' = Some manifest"
    using assms by (cases "dget ?f ''manifest.json''") (auto simp: verify_evidence_pack_def ev_ok_def add_problem_def no_verification_def Let_def)
  obtain t where t: "utf8_decode manifest = Some t"
    using assms(1) man by (cases "utf8_decode manifest") (auto simp: verify_evidence_pack_def Let_def)
  obtain m where m: "loads t = Some (JObj m)"
    using assms man t by (auto simp: verify_evidence_pack_def Let_def ev_ok_def no_verification_def split: option.splits json.splits)
  have vm: "verify_manifest cy ?f manifest m (Some pem) = Inr r"
    using assms(1) man t m by (simp add: verify_evidence_pack_def Let_def)
  obtain recorded where rec: "obj_or_empty (jget m ''files'') = Inr recorded"
    using vm by (auto simp: verify_manifest_def)
  obtain digests where dig: "str_values recorded = Some digests"
    using vm rec by (auto simp: verify_manifest_def split: option.splits)
  obtain v where v: "read_events ?f = Inr v" using vm rec dig by (auto simp: verify_manifest_def)
  obtain chain where chain: "obj_or_empty (jget m ''chain'') = Inr chain" using vm rec dig v by (auto simp: verify_manifest_def)
  obtain signer where sg: "(case dget_or [] ?f ''signer.json'' of [] \<Rightarrow> Inr [] | b \<Rightarrow> read_object b) = Inr signer"
    using vm rec dig v chain by (auto simp: verify_manifest_def rbind_def split: sum.splits)
  let ?hex = "strip (ascii_replace (dget_or [] ?f ''manifest.sig''))"
  let ?present = "?hex \<noteq> [] \<and> truthy_json (jget signer ''public_key_pem'')"
  let ?r0 = "(chain_checks chain v (file_checks ?f m recorded digests))\<lparr>ev_sig_present := ?present\<rparr>"
  have vm': "(if \<not> ?present
      then Inr (add_problem True (NotSigned (if truthy_json (jget signer ''reason'') then py_str (jget signer ''reason'') else ''the pack is not signed''))
             (?r0\<lparr>ev_trusted := if Some pem = None then None else Some False\<rparr>))
      else Inr (trust_checks cy manifest ?hex (Some pem) (signature_checks cy manifest ?hex signer ?r0))) = (Inr r :: (verify_error, _) result)"
    using vm unfolding verify_manifest_def rec rbind_simps dig option.case v chain sg Let_def .
  have present: ?present
  proof (rule ccontr)
    assume n: "\<not> ?present"
    have "ev_problems r \<noteq> []" using vm' [unfolded if_P [OF n]] by auto
    then show False using assms(2) by (simp add: ev_ok_def)
  qed
  then have "\<not> \<not> ?present" by simp
  from vm' [unfolded if_not_P [OF this]]
  have r: "r = trust_checks cy manifest ?hex (Some pem) (signature_checks cy manifest ?hex signer ?r0)" by simp
  have ok: "ev_files r" "ev_chain r" "case ev_trusted r of None \<Rightarrow> True | Some b \<Rightarrow> b" using assms(2) by (auto simp: ev_ok_def)
  have "mismatched ?f recorded = [] \<and> extra_files ?f recorded = []" using ok(1) by (simp add: r file_checks_def Let_def)
  moreover have "vr_verified v" using ok(2) by (simp add: r)
  moreover obtain k s where "cy_public cy pem = Some k" "cy_verify cy k s manifest"
    using ok(3) unfolding r trust_checks_def by (auto simp: Let_def split: option.splits)
  ultimately show ?thesis using man t m rec v by (auto simp: Let_def)
qed

lemma matched_files:
  assumes "mismatched f1 recorded = []" "mismatched f2 recorded = []" "extra_files f1 recorded = []"
    "dget f1 p = Some b" "p \<notin> set unhashed"
  shows "\<exists>c. dget f2 p = Some c \<and> sha256 c = sha256 b"
proof -
  have "p \<in> set (map fst f1)" using assms(4) by (metis domI dom_map_of_conv_image_fst list.set_map)
  then have "p \<in> set (map fst recorded)" using assms(3,5) unfolding extra_files_def by (metis (mono_tags, lifting) filter_empty_conv set_empty set_sort)
  then obtain want where w: "(p, want) \<in> set (sort_key fst recorded)" by auto
  have M: "case dget f p of None \<Rightarrow> False | Some b \<Rightarrow> JStr (sha256 b) = want" if "mismatched f recorded = []" for f
    using that w by (fastforce simp: mismatched_def filter_empty_conv split: option.splits)
  show ?thesis using M [OF assms(1)] M [OF assms(2)] assms(4) by (cases "dget f2 p") auto
qed

definition same_or_collide :: "string option \<Rightarrow> string option \<Rightarrow> bool" where
  "same_or_collide x y = (case (x, y) of
      (None, None) \<Rightarrow> True | (Some a, Some b) \<Rightarrow> a = b \<or> collide a b | _ \<Rightarrow> False)"

text \<open>C35. Two packs that verify under one trusted key and carry the same manifest agree byte for
  byte on every file outside the seal (manifest, signature, signer), none missing and none added,
  except where the two packs' contents of that file are themselves different byte strings with
  one SHA-256 digest; the manifest is signed by the trusted key and the
  carried audit chain verifies.\<close>

theorem verified_pack_authentic:
  assumes "verify_evidence_pack cy (Zip e1) (Some pem) = Inr r1" "ev_ok r1"
    "verify_evidence_pack cy (Zip e2) (Some pem) = Inr r2" "ev_ok r2"
    "dget (read_pack e1) ''manifest.json'' = dget (read_pack e2) ''manifest.json''"
  shows "(\<exists>manifest k sg. dget (read_pack e1) ''manifest.json'' = Some manifest \<and> cy_public cy pem = Some k \<and> cy_verify cy k sg manifest) \<and>
    (\<exists>v. read_events (read_pack e1) = Inr v \<and> vr_verified v) \<and>
    (\<forall>p. p \<in> set unhashed \<or> same_or_collide (dget (read_pack e1) p) (dget (read_pack e2) p))"
proof -
  obtain manifest t m rec v k sg where f1: "dget (read_pack e1) ''manifest.json'' = Some manifest" "utf8_decode manifest = Some t"
    "loads t = Some (JObj m)" "obj_or_empty (jget m ''files'') = Inr rec" "mismatched (read_pack e1) rec = []"
    "extra_files (read_pack e1) rec = []" "read_events (read_pack e1) = Inr v" "vr_verified v" "cy_public cy pem = Some k"
    "cy_verify cy k sg manifest"
    using verify_ok_facts [OF assms(1,2)] unfolding Let_def by blast
  have f2: "mismatched (read_pack e2) rec = []" "extra_files (read_pack e2) rec = []"
    using verify_ok_facts [OF assms(3,4)] f1(1-4) assms(5) unfolding Let_def by auto
  have "same_or_collide (dget (read_pack e1) p) (dget (read_pack e2) p)" if p: "p \<notin> set unhashed" for p
  proof (cases "dget (read_pack e1) p")
    case (Some b)
    obtain c where c: "dget (read_pack e2) p = Some c" "sha256 c = sha256 b"
      using matched_files [OF f1(5) f2(1) f1(6) Some p] by blast
    then show ?thesis using Some by (simp add: same_or_collide_def collide_def)
  next
    case None
    then show ?thesis using matched_files [OF f2(1) f1(5) f2(2) _ p] by (cases "dget (read_pack e2) p") (auto simp: same_or_collide_def)
  qed
  then show ?thesis using f1 by blast
qed

section \<open>A built pack verifies\<close>

lemma utf8_ascii: "\<forall>c\<in>set s. (of_char c :: int) < 128 \<Longrightarrow> utf8_decode s = Some s"
  by (induction s) auto

lemma doc_ascii: "doc_char l c \<Longrightarrow> (of_char c :: int) < 128"
  by (auto simp: doc_char_def printable_def Let_def)

lemma utf8_print: "plain v \<Longrightarrow> utf8_decode (print_json l k v) = Some (print_json l k v)"
  by (rule utf8_ascii) (blast dest: print_chars doc_ascii)

lemma utf8_dumps: "plain v \<Longrightarrow> utf8_decode (pack_dumps v) = Some (pack_dumps v)"
proof (rule utf8_ascii)
  assume "plain v"
  then show "\<forall>c\<in>set (pack_dumps v). (of_char c :: int) < 128"
    using print_chars [OF plain_canon] doc_ascii by (fastforce simp: pack_dumps_def)
qed

lemma loads_dumps: "plain v \<Longrightarrow> loads (pack_dumps v) = Some (canon v)"
  unfolding pack_dumps_def by (rule loads_print) (simp_all add: plain_canon json_ws_def)

lemma unhexlify_to_hex: "unhexlify (to_hex b) = Some b"
proof (induction b)
  case (Cons c b)
  let ?n = "of_char c :: int"
  have n: "0 \<le> ?n div 16" "?n div 16 \<le> 15" "0 \<le> ?n mod 16" "?n mod 16 \<le> 15"
    using of_char_int_bounds [of c] by auto
  have "char_of (16 * (?n div 16) + ?n mod 16) = c" by (simp only: mult_div_mod_eq char_of_char)
  then show ?case using Cons n by (simp add: to_hex_def)
qed (simp add: to_hex_def)

lemma split_lines_line:
  "\<forall>c\<in>set l. \<not> line_end c \<Longrightarrow> split_lines acc (l @ CHR 0x0A # r) = (rev acc @ l) # split_lines [] r"
  by (induction l arbitrary: acc) (auto simp: line_end_def Let_def)

lemma line_chars: "plain v \<Longrightarrow> c \<in> set (print_json Spaced k v) \<Longrightarrow> \<not> line_end c"
  by (drule (1) print_chars) (auto simp: doc_char_def printable_def line_end_def Let_def)

lemma strip_not_Nil: "\<not> is_space c \<Longrightarrow> strip (c # s) \<noteq> []"
proof -
  assume c: "\<not> is_space c"
  have "c \<in> set (dropWhile is_space (rev (c # s)))" using c by (simp add: dropWhile_append)
  then show ?thesis using c by (auto simp: strip_def lstrip_def)
qed

lemma parse_event_lines:
  "\<forall>e\<in>set es. plain (JObj e) \<Longrightarrow> parse_lines (split_lines [] (event_lines es)) = Inr (map JObj es)"
proof (induction es)
  case Nil
  show ?case by (simp add: event_lines_def strip_def lstrip_def)
next
  case (Cons e es)
  have e: "plain (JObj e)" using Cons.prems by simp
  let ?l = "print_json Spaced 0 (JObj e)"
  have "\<forall>c\<in>set ?l. \<not> line_end c" using line_chars [OF e] by blast
  then have s: "split_lines [] (event_lines (e # es)) = ?l # split_lines [] (event_lines es)"
    using split_lines_line [of ?l "[]" "event_lines es"] by (simp add: event_lines_def)
  have "\<exists>r. ?l = CHR ''{'' # r" by auto
  then have "strip ?l \<noteq> []" using strip_not_Nil [of "CHR ''{''"] by (auto simp: is_space_def)
  moreover have "loads ?l = Some (JObj e)" using loads_print [OF e, of "[]" Spaced 0] by simp
  ultimately show ?case using Cons s by simp
qed

lemma utf8_events: "\<forall>e\<in>set es. plain (JObj e) \<Longrightarrow> utf8_decode (event_lines es) = Some (event_lines es)"
proof (rule utf8_ascii)
  assume es: "\<forall>e\<in>set es. plain (JObj e)"
  have "(of_char c :: int) < 128" if "e \<in> set es" "c \<in> set (print_json Spaced 0 (JObj e))" for e c
    using doc_ascii [OF print_chars [OF _ that(2)]] es that(1) by blast
  then show "\<forall>c\<in>set (event_lines es). (of_char c :: int) < 128"
    by (auto simp: event_lines_def simp del: print_json.simps)
qed

lemma object_prefix_map [simp]: "object_prefix (map JObj es) = es"
  by (induction es) auto

lemma sort_key_idem: "sort_key f (sort_key f xs) = sort_key f xs"
  by (simp add: sort_key_id_if_sorted)

lemma sort_key_map_fst: "sort_key fst (map (\<lambda>(k, v). (k, g v)) xs) = map (\<lambda>(k, v). (k, g v)) (sort_key fst xs)"
proof -
  have "insort_key fst (k, g v) (map (\<lambda>(k, v). (k, g v)) ys) = map (\<lambda>(k, v). (k, g v)) (insort_key fst (k, v) ys)" for k v ys
    by (induction ys) auto
  note ins = this
  show ?thesis
  proof (induction xs)
    case (Cons x xs)
    obtain k v where "x = (k, v)" by fastforce
    then show ?case using Cons ins by simp
  qed simp
qed

lemma jget_canon:
  assumes "canon (JObj d) = JObj d'" "distinct (map fst d)"
  shows "jget d' k = canon (jget d k)"
proof -
  let ?g = "map (\<lambda>(k, v). (k, canon v))"
  have "map fst (?g d) = map fst d" by (induction d) auto
  then have "distinct (map fst (?g d))" using assms(2) by (simp only:)
  then have "dget (sort_key fst (?g d)) k = dget (?g d) k" by (rule map_of_sort_key)
  then have "dget d' k = dget (?g d) k" using assms(1) by (simp only: canon.simps json.inject)
  also have "\<dots> = map_option canon (dget d k)" by (induction d) auto
  finally show ?thesis by (simp add: jget_def split: option.split)
qed

lemma canon_obj: "\<exists>d'. canon (JObj d) = JObj d' \<and> (d' = [] \<longleftrightarrow> d = [])"
proof -
  have "length (sort_key fst (map (\<lambda>(k, v). (k, canon v)) d)) = length d" by simp
  then show ?thesis by (metis canon.simps(2) length_0_conv)
qed

lemma str_values_map: "str_values (map (\<lambda>(p, h). (p, JStr h)) ds) = Some ds"
  by (induction ds) auto

lemma fst_map_snd [simp]: "map fst (map (\<lambda>(p, b). (p, g b)) xs) = map fst xs"
  by (induction xs) auto

lemma read_pack_prefixed:
  assumes "distinct (map fst xs)" "CHR ''/'' \<notin> set pre"
  shows "read_pack (map (\<lambda>(n, b). (n, False, b)) (map (\<lambda>(p, b). ((pre @ ''/'') @ p, b)) xs)) = xs"
proof -
  have a: "after CHR ''/'' (pre @ CHR ''/'' # p) = p" for p
  proof -
    have "dropWhile (\<lambda>x. x \<noteq> CHR ''/'') (pre @ CHR ''/'' # p) = CHR ''/'' # p"
      using assms(2) by (subst dropWhile_append2) auto
    then show ?thesis by (simp add: after_def)
  qed
  have "fold (\<lambda>(name, dir, b) d. if dir then d else dset (if CHR ''/'' \<in> set name then after CHR ''/'' name else name) b d)
      (map (\<lambda>(n, b). (n, False, b)) (map (\<lambda>(p, b). ((pre @ ''/'') @ p, b)) ys)) d = d @ ys"
    if "distinct (map fst (d @ ys))" for ys d
    using that
  proof (induction ys arbitrary: d)
    case (Cons y ys)
    obtain p b where y: "y = (p, b)" by fastforce
    have "p \<notin> set (map fst d)" using Cons.prems y by auto
    then have "dset p b d = d @ [(p, b)]" by (induction d) auto
    then show ?case using Cons.IH [of "d @ [(p, b)]"] Cons.prems y a by simp
  qed simp
  from this [of "[]" xs] show ?thesis using assms(1) by (simp add: read_pack_def)
qed

subsection \<open>The keys of a built pack\<close>

lemma first_rows_fst: "map fst (concat (map (\<lambda>x. case f x of None \<Rightarrow> [] | Some a \<Rightarrow> [(x, a)]) es)) = filter (\<lambda>x. f x \<noteq> None) es"
  by (induction es) (auto split: option.split)

lemma report_rows_keys:
  "distinct (map fst (report_rows arts snaps rid)) \<and> set (map fst (report_rows arts snaps rid)) \<subseteq> set report_formats"
proof -
  let ?P = "\<lambda>d. distinct (map fst d) \<and> set (map fst d) \<subseteq> set report_formats"
  have step: "?P d \<Longrightarrow> ?P (fold (\<lambda>a d. case ext_of_kind (af_kind a) of None \<Rightarrow> d
        | Some ext \<Rightarrow> if ext \<in> set report_formats \<and> dget d ext = None then dset ext a d else d) as d)" for d as
  proof (induction as arbitrary: d)
    case (Cons a as)
    have "?P (case ext_of_kind (af_kind a) of None \<Rightarrow> d
        | Some ext \<Rightarrow> if ext \<in> set report_formats \<and> dget d ext = None then dset ext a d else d)"
      using Cons.prems by (auto split: option.split simp: distinct_update dom_update)
    then show ?case using Cons.IH by simp
  qed simp
  have "?P (case newest_snapshot rid False snaps of None \<Rightarrow> []
     | Some (s, _) \<Rightarrow> concat (map (\<lambda>ext. case snapshot_artifact arts s ext of None \<Rightarrow> [] | Some a \<Rightarrow> [(ext, a)]) report_formats))"
  proof (cases "newest_snapshot rid False snaps")
    case (Some x)
    obtain s n where "x = (s, n)" by fastforce
    moreover have "distinct (filter (\<lambda>e. snapshot_artifact arts s e \<noteq> None) report_formats)"
      by (rule distinct_filter) (simp add: report_formats_def)
    ultimately show ?thesis using Some by (simp add: first_rows_fst del: list.map map_concat)
  qed simp
  then show ?thesis unfolding report_rows_def Let_def by (rule step)
qed

lemma all_bytes_fst: "all_bytes store rows = Inr d \<Longrightarrow> map fst d = map fst rows"
proof -
  let ?f = "\<lambda>acc (ext, a). rbind acc (\<lambda>d. rbind (checked_bytes store a) (\<lambda>b. Inr (d @ [(ext, b)])))"
  have stuck: "foldl ?f (Inl e) rows = Inl e" for e rows by (induction rows) auto
  have "foldl ?f (Inr d0) rows = Inr d \<Longrightarrow> map fst d = map fst d0 @ map fst rows" for d0
  proof (induction rows arbitrary: d0)
    case (Cons x rows)
    obtain ext a where x: "x = (ext, a)" by fastforce
    then show ?case using Cons by (cases "checked_bytes store a") (auto simp: stuck)
  qed simp
  from this [of "[]"] show "all_bytes store rows = Inr d \<Longrightarrow> map fst d = map fst rows" by (simp add: all_bytes_def)
qed

lemma content_keys:
  "map fst (content_files i rid r raw reports v) =
     [''run.json'', ''record/run_record.json''] @ map (\<lambda>e. ''reports/report.'' @ e) (map fst reports)
     @ [''artifacts/index.json'', ''audit/run.jsonl'', ''audit/verification.json'']"
  by (simp add: content_files_def case_prod_beta')

lemma seal_keys: "set (map fst (seal cy sg m)) \<subseteq> set unhashed" "distinct (map fst (seal cy sg m))"
  by (auto simp: seal_def unhashed_def split: option.split)

lemma content_distinct: "distinct (map fst reports) \<Longrightarrow> distinct (map fst (content_files i rid r raw reports v))"
  unfolding content_keys by (auto simp: distinct_map inj_on_def)

lemma content_not_seal: "p \<in> set (map fst (content_files i rid r raw reports v)) \<Longrightarrow> p \<notin> set unhashed"
  unfolding content_keys by (auto simp: unhashed_def)

lemma hex_strip: "strip (ascii_replace (to_hex b @ [CHR 0x0A])) = to_hex b"
proof -
  have h: "(of_char c :: int) < 128 \<and> \<not> is_space c" if "c \<in> set (to_hex b)" for c
  proof -
    obtain x where "c \<in> {hex_digit (of_char x div 16), hex_digit (of_char x mod 16)}" using \<open>c \<in> set (to_hex b)\<close> by (auto simp: to_hex_def)
    moreover have "0 \<le> (of_char x :: int) mod 16" "(of_char x :: int) mod 16 \<le> 15" "0 \<le> (of_char x :: int) div 16" "(of_char x :: int) div 16 \<le> 15"
      using nibble_bounds [OF of_char_int_bounds [of x]] by blast+
    ultimately obtain d where d: "0 \<le> d" "d \<le> 15" "c = hex_digit d" by blast
    have "(of_char c :: int) \<in> {48..57} \<union> {97..102}" using d by (auto simp: hex_digit_def)
    moreover have "(of_char c :: int) = int (of_char c)" by (simp add: of_nat_of_char)
    ultimately show ?thesis by (auto simp: is_space_def Let_def)
  qed
  have "ascii_replace (to_hex b) = to_hex b" using h by (simp add: ascii_replace_def map_idI)
  then have a: "ascii_replace (to_hex b @ [CHR 0x0A]) = to_hex b @ [CHR 0x0A]" by (simp add: ascii_replace_def)
  have n: "is_space (CHR 0x0A)" by (simp add: is_space_def)
  show ?thesis
  proof (cases "to_hex b")
    case Nil
    then show ?thesis unfolding a by (simp add: strip_def lstrip_def n)
  next
    case (Cons c t)
    have l: "lstrip (to_hex b @ [CHR 0x0A]) = to_hex b @ [CHR 0x0A]" using h Cons by (simp add: lstrip_def)
    obtain y ys where y: "rev (to_hex b) = y # ys" using Cons by (metis neq_Nil_conv rev_is_Nil_conv list.distinct(1))
    then have "\<not> is_space y" using h [of y] by (metis list.set_intros(1) set_rev)
    then show ?thesis unfolding a strip_def l using y by (simp add: lstrip_def n)
  qed
qed

subsection \<open>The verdict on a built pack\<close>

definition crypto_ok :: "('p, 'k) crypto \<Rightarrow> bool" where
  "crypto_ok cy \<longleftrightarrow> (\<forall>p m. cy_pem cy p \<noteq> [] \<and> cy_sign cy p m \<noteq> [] \<and>
     (\<exists>k. cy_public cy (cy_pem cy p) = Some k \<and> cy_verify cy k (cy_sign cy p m) m))"

lemma read_object_dumps:
  assumes "plain (JObj d)"
  obtains d' where "read_object (pack_dumps (JObj d)) = Inr d'" "\<And>k. jget d' k = canon (jget d k)"
proof -
  obtain d' where c: "canon (JObj d) = JObj d'" using canon_obj by blast
  have "read_object (pack_dumps (JObj d)) = Inr d'"
    unfolding read_object_def using utf8_dumps [OF assms] loads_dumps [OF assms] c by simp
  moreover have "\<And>k. jget d' k = canon (jget d k)" using jget_canon [OF c] assms by simp
  ultimately show ?thesis by (rule that)
qed

lemma plain_texts [simp]: "list_all plain (map JStr xs)" "plain (jopt x)"
  by (induction xs) (auto simp: jopt_def split: option.split)

lemma manifest_plain:
  assumes "distinct (map fst files)"
  shows "plain (JObj (pack_manifest i rid r rec reports v files))"
proof -
  have "list_all (\<lambda>(k, v). plain v) (map (\<lambda>(p, h). (p, JStr h)) ds)" for ds :: "(string, string) dict" by (induction ds) auto
  then have P: "distinct (map fst ds) \<Longrightarrow> plain (digests_json ds)" for ds
    unfolding digests_json_def plain.simps fst_map_snd by blast
  have "plain (digests_json (map (\<lambda>(p, b). (p, sha256 b)) files))"
    by (rule P) (simp only: fst_map_snd assms)
  then show ?thesis by (simp add: pack_manifest_def Let_def)
qed

lemma manifest_fields:
  shows "jget (pack_manifest i rid r rec reports v files) ''format'' = JStr ''redsim-evidence-1''" "jget (pack_manifest i rid r rec reports v files) ''record_sha256'' = JStr (af_sha rec)"
    "jget (pack_manifest i rid r rec reports v files) ''chain'' = JObj [(''id'', JStr (''run:'' @ rid)), (''verified'', JBool (vr_verified v)), (''count'', JInt (int (vr_count v)))]"
    "jget (pack_manifest i rid r rec reports v files) ''files'' = digests_json (map (\<lambda>(p, b). (p, sha256 b)) files)"
    "jget (pack_manifest i rid r rec reports v files) ''pack_hash'' = JStr (compute_pack_hash (map (\<lambda>(p, b). (p, sha256 b)) files))"
  by (simp_all add: pack_manifest_def Let_def)

text \<open>The file checks of a built pack all pass.\<close>

lemma built_file_checks:
  assumes files: "distinct (map fst content)" "\<And>p. p \<in> set (map fst content) \<Longrightarrow> p \<notin> set unhashed"
    and sealed: "\<And>p b. dget content p = Some b \<Longrightarrow> dget files p = Some b" "set (map fst files) \<subseteq> set (map fst content) \<union> set unhashed"
    and rec: "dget content ''record/run_record.json'' = Some raw" "af_sha rec = sha256 raw"
    and m': "\<And>k. jget m' k = canon (jget (pack_manifest i rid r rec reports v content) k)"
    and ds_def: "ds = map (\<lambda>(p, b). (p, sha256 b)) content"
  shows "obj_or_empty (jget m' ''files'') = Inr (map (\<lambda>(p, h). (p, JStr h)) (sort_key fst ds))"
    and "file_checks files m' (map (\<lambda>(p, h). (p, JStr h)) (sort_key fst ds)) (sort_key fst ds) =
      no_verification\<lparr>ev_run := jget m' ''run_id'', ev_format := JStr ''redsim-evidence-1'', ev_files := True, ev_pack_hash := True,
        ev_record := True, ev_problems := []\<rparr>"
proof -
  let ?rc = "map (\<lambda>(p, h). (p, JStr h)) (sort_key fst ds)"
  have "canon (JObj (map (\<lambda>(p, h). (p, JStr h)) ds)) = JObj (map (\<lambda>(p, h). (p, JStr h)) (sort_key fst ds))"
  proof -
    have "map (\<lambda>(k, v). (k, canon v)) (map (\<lambda>(p, h). (p, JStr h)) ds) = map (\<lambda>(p, h). (p, JStr h)) ds" by (induction ds) auto
    then show ?thesis by (simp only: canon.simps sort_key_map_fst)
  qed
  then have j: "jget m' ''files'' = JObj ?rc" unfolding m' manifest_fields ds_def [symmetric] digests_json_def .
  have ne: "content \<noteq> []" using rec(1) by auto
  then have "sort_key fst ds \<noteq> []" by (metis ds_def length_0_conv length_map length_sort)
  then have "?rc \<noteq> []" by simp
  then show "obj_or_empty (jget m' ''files'') = Inr ?rc" by (simp add: j obj_or_empty_def truthy_json_def)
  have "sort_key fst ?rc = ?rc" by (simp only: sort_key_map_fst sort_key_idem)
  moreover have "dget files p = Some b \<and> h = sha256 b" if ph: "(p, h) \<in> set (sort_key fst ds)" "dget files p = Some b \<or> dget files p = None" for p h b
  proof -
    obtain c where c: "(p, c) \<in> set content" "h = sha256 c" using ph(1) by (force simp: ds_def)
    then have "dget content p = Some c" using files(1) by simp
    then have "dget files p = Some c" by (rule sealed(1))
    then show ?thesis using ph(2) c(2) by auto
  qed
  then have "mismatched files ?rc = []"
    unfolding mismatched_def \<open>sort_key fst ?rc = ?rc\<close> by (force simp: filter_empty_conv split: option.split)
  moreover have "set (map fst ?rc) = set (map fst content)" by (simp add: ds_def image_image case_prod_beta')
  then have "extra_files files ?rc = []"
  proof -
    assume "set (map fst ?rc) = set (map fst content)"
    then have "filter (\<lambda>p. p \<notin> set (map fst ?rc) \<and> p \<notin> set unhashed) (map fst files) = []"
      using sealed(2) unfolding filter_empty_conv by blast
    then show ?thesis by (simp only: extra_files_def sort_key_simps)
  qed
  moreover have "compute_pack_hash (sort_key fst ds) = compute_pack_hash ds"
    by (simp only: compute_pack_hash_def sort_key_idem)
  then have "JStr (compute_pack_hash (sort_key fst ds)) = jget m' ''pack_hash''"
    unfolding m' manifest_fields ds_def [symmetric] by simp
  moreover have "dget files ''record/run_record.json'' = Some raw" by (rule sealed(1) [OF rec(1)])
  moreover have "JStr (sha256 raw) = jget m' ''record_sha256''" unfolding m' manifest_fields rec(2) by simp
  moreover have "jget m' ''format'' = JStr ''redsim-evidence-1''" unfolding m' manifest_fields by simp
  ultimately show "file_checks files m' ?rc (sort_key fst ds) =
      no_verification\<lparr>ev_run := jget m' ''run_id'', ev_format := JStr ''redsim-evidence-1'', ev_files := True, ev_pack_hash := True,
        ev_record := True, ev_problems := []\<rparr>"
    by (simp add: file_checks_def Let_def)
qed

text \<open>The verifier on a signed pack whose parts parse, and the last two checks with the right key.\<close>

lemma verify_manifest_signed:
  assumes "obj_or_empty (jget m ''files'') = Inr recorded" "str_values recorded = Some ds" "read_events files = Inr v"
    "obj_or_empty (jget m ''chain'') = Inr chain" "dget files ''signer.json'' = Some b" "b \<noteq> []" "read_object b = Inr s"
    "strip (ascii_replace (dget_or [] files ''manifest.sig'')) = hex" "hex \<noteq> []" "truthy_json (jget s ''public_key_pem'')"
  shows "verify_manifest cy files manifest m trusted = Inr (trust_checks cy manifest hex trusted (signature_checks cy manifest hex s
    ((chain_checks chain v (file_checks files m recorded ds))\<lparr>ev_sig_present := True\<rparr>)))"
proof -
  have sg: "(case dget_or [] files ''signer.json'' of [] \<Rightarrow> Inr [] | x # y \<Rightarrow> read_object (x # y)) = Inr s"
    using assms(5-7) by (cases b) (simp_all add: dget_or_def)
  show ?thesis unfolding verify_manifest_def assms(1-4) rbind_simps option.case sg Let_def assms(8)
    using assms(9,10) by simp
qed

lemma right_key_ok:
  assumes "cy_public cy pem = Some k" "cy_verify cy k sg manifest" "jget s ''public_key_pem'' = JStr pem"
    "jget s ''key_id'' = JStr (sha256 (cy_raw cy k))" "trusted = None \<or> trusted = Some pem"
    "ev_problems r = []" "ev_files r" "ev_pack_hash r" "ev_record r" "ev_chain r" "ev_sig_present r" "ev_trusted r = None"
  shows "ev_ok (trust_checks cy manifest (to_hex sg) trusted (signature_checks cy manifest (to_hex sg) s r))"
proof -
  have "signature_checks cy manifest (to_hex sg) s r = r\<lparr>ev_sig_valid := True, ev_key_id := Some (sha256 (cy_raw cy k))\<rparr>"
    using assms(1-4) by (simp add: signature_checks_def unhexlify_to_hex py_str_def add_problem_def)
  then show ?thesis using assms(1,2,5-) by (auto simp: trust_checks_def unhexlify_to_hex add_problem_def ev_ok_def)
qed

lemma pack_verifies:
  assumes "crypto_ok cy" "signer_from_pem cy pem = Some g" "pi_signer i = Some g"
    "build_run_evidence_pack cy i rid = Inr pk" "CHR ''/'' \<notin> set rid"
    "\<forall>e\<in>set (pi_chain i (''run:'' @ rid)). plain (JObj e)" "verify_ok (pi_chain i (''run:'' @ rid))"
    "trusted = None \<or> trusted = Some (sg_pem g)"
  shows "\<exists>r. verify_evidence_pack cy (Zip (map (\<lambda>(n, b). (n, False, b)) (pk_entries pk))) trusted = Inr r \<and> ev_ok r"
proof -
  let ?es = "pi_chain i (''run:'' @ rid)"
  obtain k where g: "cy_public cy (sg_pem g) = Some k" "sg_key_id g = sha256 (cy_raw cy k)" "sg_pem g = cy_pem cy (sg_private g)"
    using assms(2) by (auto simp: signer_from_pem_def public_key_id_def split: option.splits)
  obtain r rec raw reports v where b: "find (\<lambda>a. af_kind a = ''ml.run_record'') (run_artifacts rid (pi_arts i)) = Some rec"
    "checked_bytes (pi_store i) rec = Inr raw" "all_bytes (pi_store i) (report_rows (pi_arts i) (pi_snaps i) rid) = Inr reports"
    "verify_chain ?es = Inr v"
    "pk_entries pk = (let files = content_files i rid r raw reports v;
        sealed = files @ seal cy (Some g) (pack_dumps (JObj (pack_manifest i rid r rec reports v files)))
      in map (\<lambda>(p, b). ((''redsim-evidence-'' @ rid @ ''/'') @ p, b)) (sort_key fst sealed))"
    using assms(3,4) unfolding build_run_evidence_pack_def Let_def by (auto split: option.splits sum.splits)
  let ?content = "content_files i rid r raw reports v"
  let ?m = "pack_manifest i rid r rec reports v ?content"
  let ?man = "pack_dumps (JObj ?m)" let ?seal = "seal cy (Some g) ?man"
  let ?files = "sort_key fst (?content @ ?seal)"
  let ?ds = "map (\<lambda>(p, b). (p, sha256 b)) ?content" let ?rc = "map (\<lambda>(p, h). (p, JStr h)) (sort_key fst ?ds)"
  have "distinct (map fst reports)" using all_bytes_fst [OF b(3)] report_rows_keys by metis
  then have dc: "distinct (map fst ?content)" by (rule content_distinct)
  have dall: "distinct (map fst (?content @ ?seal))"
    using dc seal_keys content_not_seal by (fastforce simp del: set_map)
  have get: "dget ?files p = dget (?content @ ?seal) p" for p by (rule map_of_sort_key [OF dall])
  have keep: "dget ?content p = Some x \<Longrightarrow> dget ?files p = Some x" for p x by (simp add: get map_of_append map_add_def split: option.split)
  have sealed: "p \<in> set unhashed \<Longrightarrow> dget ?files p = dget ?seal p" for p
  proof -
    assume "p \<in> set unhashed"
    then have "p \<notin> set (map fst ?content)" using content_not_seal by blast
    then have "dget ?content p = None" by (simp add: map_of_eq_None_iff)
    then show ?thesis by (simp add: get map_add_def split: option.split)
  qed
  have fst_files: "set (map fst ?files) \<subseteq> set (map fst ?content) \<union> set unhashed"
  proof -
    have "set (map fst ?files) = set (map fst ?content) \<union> set (map fst ?seal)" by (simp add: image_Un)
    then show ?thesis using seal_keys(1) by blast
  qed
  have pre: "CHR ''/'' \<notin> set (''redsim-evidence-'' @ rid)" using assms(5) by simp
  have dfiles: "distinct (map fst ?files)" using dall by (metis mset_eq_imp_distinct_iff mset_map mset_sort)
  have read: "read_pack (map (\<lambda>(n, b). (n, False, b)) (pk_entries pk)) = ?files"
    using read_pack_prefixed [OF dfiles pre] b(5) by (simp add: Let_def)
  have man: "dget ?files ''manifest.json'' = Some ?man" "dget ?files ''manifest.sig'' = Some (to_hex (cy_sign cy (sg_private g) ?man) @ [CHR 0x0A])"
    by (subst sealed; simp add: seal_def unhashed_def)+
  obtain m' where m': "canon (JObj ?m) = JObj m'" using canon_obj by blast
  have mp: "plain (JObj ?m)" by (rule manifest_plain [OF dc])
  have mj: "jget m' k = canon (jget ?m k)" for k using jget_canon [OF m'] mp by simp
  have t: "utf8_decode ?man = Some ?man" "loads ?man = Some (JObj m')" using utf8_dumps [OF mp] loads_dumps [OF mp] m' by simp_all
  have rec: "dget ?content ''record/run_record.json'' = Some raw" by (simp add: content_files_def)
  have sha: "af_sha rec = sha256 raw" using b(2) by (auto simp: checked_bytes_def split: option.splits if_splits)
  have chk: "obj_or_empty (jget m' ''files'') = Inr ?rc"
    "file_checks ?files m' ?rc (sort_key fst ?ds) =
      no_verification\<lparr>ev_run := jget m' ''run_id'', ev_format := JStr ''redsim-evidence-1'', ev_files := True, ev_pack_hash := True,
        ev_record := True, ev_problems := []\<rparr>"
    by (rule built_file_checks [OF dc _ _ fst_files rec sha mj refl], erule content_not_seal, erule keep)+
  have "dget ?content ''audit/run.jsonl'' = Some (event_lines ?es)"
  proof -
    have "dget (map (\<lambda>(ext, y). (''reports/report.'' @ ext, y)) reports) ''audit/run.jsonl'' = None" for reports :: "(string, string) dict"
      by (auto simp: map_of_eq_None_iff)
    then show ?thesis by (auto simp: content_files_def map_add_def split: option.splits)
  qed
  then have ev: "dget ?files ''audit/run.jsonl'' = Some (event_lines ?es)" by (rule keep)
  have vv: "vr_verified v" "read_events ?files = Inr v"
    using assms(6,7) b(4) ev parse_event_lines [OF assms(6)] utf8_events [OF assms(6)]
    by (simp_all add: verify_ok_def read_events_def dget_or_def verify_events_def)
  obtain chain where chain: "jget m' ''chain'' = JObj chain" "chain \<noteq> []" "jget chain ''count'' = JInt (int (vr_count v))"
  proof -
    let ?c = "[(''id'', JStr (''run:'' @ rid)), (''verified'', JBool (vr_verified v)), (''count'', JInt (int (vr_count v)))]"
    obtain c' where c': "canon (JObj ?c) = JObj c'" "c' \<noteq> []" using canon_obj [of ?c] by blast
    have "jget c' ''count'' = JInt (int (vr_count v))" using jget_canon [OF c'(1), of "''count''"] by simp
    moreover have "jget m' ''chain'' = JObj c'" unfolding mj manifest_fields(3) by (rule c'(1))
    ultimately show ?thesis using c'(2) by (intro that)
  qed
  let ?s = "[(''algorithm'', JStr algorithm), (''key_id'', JStr (sg_key_id g)), (''public_key_pem'', JStr (sg_pem g)),
     (''signed'', JBool True), (''signed_file'', JStr ''manifest.json'')]"
  obtain s' where s': "read_object (pack_dumps (JObj ?s)) = Inr s'" "\<And>k. jget s' k = canon (jget ?s k)"
    by (rule read_object_dumps [of ?s]) simp_all
  have sj: "dget ?files ''signer.json'' = Some (pack_dumps (JObj ?s))" by (subst sealed) (simp_all add: seal_def unhashed_def)
  have sne: "pack_dumps (JObj ?s) \<noteq> []" by (simp add: pack_dumps_def)
  let ?sig = "cy_sign cy (sg_private g) ?man"
  have sg: "?sig \<noteq> []" "cy_verify cy k ?sig ?man" "sg_pem g \<noteq> []"
    using assms(1) g(1,3) unfolding crypto_ok_def by (metis option.inject)+
  have hex: "strip (ascii_replace (dget_or [] ?files ''manifest.sig'')) = to_hex ?sig" by (simp add: dget_or_def man hex_strip)
  have hne: "to_hex ?sig \<noteq> []" using sg(1) by (cases ?sig) (simp_all add: to_hex_def)
  have sp: "jget s' ''public_key_pem'' = JStr (sg_pem g)" "jget s' ''key_id'' = JStr (sha256 (cy_raw cy k))" by (simp_all add: s'(2) g(2))
  let ?r0 = "no_verification\<lparr>ev_run := jget m' ''run_id'', ev_format := JStr ''redsim-evidence-1'', ev_files := True, ev_pack_hash := True,
        ev_record := True, ev_problems := []\<rparr>"
  have cc: "obj_or_empty (jget m' ''chain'') = Inr chain" using chain by (simp add: obj_or_empty_def truthy_json_def)
  have tr: "truthy_json (jget s' ''public_key_pem'')" using sp(1) sg(3) by (simp add: truthy_json_def)
  have "verify_evidence_pack cy (Zip (map (\<lambda>(n, b). (n, False, b)) (pk_entries pk))) trusted
      = verify_manifest cy ?files ?man m' trusted"
    by (simp add: verify_evidence_pack_def read man t Let_def)
  also have "\<dots> = Inr (trust_checks cy ?man (to_hex ?sig) trusted (signature_checks cy ?man (to_hex ?sig) s'
      ((chain_checks chain v ?r0)\<lparr>ev_sig_present := True\<rparr>)))"
    using verify_manifest_signed [OF chk(1) str_values_map vv(2) cc sj sne s'(1) hex hne tr] unfolding chk(2) .
  finally have run: "verify_evidence_pack cy (Zip (map (\<lambda>(n, b). (n, False, b)) (pk_entries pk))) trusted
      = Inr (trust_checks cy ?man (to_hex ?sig) trusted (signature_checks cy ?man (to_hex ?sig) s'
      ((chain_checks chain v ?r0)\<lparr>ev_sig_present := True\<rparr>)))" .
  have c1: "chain_checks chain v ?r0 = ?r0\<lparr>ev_count := vr_count v, ev_chain := True\<rparr>"
    using vv(1) chain(3) by (simp add: chain_checks_def add_problem_def Let_def)
  have "ev_ok (trust_checks cy ?man (to_hex ?sig) trusted (signature_checks cy ?man (to_hex ?sig) s'
      ((chain_checks chain v ?r0)\<lparr>ev_sig_present := True\<rparr>)))"
    unfolding c1 by (rule right_key_ok [OF g(1) sg(2) sp(1,2) assms(8)]) (simp_all add: no_verification_def)
  with run show ?thesis by blast
qed

text \<open>C36. A pack built with a signer from a run whose audit chain verifies passes every check of
  the offline verifier, with no trusted key or with the signer's own: file digests, pack hash,
  record digest, chain and count, signature and key id. Assumed of the cryptography: a signature
  verifies under the public key of its private key.\<close>

theorem built_pack_verifies:
  assumes "crypto_ok cy" "signer_from_pem cy pem = Some g" "pi_signer i = Some g"
    "build_run_evidence_pack cy i rid = Inr pk" "CHR ''/'' \<notin> set rid"
    "\<forall>e\<in>set (pi_chain i (''run:'' @ rid)). plain (JObj e)" "verify_ok (pi_chain i (''run:'' @ rid))"
    "trusted = None \<or> trusted = Some (sg_pem g)"
  shows "\<exists>r. verify_evidence_pack cy (Zip (map (\<lambda>(n, b). (n, False, b)) (pk_entries pk))) trusted = Inr r \<and> ev_ok r"
  using assms by (rule pack_verifies)

section \<open>A concrete pack\<close>

definition sample_crypto :: "(string, string) crypto" where
  "sample_crypto = \<lparr>cy_private = Some, cy_pem = (\<lambda>p. ''pem '' @ p), cy_sign = (\<lambda>p m. ''s'' @ p),
     cy_public = (\<lambda>pem. if take 4 pem = ''pem '' then Some (drop 4 pem) else None), cy_raw = id, cy_verify = (\<lambda>k s m. s = ''s'' @ k)\<rparr>"

definition sample_signer :: "string signer" where
  "sample_signer = \<lparr>sg_private = ''a'', sg_key_id = sha256 ''a'', sg_pem = ''pem a''\<rparr>"

definition sample_input :: "jdict \<Rightarrow> string pack_input" where
  "sample_input e = \<lparr>pi_store = (\<lambda>l. Some ''{}''),
     pi_runs = [(''r1'', \<lparr>pr_project = ''p'', pr_target = None, pr_scanner = None, pr_mode = None, pr_status = ''succeeded'',
       pr_created = None, pr_completed = None, pr_stage = []\<rparr>)],
     pi_arts = [\<lparr>af_id = ''a1'', af_run = ''r1'', af_kind = ''ml.run_record'', af_created = 0, af_location = ''l'',
       af_sha = sha256 ''{}'', ar_project = ''p'', ar_size = 2, ar_ctype = ''application/json''\<rparr>],
     pi_snaps = [], pi_chain = (\<lambda>c. [e]), pi_signer = Some sample_signer, pi_now = ''now'', pi_version = ''1''\<rparr>"

lemma sample_crypto_ok: "crypto_ok sample_crypto"
  by (simp add: crypto_ok_def sample_crypto_def)

lemma sample_signer_loaded: "signer_from_pem sample_crypto ''a'' = Some sample_signer"
  by (simp add: signer_from_pem_def public_key_id_def sample_crypto_def sample_signer_def)

lemma sample_event: "\<exists>e. verify_ok [e] \<and> plain (JObj e)"
proof -
  let ?c = "\<lparr>ac_action = ''run.cancel'', ac_actor = ''alice'', ac_target = None, ac_check = ''n/a'',
    ac_override = False, ac_success = True, ac_detail = [], ac_run = Some ''r1'', ac_project = None\<rparr>"
  let ?w = "\<lparr>jl_files = [], jl_single = None\<rparr>"
  have l: "linked None 1 (jl_read (call_chain ?c) ?w)" and nil: "jl_read (call_chain ?c) ?w = []"
    by (simp_all add: jl_read_def)
  obtain b p h w' where a: "jl_append ?c 0 ?w = Inr (w', with_hash b h)"
    and b: "b = base_record (call_chain ?c) (JInt 1) (canonical_ts (DT 0 (Some 0))) ?c (redact_detail (ac_detail ?c)) (jopt None)"
    using jl_append_eq [OF l, of 0] nil by (auto simp: Let_def)
  have "linked None 1 [with_hash b h]" using jl_append_linked [OF l a] jl_read_append [OF l a] nil by simp
  moreover have "plain (JObj (with_hash b h))" by (simp add: b base_record_def with_hash_def redact_detail_def)
  ultimately show ?thesis by (auto simp: verify_ok_iff simp del: linked.simps)
qed

lemma sample_built:
  assumes "verify_ok [e]"
  shows "\<exists>pk. build_run_evidence_pack sample_crypto (sample_input e) ''r1'' = Inr pk"
proof -
  obtain v where "verify_chain [e] = Inr v" using assms by (auto simp: verify_ok_def split: sum.splits)
  then show ?thesis
    by (simp add: build_run_evidence_pack_def sample_input_def run_artifacts_def report_rows_def checked_bytes_def
      newest_snapshot_def snapshot_rows_def ext_of_kind_def all_bytes_def Let_def)
qed

theorem built_pack_verifies_witness:
  "\<exists>e pk r. verify_ok [e] \<and> build_run_evidence_pack sample_crypto (sample_input e) ''r1'' = Inr pk \<and>
     verify_evidence_pack sample_crypto (Zip (map (\<lambda>(n, b). (n, False, b)) (pk_entries pk))) (Some (sg_pem sample_signer)) = Inr r \<and> ev_ok r"
proof -
  obtain e where e: "verify_ok [e]" "plain (JObj e)" using sample_event by blast
  obtain pk where pk: "build_run_evidence_pack sample_crypto (sample_input e) ''r1'' = Inr pk" using sample_built [OF e(1)] by blast
  have i: "pi_signer (sample_input e) = Some sample_signer" "\<forall>x\<in>set (pi_chain (sample_input e) (''run:'' @ ''r1'')). plain (JObj x)"
    "verify_ok (pi_chain (sample_input e) (''run:'' @ ''r1''))" using e by (simp_all add: sample_input_def)
  have "CHR ''/'' \<notin> set ''r1''" by simp
  then show ?thesis
    using built_pack_verifies [OF sample_crypto_ok sample_signer_loaded i(1) pk _ i(2,3) disjI2 [OF refl]] e(1) pk by blast
qed

theorem verified_pack_authentic_witness:
  "\<exists>e1 pem r manifest. verify_evidence_pack sample_crypto (Zip e1) (Some pem) = Inr r \<and> ev_ok r \<and>
     dget (read_pack e1) ''manifest.json'' = Some manifest \<and> (\<exists>k sg. cy_public sample_crypto pem = Some k \<and> cy_verify sample_crypto k sg manifest)"
proof -
  obtain e where e: "verify_ok [e]" "plain (JObj e)" using sample_event by blast
  obtain pk where pk: "build_run_evidence_pack sample_crypto (sample_input e) ''r1'' = Inr pk" using sample_built [OF e(1)] by blast
  have i: "pi_signer (sample_input e) = Some sample_signer" "\<forall>x\<in>set (pi_chain (sample_input e) (''run:'' @ ''r1'')). plain (JObj x)"
    "verify_ok (pi_chain (sample_input e) (''run:'' @ ''r1''))" using e by (simp_all add: sample_input_def)
  have "CHR ''/'' \<notin> set ''r1''" by simp
  then obtain r where r: "verify_evidence_pack sample_crypto (Zip (map (\<lambda>(n, b). (n, False, b)) (pk_entries pk))) (Some (sg_pem sample_signer)) = Inr r" "ev_ok r"
    using pack_verifies [OF sample_crypto_ok sample_signer_loaded i(1) pk _ i(2,3) disjI2 [OF refl]] by blast
  show ?thesis using verified_pack_authentic [OF r r refl] r by blast
qed

end
