(* ===== verification/Worm.thy ===== *)
theory Worm
  imports EvidencePack
begin

text \<open>
  The write-once archive of the audit chains: the blob stores (\<open>src/redsim/storage/blobs.py\<close>,
  \<open>src/redsim/storage/s3.py\<close>), the export (\<open>src/redsim/storage/worm.py\<close>) and the periodic task
  (\<open>src/redsim/workers/tasks/worm_export.py\<close>). A store is a state with its operations; the file
  store is written out, the S3 client is a parameter. The export is proved against the promises
  every store keeps: what is stored stays, and under its own digest.
\<close>

section \<open>Blob stores\<close>

record blob_ref =
  br_sha :: string
  br_location :: string
  br_size :: nat
  br_ctype :: string

datatype store_error = StoreType | StoreMissing | StoreUnsealed | StoreClient

text \<open>\<open>pathlib\<close>: the parts of a path; an absolute right operand of \<open>/\<close> replaces the left one.\<close>

definition path_parts :: "string \<Rightarrow> string list" where
  "path_parts key = filter (\<lambda>p. p \<noteq> [] \<and> p \<noteq> ''.'') (split_on CHR ''/'' key)"

definition path_name :: "string \<Rightarrow> string" where
  "path_name key = (if path_parts key = [] then [] else last (path_parts key))"

definition under :: "string list \<Rightarrow> string \<Rightarrow> string list" where
  "under base key = (if starts_with ''/'' key then path_parts key else base @ path_parts key)"

text \<open>\<open>FilesystemBlobStore\<close>: files by the parts of their path.\<close>

record fs_store =
  fs_base :: "string list"
  fs_files :: "(string list, string) dict"

definition digest_path :: "fs_store \<Rightarrow> string \<Rightarrow> string list" where
  "digest_path w d = fs_base w @ [take 2 d, d]"

definition path_text :: "string list \<Rightarrow> string" where
  "path_text ps = CHR ''/'' # join ''/'' ps"

definition fs_put :: "string \<Rightarrow> string \<Rightarrow> string \<Rightarrow> fs_store \<Rightarrow> fs_store \<times> blob_ref" where
  "fs_put key data ctype w =
     (let d = sha256 data; p = digest_path w d in
      (if dget (fs_files w) p = None then w\<lparr>fs_files := dset p data (fs_files w)\<rparr> else w,
       \<lparr>br_sha = d, br_location = path_text p, br_size = length data, br_ctype = ctype\<rparr>))"

definition fs_get :: "string \<Rightarrow> fs_store \<Rightarrow> string option" where
  "fs_get key w =
     (let d = path_name key; p = digest_path w d in
      if d \<noteq> [] \<and> dget (fs_files w) p \<noteq> None then dget (fs_files w) p
      else dget (fs_files w) (under (fs_base w) key))"

text \<open>\<open>S3BlobStore\<close> over a client of one bucket.\<close>

record 's s3_client =
  s3_head :: "string \<Rightarrow> 's \<Rightarrow> bool"
  s3_put_object :: "string \<Rightarrow> string \<Rightarrow> string \<Rightarrow> (string \<times> int) option \<Rightarrow> 's \<Rightarrow> (store_error, 's) result"
  s3_get_object :: "string \<Rightarrow> 's \<Rightarrow> string option"
  s3_lock_status :: "'s \<Rightarrow> string option"       \<comment> \<open>\<open>None\<close>: the request for the configuration raised\<close>

definition assert_object_lock_enabled :: "'s s3_client \<Rightarrow> 's \<Rightarrow> (store_error, unit) result" where
  "assert_object_lock_enabled c w = (if s3_lock_status c w = Some ''Enabled'' then Inr () else Inl StoreUnsealed)"

definition s3_put :: "'s s3_client \<Rightarrow> string \<Rightarrow> string \<Rightarrow> string \<Rightarrow> string \<Rightarrow> (string \<times> int) option \<Rightarrow> 's \<Rightarrow> (store_error, 's \<times> blob_ref) result" where
  "s3_put c bucket key data ctype lock w =
     (let d = sha256 data; k = key @ ''/'' @ d;
          ref = \<lparr>br_sha = d, br_location = ''s3://'' @ bucket @ ''/'' @ k, br_size = length data, br_ctype = ctype\<rparr>
      in if s3_head c k w then Inr (w, ref)
         else rbind (case lock of None \<Rightarrow> Inr () | Some _ \<Rightarrow> assert_object_lock_enabled c w) (\<lambda>_.
           rbind (s3_put_object c k data ctype lock w) (\<lambda>w'. Inr (w', ref))))"

text \<open>\<open>s3://bucket/key\<close> or the key alone; a URI without a key is an \<open>IndexError\<close>.\<close>

definition s3_key_of :: "string \<Rightarrow> string option" where
  "s3_key_of key = (if starts_with ''s3://'' key
     then (if length (split_on CHR ''/'' key) \<le> 3 then None else Some (join ''/'' (drop 3 (split_on CHR ''/'' key))))
     else Some key)"

definition s3_get :: "'s s3_client \<Rightarrow> string \<Rightarrow> 's \<Rightarrow> string option" where
  "s3_get c key w = (case s3_key_of key of None \<Rightarrow> None | Some k \<Rightarrow> s3_get_object c k w)"

section \<open>The archive\<close>

text \<open>
  What the archive uses of a store: \<open>put\<close> with a retention (a store without Object Lock raises
  \<open>TypeError\<close> for the unknown keywords), the plain \<open>put\<close>, and the probe \<open>_already_archived\<close>.
\<close>

record 'w blob_api =
  ba_put_locked :: "string \<Rightarrow> string \<Rightarrow> string \<Rightarrow> string \<times> int \<Rightarrow> 'w \<Rightarrow> (store_error, 'w \<times> blob_ref) result"
  ba_put :: "string \<Rightarrow> string \<Rightarrow> string \<Rightarrow> 'w \<Rightarrow> (store_error, 'w \<times> blob_ref) result"
  ba_archived :: "string \<Rightarrow> string \<Rightarrow> 'w \<Rightarrow> bool"

definition fs_api :: "fs_store blob_api" where
  "fs_api = \<lparr>ba_put_locked = (\<lambda>key data ctype lock w. Inl StoreType),
     ba_put = (\<lambda>key data ctype w. Inr (fs_put key data ctype w)),
     ba_archived = (\<lambda>key sha w. fs_get sha w \<noteq> None)\<rparr>"

definition s3_api :: "'s s3_client \<Rightarrow> string \<Rightarrow> 's blob_api" where
  "s3_api c bucket = \<lparr>ba_put_locked = (\<lambda>key data ctype lock. s3_put c bucket key data ctype (Some lock)),
     ba_put = (\<lambda>key data ctype. s3_put c bucket key data ctype None),
     ba_archived = (\<lambda>key sha w. s3_head c (key @ ''/'' @ sha) w)\<rparr>"

definition canonical_jsonl :: "jdict list \<Rightarrow> string" where
  "canonical_jsonl es = concat (map (\<lambda>e. json_dumps_sorted (JObj e) @ [CHR 0x0A]) es)"

record worm =
  wm_days :: int
  wm_mode :: string

definition worm_put :: "'w blob_api \<Rightarrow> string \<Rightarrow> string \<Rightarrow> string \<Rightarrow> string \<times> int \<Rightarrow> 'w \<Rightarrow> (store_error, 'w \<times> blob_ref) result" where
  "worm_put api key data ctype lock w = (case ba_put_locked api key data ctype lock w of
      Inl StoreType \<Rightarrow> ba_put api key data ctype w | r \<Rightarrow> r)"

definition head_seq :: "jdict list \<Rightarrow> json" where
  "head_seq es = (case dget (last es) ''seq'' of None \<Rightarrow> JInt (int (length es)) | Some v \<Rightarrow> v)"

definition key_prefix :: "string \<Rightarrow> jdict list \<Rightarrow> string" where
  "key_prefix cid es = ''audit/'' @ cid @ ''/'' @ py_str (head_seq es) @ ''-'' @ take 8 (sha256 (canonical_jsonl es))"

definition jsonl_key :: "string \<Rightarrow> jdict list \<Rightarrow> string" where
  "jsonl_key cid es = key_prefix cid es @ ''.jsonl''"

definition manifest_key :: "string \<Rightarrow> jdict list \<Rightarrow> string" where
  "manifest_key cid es = key_prefix cid es @ ''.manifest.json''"

text \<open>The two readings of the clock: for the retention and for \<open>exported_at\<close>, in microseconds.\<close>

definition retain_until :: "worm \<Rightarrow> int \<Rightarrow> int" where
  "retain_until a now = now + wm_days a * 86400000000"

definition worm_manifest :: "worm \<Rightarrow> string \<Rightarrow> jdict list \<Rightarrow> bool \<Rightarrow> int \<times> int \<Rightarrow> jdict" where
  "worm_manifest a cid es verified clock =
     [(''chain_id'', JStr cid), (''event_count'', JInt (int (length es))), (''head_seq'', head_seq es),
      (''head_hash'', case dget (last es) ''this_hash'' of None \<Rightarrow> JStr [] | Some v \<Rightarrow> v),
      (''verified'', JBool verified), (''exported_at'', JStr (iso_utc (snd clock))),
      (''retention_until'', JStr (iso_utc (retain_until a (fst clock)))), (''lock_mode'', JStr (wm_mode a)),
      (''jsonl_sha256'', JStr (sha256 (canonical_jsonl es)))]"

definition archive_chain :: "worm \<Rightarrow> 'w blob_api \<Rightarrow> string \<Rightarrow> jdict list \<Rightarrow> bool \<Rightarrow> int \<times> int \<Rightarrow> 'w \<Rightarrow>
    (store_error, 'w \<times> blob_ref option) result" where
  "archive_chain a api cid es verified clock w =
     (if es = [] then Inr (w, None)
      else if ba_archived api (jsonl_key cid es) (sha256 (canonical_jsonl es)) w then Inr (w, None)
      else let lock = (wm_mode a, retain_until a (fst clock)) in
        rbind (worm_put api (jsonl_key cid es) (canonical_jsonl es) ''application/x-ndjson'' lock w) (\<lambda>(w1, ref).
        rbind (worm_put api (manifest_key cid es) (json_dumps_sorted (JObj (worm_manifest a cid es verified clock)))
            ''application/json'' lock w1) (\<lambda>(w2, _). Inr (w2, Some ref))))"

record export_summary =
  es_total :: nat
  es_archived :: nat
  es_skipped :: nat
  es_objects :: nat
  es_bytes :: nat
  es_broken :: "string list"

definition no_export :: export_summary where
  "no_export = \<lparr>es_total = 0, es_archived = 0, es_skipped = 0, es_objects = 0, es_bytes = 0, es_broken = []\<rparr>"

datatype export_error = ExportStore store_error | ExportAudit audit_error

text \<open>One chain of \<open>export_all\<close>. \<open>read\<close> is \<open>read_chain\<close> of the audit writer, \<open>clk\<close> the clock.\<close>

definition export_chain :: "worm \<Rightarrow> 'w blob_api \<Rightarrow> (string \<Rightarrow> jdict list) \<Rightarrow> bool \<Rightarrow> (string \<Rightarrow> int \<times> int) \<Rightarrow> string \<Rightarrow>
    'w \<times> export_summary \<Rightarrow> (export_error, 'w \<times> export_summary) result" where
  "export_chain a api read vfy clk cid st =
     (let (w, s) = st; s = s\<lparr>es_total := Suc (es_total s)\<rparr>; es = read cid in
      if es = [] then Inr (w, s\<lparr>es_skipped := Suc (es_skipped s)\<rparr>)
      else case (if vfy then verify_chain es else Inr \<lparr>vr_verified = True, vr_count = 0, vr_broken_at = JNull, vr_reason = None, vr_chain = JNull\<rparr>) of
        Inl e \<Rightarrow> Inl (ExportAudit e)
      | Inr v \<Rightarrow>
          let s = (if vr_verified v then s else s\<lparr>es_broken := es_broken s @ [cid]\<rparr>) in
          (case archive_chain a api cid es (vr_verified v) (clk cid) w of
             Inl e \<Rightarrow> Inl (ExportStore e)
           | Inr (w', None) \<Rightarrow> Inr (w', s\<lparr>es_skipped := Suc (es_skipped s)\<rparr>)
           | Inr (w', Some ref) \<Rightarrow> Inr (w', s\<lparr>es_archived := Suc (es_archived s), es_objects := es_objects s + 2,
                 es_bytes := es_bytes s + br_size ref\<rparr>)))"

fun export_loop :: "worm \<Rightarrow> 'w blob_api \<Rightarrow> (string \<Rightarrow> jdict list) \<Rightarrow> bool \<Rightarrow> (string \<Rightarrow> int \<times> int) \<Rightarrow> string list \<Rightarrow>
    'w \<times> export_summary \<Rightarrow> (export_error, 'w \<times> export_summary) result" where
  "export_loop a api read vfy clk [] st = Inr st"
| "export_loop a api read vfy clk (cid # cids) st =
     rbind (export_chain a api read vfy clk cid st) (export_loop a api read vfy clk cids)"

definition export_all :: "worm \<Rightarrow> 'w blob_api \<Rightarrow> (string \<Rightarrow> jdict list) \<Rightarrow> bool \<Rightarrow> (string \<Rightarrow> int \<times> int) \<Rightarrow> string list \<Rightarrow> 'w \<Rightarrow>
    (export_error, 'w \<times> export_summary) result" where
  "export_all a api read vfy clk cids w = export_loop a api read vfy clk cids (w, no_export)"

section \<open>The periodic task\<close>

definition worm_export_enabled :: "(string, string) dict \<Rightarrow> bool" where
  "worm_export_enabled env = (lower (dget_or ''0'' env ''REDSIM_WORM_EXPORT'') \<in> {''1'', ''true'', ''yes'', ''on''})"

definition summary_json :: "export_summary \<Rightarrow> jdict" where
  "summary_json s = [(''chains_total'', JInt (int (es_total s))), (''chains_archived'', JInt (int (es_archived s))),
     (''chains_skipped'', JInt (int (es_skipped s))), (''objects_written'', JInt (int (es_objects s))),
     (''bytes_written'', JInt (int (es_bytes s))), (''broken_chains'', JArr (map JStr (es_broken s)))]"

definition worm_export_call :: "string \<Rightarrow> export_summary \<Rightarrow> audit_call" where
  "worm_export_call bucket s = \<lparr>ac_action = ''audit.worm_export'', ac_actor = ''worker:worm_export'',
     ac_target = Some (''s3://'' @ bucket), ac_check = ''n/a'', ac_override = False, ac_success = (es_broken s = []),
     ac_detail = summary_json s, ac_run = None, ac_project = None\<rparr>"

text \<open>The task with its audit writer: a failure to append the event is swallowed.\<close>

definition export_chains_to_worm :: "worm \<Rightarrow> 'w blob_api \<Rightarrow> string \<Rightarrow> (string, string) dict \<Rightarrow>
    (audit_call \<Rightarrow> 'u \<Rightarrow> (audit_error, 'u \<times> jdict) result) \<Rightarrow> (string \<Rightarrow> 'u \<Rightarrow> jdict list) \<Rightarrow> ('u \<Rightarrow> string list) \<Rightarrow>
    (string \<Rightarrow> int \<times> int) \<Rightarrow> 'w \<times> 'u \<Rightarrow> (export_error, ('w \<times> 'u) \<times> jdict) result" where
  "export_chains_to_worm a api bucket env app read ids clk st =
     (let (w, u) = st in
      if \<not> worm_export_enabled env then Inr (st, [(''status'', JStr ''disabled'')])
      else rbind (export_all a api (\<lambda>cid. read cid u) True clk (ids u) w) (\<lambda>(w', s).
        let u' = (case app (worm_export_call bucket s) u of Inl _ \<Rightarrow> u | Inr (u', _) \<Rightarrow> u')
        in Inr ((w', u'), summary_json s @ [(''status'', JStr ''ok'')])))"

text \<open>The book-keeping of a summary that started from zero.\<close>

definition tallied :: "(string \<Rightarrow> jdict list) \<Rightarrow> bool \<Rightarrow> string list \<Rightarrow> export_summary \<Rightarrow> bool" where
  "tallied read vfy cids s \<longleftrightarrow> es_total s = length cids \<and> es_archived s + es_skipped s = es_total s \<and>
     es_objects s = 2 * es_archived s \<and> es_broken s = (if vfy then filter (\<lambda>cid. \<not> verify_ok (read cid)) cids else [])"

section \<open>What the archive relies on\<close>

text \<open>
  A store keeps what it holds, under the digest of its bytes. \<open>stored\<close> is the object of a key and
  a digest, \<open>good\<close> what the store's own operations keep.
\<close>

locale blob_archive =
  fixes api :: "'w blob_api"
    and stored :: "string \<Rightarrow> string \<Rightarrow> 'w \<Rightarrow> string option"
    and good :: "'w \<Rightarrow> bool"
  assumes archived_iff: "good w \<Longrightarrow> ba_archived api key (sha256 data) w \<longleftrightarrow> stored key (sha256 data) w \<noteq> None"
    and stored_digest: "good w \<Longrightarrow> stored key (sha256 data) w = Some b \<Longrightarrow> sha256 b = sha256 data"
    and put_stored: "good w \<Longrightarrow> worm_put api key data ctype lock w = Inr (w', ref) \<Longrightarrow> stored key (sha256 data) w' \<noteq> None"
    and put_keeps: "good w \<Longrightarrow> worm_put api key data ctype lock w = Inr (w', ref) \<Longrightarrow> stored k s w = Some b \<Longrightarrow> stored k s w' = Some b"
    and put_good: "good w \<Longrightarrow> worm_put api key data ctype lock w = Inr (w', ref) \<Longrightarrow> good w'"
begin

definition kept :: "'w \<Rightarrow> 'w \<Rightarrow> bool" where
  "kept w w' \<longleftrightarrow> good w' \<and> (\<forall>k s b. stored k s w = Some b \<longrightarrow> stored k s w' = Some b)"

definition has_chain :: "string \<Rightarrow> jdict list \<Rightarrow> 'w \<Rightarrow> bool" where
  "has_chain cid es w \<longleftrightarrow> es = [] \<or> stored (jsonl_key cid es) (sha256 (canonical_jsonl es)) w \<noteq> None"

lemma kept_refl: "good w \<Longrightarrow> kept w w"
  by (simp add: kept_def)

lemma kept_trans: "kept w w' \<Longrightarrow> kept w' w'' \<Longrightarrow> kept w w''"
  by (simp add: kept_def)

lemma kept_chain: "kept w w' \<Longrightarrow> has_chain cid es w \<Longrightarrow> has_chain cid es w'"
  by (auto simp: kept_def has_chain_def)

lemma put_kept: "good w \<Longrightarrow> worm_put api key data ctype lock w = Inr (w', ref) \<Longrightarrow> kept w w'"
  using put_keeps put_good unfolding kept_def by blast

lemma archive_chain_done:
  assumes "good w" "has_chain cid es w"
  shows "archive_chain a api cid es v clk w = Inr (w, None)"
  using assms archived_iff by (auto simp: archive_chain_def has_chain_def)

lemma archive_chain_stores:
  assumes "good w" "archive_chain a api cid es v clk w = Inr (w', r)"
  shows "kept w w' \<and> has_chain cid es w'"
proof (cases "has_chain cid es w")
  case True
  then show ?thesis using archive_chain_done [OF assms(1) True] assms kept_refl by simp
next
  case False
  then obtain w1 ref ref' where p: "worm_put api (jsonl_key cid es) (canonical_jsonl es) ''application/x-ndjson''
      (wm_mode a, retain_until a (fst clk)) w = Inr (w1, ref)"
    "worm_put api (manifest_key cid es) (json_dumps_sorted (JObj (worm_manifest a cid es v clk))) ''application/json''
      (wm_mode a, retain_until a (fst clk)) w1 = Inr (w', ref')"
    using assms by (auto simp: archive_chain_def has_chain_def archived_iff Let_def split: if_splits)
  have k: "kept w w1" by (rule put_kept [OF assms(1) p(1)])
  moreover from this have "kept w1 w'" using put_kept [OF _ p(2)] by (simp add: kept_def)
  moreover have "has_chain cid es w1" using put_stored [OF assms(1) p(1)] by (simp add: has_chain_def)
  ultimately show ?thesis using kept_trans kept_chain by blast
qed

lemma export_chain_step:
  assumes "good w" "export_chain a api read vfy clk cid (w, s) = Inr (w', s')" "tallied read vfy done s"
  shows "kept w w' \<and> has_chain cid (read cid) w' \<and> tallied read vfy (done @ [cid]) s'"
proof -
  obtain v where v: "verify_chain (read cid) = Inr v" "vr_verified v \<longleftrightarrow> verify_ok (read cid)"
    using verify_chain_returns [of "read cid"] by (auto simp: verify_ok_iff)
  show ?thesis
  proof (cases "read cid = []")
    case True
    then have "w' = w" "verify_ok (read cid)" using assms(2) by (auto simp: export_chain_def verify_ok_def verify_chain_def)
    then show ?thesis using True assms kept_refl by (auto simp: export_chain_def has_chain_def tallied_def)
  next
    case False
    then obtain r b where a: "archive_chain a api cid (read cid) b (clk cid) w = Inr (w', r)"
      using assms(2) v by (auto simp: export_chain_def Let_def split: sum.splits option.splits if_splits)
    show ?thesis using archive_chain_stores [OF assms(1) a] assms(2,3) False v
      by (auto simp: export_chain_def tallied_def Let_def split: sum.splits option.splits if_splits)
  qed
qed

lemma export_loop_stores:
  "good w \<Longrightarrow> tallied read vfy done s \<Longrightarrow> export_loop a api read vfy clk cids (w, s) = Inr (w', s') \<Longrightarrow>
   kept w w' \<and> (\<forall>cid\<in>set cids. has_chain cid (read cid) w') \<and> tallied read vfy (done @ cids) s'"
proof (induction cids arbitrary: w s "done")
  case Nil
  then show ?case using kept_refl by simp
next
  case (Cons cid cids)
  obtain w1 s1 where e: "export_chain a api read vfy clk cid (w, s) = Inr (w1, s1)"
    and r: "export_loop a api read vfy clk cids (w1, s1) = Inr (w', s')" using Cons.prems(3) by auto
  have 1: "kept w w1" "has_chain cid (read cid) w1" "tallied read vfy (done @ [cid]) s1"
    using export_chain_step [OF Cons.prems(1) e Cons.prems(2)] by blast+
  then have "kept w1 w' \<and> (\<forall>c\<in>set cids. has_chain c (read c) w') \<and> tallied read vfy ((done @ [cid]) @ cids) s'"
    using Cons.IH [OF _ 1(3) r] by (simp add: kept_def)
  then show ?case using 1 kept_trans kept_chain by auto
qed

lemma export_loop_again:
  "good w \<Longrightarrow> \<forall>cid\<in>set cids. has_chain cid (read cid) w \<Longrightarrow>
   \<exists>s'. export_loop a api read vfy clk cids (w, s) = Inr (w, s') \<and> es_archived s' = es_archived s"
proof (induction cids arbitrary: s)
  case (Cons cid cids)
  obtain v where v: "verify_chain (read cid) = Inr v" using verify_chain_returns by blast
  have "archive_chain a api cid (read cid) b (clk cid) w = Inr (w, None)" for b
    using archive_chain_done Cons.prems by simp
  then have "\<exists>s1. export_chain a api read vfy clk cid (w, s) = Inr (w, s1) \<and> es_archived s1 = es_archived s"
    using v by (cases "read cid = []"; cases vfy; cases "vr_verified v") (simp_all add: export_chain_def Let_def)
  then obtain s1 where "export_chain a api read vfy clk cid (w, s) = Inr (w, s1)" "es_archived s1 = es_archived s" by blast
  then show ?case using Cons.IH [of s1] Cons.prems by auto
qed simp

text \<open>After an export every chain with events is in the store, nothing stored before has changed,
  the summary adds up, and a second export over the same chains changes nothing.\<close>

lemma export_all_complete:
  assumes "good w" "export_all a api read vfy clk cids w = Inr (w', s)"
  shows "kept w w' \<and> (\<forall>cid\<in>set cids. has_chain cid (read cid) w') \<and> tallied read vfy cids s \<and>
    (\<forall>clk'. \<exists>s'. export_all a api read vfy clk' cids w' = Inr (w', s') \<and> es_archived s' = 0)"
proof -
  have "tallied read vfy [] no_export" by (simp add: tallied_def no_export_def)
  from export_loop_stores [OF assms(1) this] have 1: "kept w w'" "\<forall>cid\<in>set cids. has_chain cid (read cid) w'" "tallied read vfy cids s"
    using assms(2) by (auto simp: export_all_def)
  then have "\<exists>s'. export_all a api read vfy clk' cids w' = Inr (w', s') \<and> es_archived s' = 0" for clk'
    using export_loop_again [of w' cids read a vfy clk' no_export] by (simp add: export_all_def kept_def no_export_def)
  with 1 show ?thesis by blast
qed

end

section \<open>The stores keep the promises\<close>

subsection \<open>Files\<close>

text \<open>Every file of the store lies at the path of its digest.\<close>

definition fs_good :: "fs_store \<Rightarrow> bool" where
  "fs_good w \<longleftrightarrow> (\<forall>p b. dget (fs_files w) p = Some b \<longrightarrow> p = digest_path w (sha256 b))"

lemma hex_char_ok: "hex_chars s \<Longrightarrow> c \<in> set s \<Longrightarrow> c \<noteq> CHR ''/'' \<and> c \<noteq> CHR ''.''"
proof -
  have "hex_digit d \<noteq> CHR ''/'' \<and> hex_digit d \<noteq> CHR ''.''" if "d \<in> {0..15}" for d
  proof -
    have "(of_char (hex_digit d) :: int) \<noteq> 46 \<and> (of_char (hex_digit d) :: int) \<noteq> 47" using that by (simp add: hex_digit_def)
    moreover have "(of_char CHR ''.'' :: int) = 46" "(of_char CHR ''/'' :: int) = 47" by simp_all
    ultimately show ?thesis by metis
  qed
  then show "hex_chars s \<Longrightarrow> c \<in> set s \<Longrightarrow> c \<noteq> CHR ''/'' \<and> c \<noteq> CHR ''.''" by (force simp: hex_chars_def list_all_iff)
qed

lemma sha_parts: "path_parts (sha256 m) = [sha256 m]"
proof -
  have c: "c \<noteq> CHR ''/'' \<and> c \<noteq> CHR ''.''" if "c \<in> set (sha256 m)" for c
    using hex_char_ok [OF sha256_chars that] .
  then have "split_on CHR ''/'' (sha256 m) = [sha256 m]" by (intro split_on_free) blast
  moreover have "sha256 m \<noteq> ''.''" using c by (metis list.set_intros(1))
  ultimately show ?thesis by (simp add: path_parts_def)
qed

lemma sha_relative: "\<not> starts_with ''/'' (sha256 m)"
proof
  assume "starts_with ''/'' (sha256 m)"
  then have "hd (sha256 m) = CHR ''/''" "sha256 m \<noteq> []" by (cases "sha256 m"; simp add: starts_with_def)+
  then show False using hex_char_ok [OF sha256_chars, of "CHR ''/''" m] by (metis list.set_sel(1))
qed

lemma fs_get_digest: "fs_good w \<Longrightarrow> fs_get (sha256 m) w = dget (fs_files w) (digest_path w (sha256 m))"
proof -
  assume g: "fs_good w"
  have "dget (fs_files w) (fs_base w @ [sha256 m]) = None"
  proof (rule ccontr)
    assume "dget (fs_files w) (fs_base w @ [sha256 m]) \<noteq> None"
    then obtain b where "fs_base w @ [sha256 m] = digest_path w (sha256 b)" using g by (auto simp: fs_good_def)
    then show False by (simp add: digest_path_def)
  qed
  then show ?thesis by (simp add: fs_get_def path_name_def sha_parts under_def sha_relative Let_def)
qed

lemma fs_put_good: "fs_good w \<Longrightarrow> fs_good (fst (fs_put key data ctype w))"
  by (auto simp: fs_good_def fs_put_def digest_path_def Let_def)

lemma worm_put_fs: "worm_put fs_api key data ctype lock w = Inr (fs_put key data ctype w)"
  by (simp add: worm_put_def fs_api_def)

interpretation fsa: blob_archive fs_api "\<lambda>k s w. dget (fs_files w) (digest_path w s)" fs_good
proof unfold_locales
  fix w key data
  assume g: "fs_good w"
  then show "ba_archived fs_api key (sha256 data) w \<longleftrightarrow> dget (fs_files w) (digest_path w (sha256 data)) \<noteq> None"
    by (simp add: fs_api_def fs_get_digest)
  fix b assume "dget (fs_files w) (digest_path w (sha256 data)) = Some b"
  then have "digest_path w (sha256 data) = digest_path w (sha256 b)" using g unfolding fs_good_def by blast
  then show "sha256 b = sha256 data" by (simp add: digest_path_def)
qed (auto simp: worm_put_fs fs_put_def digest_path_def fs_good_def Let_def split: if_splits)

subsection \<open>Objects\<close>

text \<open>The documented behaviour of the S3 client: \<open>head\<close> finds exactly the stored objects, a
  successful \<open>put\<close> stores the body under its key and touches no other object.\<close>

definition s3_ok :: "'s s3_client \<Rightarrow> bool" where
  "s3_ok c \<longleftrightarrow> (\<forall>k w. s3_head c k w \<longleftrightarrow> s3_get_object c k w \<noteq> None) \<and>
     (\<forall>k b t l w w'. s3_put_object c k b t l w = Inr w' \<longrightarrow>
        s3_get_object c k w' = Some b \<and> (\<forall>k'. k' \<noteq> k \<longrightarrow> s3_get_object c k' w' = s3_get_object c k' w))"

text \<open>Every object's key ends in the digest of its bytes.\<close>

definition s3_good :: "'s s3_client \<Rightarrow> 's \<Rightarrow> bool" where
  "s3_good c w \<longleftrightarrow> (\<forall>k b. s3_get_object c k w = Some b \<longrightarrow> (\<exists>p. k = p @ ''/'' @ sha256 b))"

definition s3_stored :: "'s s3_client \<Rightarrow> string \<Rightarrow> string \<Rightarrow> 's \<Rightarrow> string option" where
  "s3_stored c k s w = s3_get_object c (k @ ''/'' @ s) w"

lemma s3_put_effect:
  assumes "s3_ok c" "s3_put c bucket key data ctype lock w = Inr (w', ref)"
  shows "(w' = w \<and> s3_stored c key (sha256 data) w \<noteq> None) \<or>
    (s3_stored c key (sha256 data) w = None \<and> s3_stored c key (sha256 data) w' = Some data \<and>
     (\<forall>k. k \<noteq> key @ ''/'' @ sha256 data \<longrightarrow> s3_get_object c k w' = s3_get_object c k w))"
  using assms by (auto simp: s3_put_def s3_ok_def s3_stored_def Let_def split: if_splits)

lemma s3_worm_put: "worm_put (s3_api c bucket) key data ctype lock w = Inr (w', ref) \<Longrightarrow>
    \<exists>l. s3_put c bucket key data ctype l w = Inr (w', ref)"
  by (auto simp: worm_put_def s3_api_def split: sum.splits store_error.splits)

lemma s3_archive: "s3_ok c \<Longrightarrow> blob_archive (s3_api c bucket) (s3_stored c) (s3_good c)"
proof unfold_locales
  assume c: "s3_ok c"
  show "ba_archived (s3_api c bucket) key (sha256 data) w \<longleftrightarrow> s3_stored c key (sha256 data) w \<noteq> None" for key data w
    using c by (simp add: s3_ok_def s3_api_def s3_stored_def)
  show "sha256 b = sha256 data" if g: "s3_good c w" "s3_stored c key (sha256 data) w = Some b" for key data w b
  proof -
    obtain p where "key @ ''/'' @ sha256 data = p @ ''/'' @ sha256 b" using g unfolding s3_good_def s3_stored_def by blast
    then have "(key @ ''/'') @ sha256 data = (p @ ''/'') @ sha256 b" by simp
    then show ?thesis by (subst (asm) append_eq_append_conv) simp_all
  qed
  fix key data ctype lock w w' ref k s b
  assume p: "worm_put (s3_api c bucket) key data ctype lock w = Inr (w', ref)"
  obtain l where l: "s3_put c bucket key data ctype l w = Inr (w', ref)" using s3_worm_put [OF p] ..
  note e = s3_put_effect [OF c l]
  show "s3_stored c key (sha256 data) w' \<noteq> None" using e by auto
  show "s3_stored c k s w = Some b \<Longrightarrow> s3_stored c k s w' = Some b" using e unfolding s3_stored_def by (metis option.distinct(1))
  show "s3_good c w \<Longrightarrow> s3_good c w'"
    using e unfolding s3_good_def s3_stored_def by (metis option.inject)
qed

text \<open>A bucket without Object Lock gets no archive: the export stops before anything is written.\<close>

lemma unsealed_bucket_refused:
  assumes "s3_lock_status c w \<noteq> Some ''Enabled''" "\<not> s3_head c (key @ ''/'' @ sha256 data) w"
  shows "worm_put (s3_api c bucket) key data ctype lock w = Inl StoreUnsealed"
  using assms by (simp add: worm_put_def s3_api_def s3_put_def assert_object_lock_enabled_def Let_def)

section \<open>The export\<close>

text \<open>C38. A successful export over S3 leaves every chain that has events in the bucket, under the
  digest of its canonical bytes (the stored bytes are those bytes, or collide with them), changes no
  object that was stored before, counts every chain once as archived or skipped and two objects
  per archived one, names exactly the chains that do not verify as broken, and a second export
  over the same chains writes nothing. Assumed of the S3 client: \<open>head\<close> finds exactly the stored
  objects, and a successful \<open>put\<close> stores the body under its key and touches no other object.\<close>

theorem worm_export_complete:
  assumes "s3_ok c" "s3_good c w" "export_all a (s3_api c bucket) read vfy clk cids w = Inr (w', s)"
  shows "(\<forall>cid. cid \<notin> set cids \<or> read cid = [] \<or>
        (\<exists>b. s3_stored c (jsonl_key cid (read cid)) (sha256 (canonical_jsonl (read cid))) w' = Some b \<and>
             (b = canonical_jsonl (read cid) \<or> collide b (canonical_jsonl (read cid))))) \<and>
    (\<forall>key data b. s3_stored c key data w = Some b \<longrightarrow> s3_stored c key data w' = Some b) \<and>
    es_total s = length cids \<and> es_archived s + es_skipped s = es_total s \<and> es_objects s = 2 * es_archived s \<and>
    es_broken s = (if vfy then filter (\<lambda>cid. \<not> verify_ok (read cid)) cids else []) \<and>
    (\<exists>s'. export_all a (s3_api c bucket) read vfy clk' cids w' = Inr (w', s') \<and> es_archived s' = 0)"
proof -
  note s3 = s3_archive [OF assms(1)]
  note all = blob_archive.export_all_complete [OF s3 assms(2,3)]
  have kept: "s3_good c w'" "\<forall>key data b. s3_stored c key data w = Some b \<longrightarrow> s3_stored c key data w' = Some b"
    using all unfolding blob_archive.kept_def [OF s3] by blast+
  have "cid \<notin> set cids \<or> read cid = [] \<or> (\<exists>b. s3_stored c (jsonl_key cid (read cid)) (sha256 (canonical_jsonl (read cid))) w' = Some b \<and>
      (b = canonical_jsonl (read cid) \<or> collide b (canonical_jsonl (read cid))))" for cid
  proof (cases "cid \<in> set cids \<and> read cid \<noteq> []")
    case True
    then obtain b where b: "s3_stored c (jsonl_key cid (read cid)) (sha256 (canonical_jsonl (read cid))) w' = Some b"
      using all unfolding blob_archive.has_chain_def [OF s3] by blast
    then show ?thesis using blob_archive.stored_digest [OF s3 kept(1) b] by (auto simp: collide_def)
  qed blast
  then show ?thesis using all kept(2) unfolding tallied_def by blast
qed

section \<open>The archive reads back\<close>

definition canon_dict :: "jdict \<Rightarrow> jdict" where
  "canon_dict d = sort_key fst (map (\<lambda>(k, v). (k, canon v)) d)"

lemma canon_dict: "canon (JObj d) = JObj (canon_dict d)"
  by (simp add: canon_dict_def)

lemma canon_canon [simp]: "canon (canon v) = canon v"
proof (induction v rule: canon.induct)
  case (2 kvs)
  let ?g = "\<lambda>(k, v). (k, canon v)"
  have "map ?g (map ?g kvs) = map ?g kvs" using 2 by auto
  then have "map ?g (sort_key fst (map ?g kvs)) = sort_key fst (map ?g kvs)" by (metis sort_key_map_fst)
  then show ?case by (simp only: canon.simps sort_key_idem)
qed simp_all

lemma canonical_json_canon: "canonical_json (canon_dict d) = canonical_json d"
proof -
  let ?g = "map (\<lambda>(k, v). (k, canon v))" and ?f = "filter (\<lambda>(k, v). k \<noteq> ''this_hash'')"
  have "?f (?g d) = ?g (?f d)" by (induction d) auto
  then have "?f (canon_dict d) = sort_key fst (?g (?f d))" unfolding canon_dict_def filter_sort by simp
  then have "JObj (?f (canon_dict d)) = canon (JObj (?f d))" by (simp only: canon.simps)
  then show ?thesis unfolding canonical_json_def json_dumps_sorted_def by (simp only: canon_canon)
qed

lemma canon_scalar:
  shows "eq_int (canon v) n = eq_int v n" and "canon v = jopt p \<longleftrightarrow> v = jopt p" and "canon v = JStr s \<longleftrightarrow> v = JStr s"
proof -
  show "eq_int (canon v) n = eq_int v n" by (cases v) (simp_all add: eq_int_def)
  show "canon v = JStr s \<longleftrightarrow> v = JStr s" by (cases v) simp_all
  show "canon v = jopt p \<longleftrightarrow> v = jopt p" by (cases v; cases p) simp_all
qed

lemma linked_canon:
  "\<forall>r\<in>set rs. distinct (map fst r) \<Longrightarrow> linked p n (map canon_dict rs) = linked p n rs"
proof (induction rs arbitrary: p n)
  case (Cons r rs)
  have "jget (canon_dict r) k = canon (jget r k)" for k using jget_canon [OF canon_dict] Cons.prems by simp
  moreover have "compute_hash p (canon_dict r) = compute_hash p r" by (simp add: compute_hash_def canonical_json_canon)
  ultimately show ?case using Cons by (auto simp: canon_scalar split: option.split)
qed simp

lemma print_compact: "print_json Compact k v = enc v"
proof (induction v arbitrary: k)
  case (JArr xs)
  then have "map (print_json Compact (Suc k)) xs = map enc xs" by simp
  then show ?case unfolding print_json.simps enc.simps by (simp only: gap_def item_sep_def layout.case) simp
next
  case (JObj kvs)
  then have "map (\<lambda>(q, v). json_str q @ '':'' @ print_json Compact (Suc k) v) kvs = map (\<lambda>(q, v). json_str q @ '':'' @ enc v) kvs"
    by (force simp: snds.simps)
  then show ?case unfolding print_json.simps enc.simps by (simp only: gap_def item_sep_def key_sep_def layout.case append_Cons append_Nil) simp
qed simp_all

lemma parse_archive_lines:
  "\<forall>e\<in>set es. plain (JObj e) \<Longrightarrow> parse_lines (split_lines [] (canonical_jsonl es)) = Inr (map (\<lambda>e. JObj (canon_dict e)) es)"
proof (induction es)
  case Nil
  show ?case by (simp add: canonical_jsonl_def strip_def lstrip_def)
next
  case (Cons e es)
  have e: "plain (JObj (canon_dict e))" using Cons.prems plain_canon [of "JObj e"] by (simp only: canon_dict list.set_intros)
  let ?l = "print_json Compact 0 (JObj (canon_dict e))"
  have l: "json_dumps_sorted (JObj e) = ?l" by (simp only: print_compact json_dumps_sorted_def canon_dict)
  have "\<not> line_end c" if "c \<in> set ?l" for c
    using print_chars [OF e that] by (auto simp: doc_char_def printable_def line_end_def Let_def)
  then have "\<forall>c\<in>set ?l. \<not> line_end c" by blast
  then have s: "split_lines [] (canonical_jsonl (e # es)) = ?l # split_lines [] (canonical_jsonl es)"
    using split_lines_line [of ?l "[]" "canonical_jsonl es"] by (simp add: canonical_jsonl_def l del: print_json.simps)
  have "\<exists>r. ?l = CHR ''{'' # r" by auto
  then have "strip ?l \<noteq> []" using strip_not_Nil [of "CHR ''{''"] by (auto simp: is_space_def simp del: print_json.simps)
  moreover have "loads ?l = Some (JObj (canon_dict e))" using loads_print [OF e, of "[]" Compact 0] by (simp del: print_json.simps)
  ultimately show ?case using Cons s by (simp del: print_json.simps)
qed

text \<open>C39. The archived JSONL of a chain parses back, line by line, to its records with sorted keys,
  and the parsed chain verifies exactly when the chain did.\<close>

theorem archived_chain_reverifies:
  assumes "\<forall>e\<in>set es. plain (JObj e)"
  shows "\<exists>ds. parse_lines (split_lines [] (canonical_jsonl es)) = Inr (map JObj ds) \<and>
    map JObj ds = map (\<lambda>e. canon (JObj e)) es \<and> verify_ok ds = verify_ok es"
proof (intro exI [of _ "map canon_dict es"] conjI)
  show "verify_ok (map canon_dict es) = verify_ok es"
    unfolding verify_ok_iff by (rule linked_canon) (use assms in auto)
  show "parse_lines (split_lines [] (canonical_jsonl es)) = Inr (map JObj (map canon_dict es))"
    using parse_archive_lines [OF assms] by simp
qed (simp only: canon_dict list.map_comp o_def)

theorem archived_chain_reverifies_witness:
  "\<exists>e ds. verify_ok [e] \<and> parse_lines (split_lines [] (canonical_jsonl [e])) = Inr (map JObj ds) \<and> verify_ok ds"
proof -
  obtain e where e: "verify_ok [e]" "plain (JObj e)" using sample_event by blast
  have "\<forall>x\<in>set [e]. plain (JObj x)" using e(2) by simp
  from archived_chain_reverifies [OF this] e(1) show ?thesis by blast
qed

section \<open>The task and its event\<close>

context audit_writer begin

lemma export_event:
  assumes "export_chains_to_worm a api bucket env (\<lambda>c. append c now) read ids clk (w, u) = Inr ((w', u'), r)"
    "worm_export_enabled env" "good ''system'' u"
  shows "\<exists>s. export_all a api (\<lambda>cid. read cid u) True clk (ids u) w = Inr (w', s) \<and>
    (u' = u \<or> (\<exists>x. read ''system'' u' = read ''system'' u @ [x] \<and> jget x ''action'' = JStr ''audit.worm_export'' \<and>
       jget x ''success'' = JBool (es_broken s = [])))"
proof -
  obtain s where s: "export_all a api (\<lambda>cid. read cid u) True clk (ids u) w = Inr (w', s)"
    and u': "u' = (case append (worm_export_call bucket s) now u of Inl _ \<Rightarrow> u | Inr (u', _) \<Rightarrow> u')"
    using assms(1,2) by (auto simp: export_chains_to_worm_def Let_def)
  have c: "call_chain (worm_export_call bucket s) = ''system''" by (simp add: worm_export_call_def chain_id_of_def)
  show ?thesis
  proof (cases "append (worm_export_call bucket s) now u")
    case (Inr p)
    obtain v e where p: "p = (v, e)" by fastforce
    note a = Inr [unfolded p]
    obtain x where x: "read ''system'' v = read ''system'' u @ [x]" "map_of x = map_of e"
      using read_append [OF _ a] assms(3) c by auto
    have "jget e ''action'' = JStr ''audit.worm_export''" "jget e ''success'' = JBool (es_broken s = [])"
      using event_action [OF a] event_success [OF a] by (simp_all add: worm_export_call_def)
    then have "jget x ''action'' = JStr ''audit.worm_export''" "jget x ''success'' = JBool (es_broken s = [])"
      using x(2) by (simp_all add: jget_def)
    then show ?thesis using s x(1) u' a by auto
  qed (use s u' in auto)
qed

end

text \<open>With the JSONL writer: the event says whether every exported chain verified.\<close>

lemma jsonl_export_event:
  assumes "export_chains_to_worm a api bucket env (\<lambda>c. jl_append c now) jl_read jl_chain_ids clk (w, u) = Inr ((w', u'), r)"
    "worm_export_enabled env" "jl_good ''system'' u"
  shows "\<exists>s. export_all a api (\<lambda>cid. jl_read cid u) True clk (jl_chain_ids u) w = Inr (w', s) \<and>
    (u' = u \<or> (\<exists>x. jl_read ''system'' u' = jl_read ''system'' u @ [x] \<and> jget x ''action'' = JStr ''audit.worm_export'' \<and>
       jget x ''success'' = JBool (es_broken s = [])))"
  by (rule jlw.export_event [OF assms])

text \<open>A chain whose JSONL object is stored is never written again: a manifest that a failed second
  \<open>put\<close> left out stays out.\<close>

lemma missing_manifest_stays:
  assumes "fs_good w" "dget (fs_files w) (digest_path w (sha256 (canonical_jsonl es))) \<noteq> None"
  shows "archive_chain a fs_api cid es v clk w = Inr (w, None)"
  by (rule fsa.archive_chain_done) (use assms in \<open>simp_all add: fsa.has_chain_def\<close>)

section \<open>A concrete export\<close>

definition sample_s3 :: "(string, string) dict s3_client" where
  "sample_s3 = \<lparr>s3_head = (\<lambda>k w. dget w k \<noteq> None), s3_put_object = (\<lambda>k b t l w. Inr (dset k b w)),
     s3_get_object = (\<lambda>k w. dget w k), s3_lock_status = (\<lambda>w. Some ''Enabled'')\<rparr>"

theorem worm_export_complete_witness:
  "\<exists>w' s b. export_all \<lparr>wm_days = 1, wm_mode = ''COMPLIANCE''\<rparr> (s3_api sample_s3 ''b'') (\<lambda>cid. [[(''seq'', JInt 1)]]) True (\<lambda>cid. (0, 0)) [''system''] [] = Inr (w', s) \<and>
     s3_stored sample_s3 (jsonl_key ''system'' [[(''seq'', JInt 1)]]) (sha256 (canonical_jsonl [[(''seq'', JInt 1)]])) w' = Some b \<and>
     es_broken s = [''system''] \<and> es_total s = 1"
proof -
  let ?a = "\<lparr>wm_days = 1, wm_mode = ''COMPLIANCE''\<rparr>" and ?api = "s3_api sample_s3 ''b''" and ?es = "[[(''seq'', JInt 1)]]"
  have ok: "s3_ok sample_s3" "s3_good sample_s3 []" by (simp_all add: s3_ok_def s3_good_def sample_s3_def)
  have put: "\<exists>w' r. worm_put ?api k d t l w = Inr (w', r)" for k d t l w
    by (cases "dget w (k @ ''/'' @ sha256 d)") (simp_all add: worm_put_def s3_api_def s3_put_def sample_s3_def assert_object_lock_enabled_def Let_def)
  have arch: "\<exists>w' r. archive_chain ?a ?api cid es v clk w = Inr (w', r)" for cid es v clk w
  proof -
    obtain w1 r1 where 1: "worm_put ?api (jsonl_key cid es) (canonical_jsonl es) ''application/x-ndjson'' (wm_mode ?a, retain_until ?a (fst clk)) w = Inr (w1, r1)"
      using put by blast
    obtain w2 r2 where 2: "worm_put ?api (manifest_key cid es) (json_dumps_sorted (JObj (worm_manifest ?a cid es v clk))) ''application/json''
        (wm_mode ?a, retain_until ?a (fst clk)) w1 = Inr (w2, r2)" using put by blast
    show ?thesis unfolding archive_chain_def Let_def 1 rbind_simps prod.case 2 by auto
  qed
  obtain v where v: "verify_chain ?es = Inr v" using verify_chain_returns by blast
  obtain w1 r where "archive_chain ?a ?api ''system'' ?es (vr_verified v) (0, 0) [] = Inr (w1, r)" using arch by blast
  then have "\<exists>s. export_chain ?a ?api (\<lambda>cid. ?es) True (\<lambda>cid. (0, 0)) ''system'' ([], no_export) = Inr (w1, s)"
    using v by (cases r) (simp_all add: export_chain_def Let_def)
  then obtain w' s where e: "export_all ?a ?api (\<lambda>cid. ?es) True (\<lambda>cid. (0, 0)) [''system''] [] = Inr (w', s)"
    unfolding export_all_def by auto
  have "\<not> verify_ok ?es" by (simp add: verify_ok_iff jget_def eq_int_def)
  moreover note all = worm_export_complete [OF ok e, of "\<lambda>cid. (0, 0)"]
  moreover from all obtain b where "s3_stored sample_s3 (jsonl_key ''system'' ?es) (sha256 (canonical_jsonl ?es)) w' = Some b"
    by (elim conjE allE [of _ "''system''"]) auto
  ultimately show ?thesis using e by (intro exI [of _ w'] exI [of _ s] exI [of _ b]) simp
qed

end
