(* ===== verification/Spec2Isabelle.thy ===== *)
theory Spec2Isabelle
  imports Capacity Idempotency Drafts Policy LlmBudget Compare EndpointBroker Sampling Dispatching Worm
begin
end
